(* ===== verification/Gecit_Prelude.thy ===== *)
theory Gecit_Prelude
  imports Main "HOL-Library.Word"
begin

text \<open>
  Shared vocabulary of the development: the machine integers of the C and Go code,
  byte strings, the little- and big-endian encoders of Go's \<open>encoding/binary\<close> (and of a
  little-endian BPF target), the contract every fixed-width encoder satisfies, and the
  list lemmas the packet builders use.  The collection \<open>codec\<close> gathers the facts that
  read a field back out of an encoded buffer.
\<close>

unbundle bit_operations_syntax

section \<open>Machine integers and byte strings\<close>

type_synonym u8 = "8 word"
type_synonym u16 = "16 word"
type_synonym u32 = "32 word"
type_synonym u64 = "64 word"
type_synonym bytes = "u8 list"

named_theorems codec \<open>reading a field back out of an encoded buffer\<close>

text \<open>A Go string literal as the bytes it denotes.\<close>

definition bytes_of_string :: "string \<Rightarrow> bytes" where
  "bytes_of_string s = map (\<lambda>c. of_nat (of_char c)) s"

lemma length_bytes_of_string [simp]: "length (bytes_of_string s) = length s"
  by (simp add: bytes_of_string_def)

section \<open>Fixed-width encoders\<close>

definition be16 :: "u16 \<Rightarrow> bytes" where
  "be16 w = [ucast (drop_bit 8 w), ucast w]"

definition be32 :: "u32 \<Rightarrow> bytes" where
  "be32 w = [ucast (drop_bit 24 w), ucast (drop_bit 16 w), ucast (drop_bit 8 w), ucast w]"

definition le16 :: "u16 \<Rightarrow> bytes" where
  "le16 w = rev (be16 w)"

definition le32 :: "u32 \<Rightarrow> bytes" where
  "le32 w = rev (be32 w)"

text \<open>
  The readers take the slice the code passes them; Go panics on a shorter one, and every
  caller here slices at constant indices of a buffer whose length it has checked.
\<close>

fun of_be16 :: "bytes \<Rightarrow> u16" where
  "of_be16 (a # b # _) = (push_bit 8 (ucast a)) OR ucast b"
| "of_be16 _ = 0"

fun of_be32 :: "bytes \<Rightarrow> u32" where
  "of_be32 (a # b # c # d # _) =
     (push_bit 24 (ucast a)) OR (push_bit 16 (ucast b)) OR (push_bit 8 (ucast c)) OR ucast d"
| "of_be32 _ = 0"

definition of_le16 :: "bytes \<Rightarrow> u16" where
  "of_le16 bs = of_be16 (rev (take 2 bs))"

definition of_le32 :: "bytes \<Rightarrow> u32" where
  "of_le32 bs = of_be32 (rev (take 4 bs))"

lemma length_be16 [simp]: "length (be16 w) = 2"
  by (simp add: be16_def)

lemma length_be32 [simp]: "length (be32 w) = 4"
  by (simp add: be32_def)

lemma length_le16 [simp]: "length (le16 w) = 2"
  by (simp add: le16_def)

lemma length_le32 [simp]: "length (le32 w) = 4"
  by (simp add: le32_def)

text \<open>A byte has no bit at or above position 8.\<close>

lemma bit_u8_ge [simp]: "8 \<le> n \<Longrightarrow> \<not> bit (b :: u8) n"
  using bit_imp_le_length [of b n] by auto

text \<open>A 16-bit value widened to 32 bits and cut back.\<close>

lemma ucast_u16_u32 [simp]: "ucast (ucast p :: u32) = (p :: u16)"
  by (rule bit_word_eqI) (simp add: bit_simps)

lemma of_be16_be16: "of_be16 (be16 w) = w"
  by (rule bit_word_eqI) (auto simp: be16_def bit_simps)

lemma of_be32_be32: "of_be32 (be32 w) = w"
proof (rule bit_word_eqI)
  fix n :: nat
  consider "n < 8" | "8 \<le> n" "n < 16" | "16 \<le> n" "n < 24" | "24 \<le> n" by linarith
  then show "n < LENGTH(32) \<Longrightarrow> bit (of_be32 (be32 w)) n = bit w n"
    by cases (auto simp: be32_def bit_simps)
qed

lemma be16_of_be16: "length bs = 2 \<Longrightarrow> be16 (of_be16 bs) = bs"
  by (cases bs rule: of_be16.cases)
    (auto simp: be16_def bit_simps intro!: bit_word_eqI)

lemma be32_of_be32: "length bs = 4 \<Longrightarrow> be32 (of_be32 bs) = bs"
  by (cases bs rule: of_be32.cases)
    (auto simp: be32_def bit_simps intro!: bit_word_eqI)

lemma of_le16_le16: "of_le16 (le16 w) = w"
  by (simp add: of_le16_def le16_def of_be16_be16)

lemma of_le32_le32: "of_le32 (le32 w) = w"
  by (simp add: of_le32_def le32_def of_be32_be32)

lemma le16_of_le16: "length bs = 2 \<Longrightarrow> le16 (of_le16 bs) = bs"
  by (simp add: of_le16_def le16_def be16_of_be16)

lemma le32_of_le32: "length bs = 4 \<Longrightarrow> le32 (of_le32 bs) = bs"
  by (simp add: of_le32_def le32_def be32_of_be32)

text \<open>The readers look at the first bytes of their slice only.\<close>

lemma of_be16_take: "of_be16 (take 2 bs) = of_be16 bs"
  by (cases bs rule: of_be16.cases) simp_all

lemma of_be32_take: "of_be32 (take 4 bs) = of_be32 bs"
  by (cases bs rule: of_be32.cases) simp_all

lemma of_le16_take: "of_le16 (take 2 bs) = of_le16 bs"
  by (simp add: of_le16_def)

lemma of_le32_take: "of_le32 (take 4 bs) = of_le32 bs"
  by (simp add: of_le32_def)

section \<open>The contract of a fixed-width encoder\<close>

text \<open>
  Every encoder of the program writes a value in a constant number of bytes and every
  reader takes that many bytes from the front of its slice.  The client lemmas say that a
  field written anywhere in a buffer is read back, and that the encoding determines the
  value.
\<close>

locale byte_codec =
  fixes enc :: "'a \<Rightarrow> bytes"
    and dec :: "bytes \<Rightarrow> 'a"
    and width :: nat
  assumes length_enc: "length (enc x) = width"
    and dec_enc: "dec (enc x) = x"
    and enc_dec: "length bs = width \<Longrightarrow> enc (dec bs) = bs"
    and dec_take: "dec (take width bs) = dec bs"
begin

lemma dec_prefix: "dec (enc x @ rest) = x"
  by (metis append_eq_conv_conj dec_enc dec_take length_enc)

lemma dec_at: "length pre = n \<Longrightarrow> dec (drop n (pre @ enc x @ rest)) = x"
  by (simp add: dec_prefix)

lemma enc_inject: "enc x = enc y \<longleftrightarrow> x = y"
  by (metis dec_enc)

lemma enc_prefix_eq: "enc x @ r = enc y @ s \<longleftrightarrow> x = y \<and> r = s"
  by (metis append_eq_append_conv enc_inject length_enc)

end

interpretation BE16: byte_codec be16 of_be16 2
  by unfold_locales (simp_all add: of_be16_be16 be16_of_be16 of_be16_take)

interpretation BE32: byte_codec be32 of_be32 4
  by unfold_locales (simp_all add: of_be32_be32 be32_of_be32 of_be32_take)

interpretation LE16: byte_codec le16 of_le16 2
  by unfold_locales (simp_all add: of_le16_le16 le16_of_le16 of_le16_take)

interpretation LE32: byte_codec le32 of_le32 4
  by unfold_locales (simp_all add: of_le32_le32 le32_of_le32 of_le32_take)

lemmas codec_prefix [codec] =
  BE16.dec_prefix BE32.dec_prefix LE16.dec_prefix LE32.dec_prefix
  BE16.dec_enc BE32.dec_enc LE16.dec_enc LE32.dec_enc

end
