(* ===== verification/C_Layout.thy ===== *)
theory C_Layout
  imports Gecit_Prelude
begin

text \<open>
  C declarations as data.  \<open>ctype\<close> is the type of a declaration in the program's headers;
  \<open>ctype_size\<close>, \<open>ctype_align\<close> and \<open>member_offsets\<close> are the layout rules of the 64-bit
  BPF target the Makefile selects (\<open>-target bpfel\<close>): naturally aligned scalars, 8-byte
  pointers, members at the next multiple of their alignment, a struct padded to its own.
\<close>

section \<open>C types\<close>

datatype ctype =
    Void
  | Char
  | CInt
  | Long
  | ULong
  | U8 | U16 | U32 | U64
  | S32 | S64
  | Named string             \<comment> \<open>a typedef of the kernel headers, e.g. \<open>__wsum\<close>\<close>
  | Incomplete string        \<comment> \<open>\<open>struct tag\<close>, used through pointers only\<close>
  | Const ctype
  | Ptr ctype
  | Arr ctype nat
  | Struct "(string \<times> ctype) list"
  | Union "(string \<times> ctype) list"

text \<open>
  Scalar sizes of the target.  \<open>Void\<close>, an incomplete struct and a typedef that is not
  expanded have no size in the model; they occur in helper prototypes only, behind a
  pointer or as an opaque argument, never in a struct that is laid out.
\<close>

fun ctype_align :: "ctype \<Rightarrow> nat"
  and members_align :: "(string \<times> ctype) list \<Rightarrow> nat" where
  "ctype_align Void = 1"
| "ctype_align Char = 1"
| "ctype_align CInt = 4"
| "ctype_align Long = 8"
| "ctype_align ULong = 8"
| "ctype_align U8 = 1"
| "ctype_align U16 = 2"
| "ctype_align U32 = 4"
| "ctype_align U64 = 8"
| "ctype_align S32 = 4"
| "ctype_align S64 = 8"
| "ctype_align (Named _) = 1"
| "ctype_align (Incomplete _) = 1"
| "ctype_align (Const t) = ctype_align t"
| "ctype_align (Ptr _) = 8"
| "ctype_align (Arr t _) = ctype_align t"
| "ctype_align (Struct ms) = members_align ms"
| "ctype_align (Union ms) = members_align ms"
| "members_align [] = 1"
| "members_align ((_, t) # ms) = max (ctype_align t) (members_align ms)"

definition round_up :: "nat \<Rightarrow> nat \<Rightarrow> nat" where
  "round_up off a = (off + a - 1) div a * a"

fun ctype_size :: "ctype \<Rightarrow> nat"
  and struct_end :: "nat \<Rightarrow> (string \<times> ctype) list \<Rightarrow> nat"
  and union_end :: "(string \<times> ctype) list \<Rightarrow> nat" where
  "ctype_size Void = 0"
| "ctype_size Char = 1"
| "ctype_size CInt = 4"
| "ctype_size Long = 8"
| "ctype_size ULong = 8"
| "ctype_size U8 = 1"
| "ctype_size U16 = 2"
| "ctype_size U32 = 4"
| "ctype_size U64 = 8"
| "ctype_size S32 = 4"
| "ctype_size S64 = 8"
| "ctype_size (Named _) = 0"
| "ctype_size (Incomplete _) = 0"
| "ctype_size (Const t) = ctype_size t"
| "ctype_size (Ptr _) = 8"
| "ctype_size (Arr t n) = n * ctype_size t"
| "ctype_size (Struct ms) = round_up (struct_end 0 ms) (members_align ms)"
| "ctype_size (Union ms) = round_up (union_end ms) (members_align ms)"
| "struct_end off [] = off"
| "struct_end off ((_, t) # ms) = struct_end (round_up off (ctype_align t) + ctype_size t) ms"
| "union_end [] = 0"
| "union_end ((_, t) # ms) = max (ctype_size t) (union_end ms)"

text \<open>
  Offsets of the named members.  The members of an unnamed struct or union are members of
  the enclosing one, at the offset of the unnamed member plus their own.
\<close>

fun member_offsets :: "nat \<Rightarrow> (string \<times> ctype) list \<Rightarrow> (string \<times> nat \<times> nat) list"
  and union_offsets :: "nat \<Rightarrow> (string \<times> ctype) list \<Rightarrow> (string \<times> nat \<times> nat) list"
  and inner_offsets :: "nat \<Rightarrow> string \<Rightarrow> ctype \<Rightarrow> (string \<times> nat \<times> nat) list" where
  "member_offsets off [] = []"
| "member_offsets off ((n, t) # ms) =
     (let o1 = round_up off (ctype_align t)
      in inner_offsets o1 n t @ member_offsets (o1 + ctype_size t) ms)"
| "union_offsets off [] = []"
| "union_offsets off ((n, t) # ms) = inner_offsets off n t @ union_offsets off ms"
| "inner_offsets off n (Struct ms) =
     (if n = [] then map (\<lambda>(m, o', s). (m, off + o', s)) (member_offsets 0 ms)
      else [(n, off, ctype_size (Struct ms))])"
| "inner_offsets off n (Union ms) =
     (if n = [] then union_offsets off ms else [(n, off, ctype_size (Union ms))])"
| "inner_offsets off n t = [(n, off, ctype_size t)]"

fun struct_members :: "ctype \<Rightarrow> (string \<times> ctype) list" where
  "struct_members (Struct ms) = ms"
| "struct_members _ = []"

definition field_offset :: "ctype \<Rightarrow> string \<Rightarrow> nat option" where
  "field_offset t f = map_option fst (map_of (member_offsets 0 (struct_members t)) f)"

text \<open>
  A struct without holes: each member starts where the previous one ends and nothing
  follows the last.  This is what lets \<open>encoding/binary\<close>, which writes the fields of a Go
  struct one after the other, produce the bytes the C program reads.
\<close>

fun contiguous :: "nat \<Rightarrow> (string \<times> nat \<times> nat) list \<Rightarrow> bool" where
  "contiguous off [] = True"
| "contiguous off ((_, o', s) # ms) = (o' = off \<and> contiguous (off + s) ms)"

definition no_padding :: "ctype \<Rightarrow> bool" where
  "no_padding t \<longleftrightarrow>
     contiguous 0 (member_offsets 0 (struct_members t)) \<and>
     ctype_size t = sum_list (map (\<lambda>(_, t'). ctype_size t') (struct_members t))"

section \<open>Facts about the layout rules\<close>

lemma round_up_bounds:
  assumes "0 < a"
  shows "off \<le> round_up off a" and "round_up off a < off + a"
proof -
  have "(off + a - 1) div a * a + (off + a - 1) mod a = off + a - 1"
    by (rule div_mult_mod_eq)
  moreover have "(off + a - 1) mod a < a"
    using assms by simp
  ultimately show "off \<le> round_up off a" and "round_up off a < off + a"
    using assms unfolding round_up_def by linarith+
qed

lemma round_up_dvd: "a dvd round_up off a"
  by (simp add: round_up_def)

lemma round_up_id:
  assumes "a dvd off" and "0 < a"
  shows "round_up off a = off"
proof -
  from assms(1) obtain k where k: "off = k * a" by (auto simp: dvd_def mult.commute)
  have "((a - 1) + k * a) div a = k + (a - 1) div a"
    using assms(2) by (intro div_mult_self1) simp
  with assms(2) have "(k * a + a - 1) div a = k"
    by (simp add: add.commute)
  with k show ?thesis by (simp add: round_up_def)
qed

lemma contiguous_append:
  "contiguous off (xs @ ys) \<longleftrightarrow>
     contiguous off xs \<and> contiguous (off + sum_list (map (\<lambda>(_, _, s). s) xs)) ys"
  by (induction off xs rule: contiguous.induct) (auto simp: add.assoc)

end
