(* ===== verification/Bpf_Maps.thy ===== *)
theory Bpf_Maps
  imports C_Layout
begin

text \<open>
  The types and maps of \<open>src/pkg/ebpf/bpf/maps.h\<close>: the configuration pushed by userspace,
  the port and address sets, the per-connection counters, and the event written to the
  perf ring.  Each struct appears twice: as a C type, whose layout userspace depends on,
  and as a record of its fields, which the program computes with.
\<close>

section \<open>The structs as C types\<close>

definition gecit_config_ctype :: ctype where
  "gecit_config_ctype = Struct [
    (''mss'', U16),
    (''restore_mss'', U16),
    (''restore_after_bytes'', U32),
    (''enabled'', U8),
    (''reserved'', Arr U8 7)]"

definition conn_event_ctype :: ctype where
  "conn_event_ctype = Struct [
    (''src_ip'', U32),
    (''dst_ip'', U32),
    (''src_port'', U16),
    (''dst_port'', U16),
    (''seq'', U32),
    (''ack'', U32)]"

definition conn_state_ctype :: ctype where
  "conn_state_ctype = Struct [
    (''bytes_sent'', U32),
    (''mss_restored'', U8),
    (''reserved'', Arr U8 3)]"

section \<open>The structs as records\<close>

text \<open>
  The \<open>reserved\<close> bytes are zero in every value the code builds and no code reads them:
  the records leave them out and the memory images below write them.
\<close>

record gecit_config_t =
  mss :: u16
  restore_mss :: u16
  restore_after_bytes :: u32
  enabled :: u8

record conn_event =
  src_ip :: u32
  dst_ip :: u32
  src_port :: u16
  dst_port :: u16
  seq :: u32
  ack :: u32

record conn_state =
  bytes_sent :: u32
  mss_restored :: u8

text \<open>
  The bytes the program hands to \<open>bpf_perf_event_output\<close>: the fields in declaration order
  at their offsets, little-endian, which without padding is their concatenation.
\<close>

definition conn_event_mem :: "conn_event \<Rightarrow> bytes" where
  "conn_event_mem e =
     le32 (src_ip e) @ le32 (dst_ip e) @ le16 (src_port e) @ le16 (dst_port e) @
     le32 (seq e) @ le32 (ack e)"

definition gecit_config_mem :: "gecit_config_t \<Rightarrow> bytes" where
  "gecit_config_mem c =
     le16 (mss c) @ le16 (restore_mss c) @ le32 (restore_after_bytes c) @ [enabled c] @
     replicate 7 0"

section \<open>The maps\<close>

text \<open>
  A declaration gives a map its type and, where the program sets one, its bound.
\<close>

record map_def =
  map_type :: string
  max_entries :: "nat option"
  key_type :: ctype
  value_type :: ctype

definition gecit_config_map :: map_def where
  "gecit_config_map =
     \<lparr>map_type = ''BPF_MAP_TYPE_ARRAY'', max_entries = Some 1,
      key_type = U32, value_type = gecit_config_ctype\<rparr>"

definition target_ports_map :: map_def where
  "target_ports_map =
     \<lparr>map_type = ''BPF_MAP_TYPE_HASH'', max_entries = Some 64,
      key_type = U16, value_type = U8\<rparr>"

definition exclude_ips_map :: map_def where
  "exclude_ips_map =
     \<lparr>map_type = ''BPF_MAP_TYPE_HASH'', max_entries = Some 64,
      key_type = U32, value_type = U8\<rparr>"

definition conn_events_map :: map_def where
  "conn_events_map =
     \<lparr>map_type = ''BPF_MAP_TYPE_PERF_EVENT_ARRAY'', max_entries = None,
      key_type = U32, value_type = U32\<rparr>"

definition connections_map :: map_def where
  "connections_map =
     \<lparr>map_type = ''BPF_MAP_TYPE_LRU_HASH'', max_entries = Some 65536,
      key_type = U64, value_type = conn_state_ctype\<rparr>"

text \<open>The contents of the maps the program reads and writes.\<close>

record bpf_maps =
  gecit_config :: "u32 \<rightharpoonup> gecit_config_t"
  target_ports :: "u16 \<rightharpoonup> u8"
  exclude_ips :: "u32 \<rightharpoonup> u8"
  connections :: "u64 \<rightharpoonup> conn_state"

section \<open>Layout facts\<close>

lemma conn_event_layout:
  "member_offsets 0 (struct_members conn_event_ctype) =
     [(''src_ip'', 0, 4), (''dst_ip'', 4, 4), (''src_port'', 8, 2), (''dst_port'', 10, 2),
      (''seq'', 12, 4), (''ack'', 16, 4)]"
  by (simp add: conn_event_ctype_def round_up_def)

lemma conn_event_no_padding: "no_padding conn_event_ctype"
  by (simp add: no_padding_def conn_event_ctype_def round_up_def)

lemma gecit_config_no_padding: "no_padding gecit_config_ctype"
  by (simp add: no_padding_def gecit_config_ctype_def round_up_def)

lemma conn_state_no_padding: "no_padding conn_state_ctype"
  by (simp add: no_padding_def conn_state_ctype_def round_up_def)

lemma length_conn_event_mem [simp]: "length (conn_event_mem e) = ctype_size conn_event_ctype"
  by (simp add: conn_event_mem_def conn_event_ctype_def round_up_def)

lemma length_gecit_config_mem [simp]:
  "length (gecit_config_mem c) = ctype_size gecit_config_ctype"
  by (simp add: gecit_config_mem_def gecit_config_ctype_def round_up_def)

end
