(* ===== verification/Bpf_Endian.thy ===== *)
theory Bpf_Endian
  imports Gecit_Prelude
begin

text \<open>
  The byte-order macros of \<open>src/include/bpf/bpf_endian.h\<close> on targets of both byte orders.
  A macro argument that is a compile-time constant goes through the shift-and-mask macros
  \<open>___bpf_swabN\<close>, any other through the compiler's byte-swap builtin; the two ways agree,
  and both reverse the bytes.
\<close>

section \<open>Shift-and-mask swaps\<close>

text \<open>
  \<open>___bpf_mvb(x, b, n, m)\<close> moves byte \<open>n\<close> of a \<open>b\<close>-bit value to byte \<open>m\<close>.  A \<open>__u16\<close> operand
  is promoted to \<open>int\<close> before it is shifted, so the 16-bit instance computes in 32 bits
  (the values stay non-negative) and the high bits it leaves are cut by the cast of
  \<open>___bpf_swab16\<close>.
\<close>

definition bpf_mvb16 :: "u16 \<Rightarrow> nat \<Rightarrow> nat \<Rightarrow> u32" where
  "bpf_mvb16 x n m = push_bit (m * 8) (drop_bit (16 - 8) (push_bit (16 - (n + 1) * 8) (ucast x)))"

definition bpf_mvb32 :: "u32 \<Rightarrow> nat \<Rightarrow> nat \<Rightarrow> u32" where
  "bpf_mvb32 x n m = push_bit (m * 8) (drop_bit (32 - 8) (push_bit (32 - (n + 1) * 8) x))"

definition bpf_mvb64 :: "u64 \<Rightarrow> nat \<Rightarrow> nat \<Rightarrow> u64" where
  "bpf_mvb64 x n m = push_bit (m * 8) (drop_bit (64 - 8) (push_bit (64 - (n + 1) * 8) x))"

definition bpf_swab16 :: "u16 \<Rightarrow> u16" where
  "bpf_swab16 x = ucast (bpf_mvb16 x 0 1 OR bpf_mvb16 x 1 0)"

definition bpf_swab32 :: "u32 \<Rightarrow> u32" where
  "bpf_swab32 x =
     (bpf_mvb32 x 0 3 OR bpf_mvb32 x 1 2 OR bpf_mvb32 x 2 1 OR bpf_mvb32 x 3 0)"

definition bpf_swab64 :: "u64 \<Rightarrow> u64" where
  "bpf_swab64 x =
     (bpf_mvb64 x 0 7 OR bpf_mvb64 x 1 6 OR bpf_mvb64 x 2 5 OR bpf_mvb64 x 3 4 OR
      bpf_mvb64 x 4 3 OR bpf_mvb64 x 5 2 OR bpf_mvb64 x 6 1 OR bpf_mvb64 x 7 0)"

section \<open>The compiler's byte swaps\<close>

text \<open>\<open>__builtin_bswapN\<close> reads the value's bytes in the opposite order.\<close>

definition builtin_bswap16 :: "u16 \<Rightarrow> u16" where
  "builtin_bswap16 x = of_be16 (le16 x)"

definition builtin_bswap32 :: "u32 \<Rightarrow> u32" where
  "builtin_bswap32 x = of_be32 (le32 x)"

definition be64 :: "u64 \<Rightarrow> bytes" where
  "be64 w = be32 (ucast (drop_bit 32 w)) @ be32 (ucast w)"

definition of_be64 :: "bytes \<Rightarrow> u64" where
  "of_be64 bs = push_bit 32 (ucast (of_be32 (take 4 bs))) OR ucast (of_be32 (take 4 (drop 4 bs)))"

definition builtin_bswap64 :: "u64 \<Rightarrow> u64" where
  "builtin_bswap64 x = of_be64 (rev (be64 x))"

section \<open>The conversion macros\<close>

text \<open>
  The header picks one of two groups of twelve macros by the byte order of the target:
  \<open>__bpf_ntohs\<close> and the rest for values, \<open>__bpf_constant_ntohs\<close> and the rest for constants.
\<close>

record endian_macros =
  m_ntohs :: "u16 \<Rightarrow> u16"
  m_htons :: "u16 \<Rightarrow> u16"
  m_constant_ntohs :: "u16 \<Rightarrow> u16"
  m_constant_htons :: "u16 \<Rightarrow> u16"
  m_ntohl :: "u32 \<Rightarrow> u32"
  m_htonl :: "u32 \<Rightarrow> u32"
  m_constant_ntohl :: "u32 \<Rightarrow> u32"
  m_constant_htonl :: "u32 \<Rightarrow> u32"
  m_be64_to_cpu :: "u64 \<Rightarrow> u64"
  m_cpu_to_be64 :: "u64 \<Rightarrow> u64"
  m_constant_be64_to_cpu :: "u64 \<Rightarrow> u64"
  m_constant_cpu_to_be64 :: "u64 \<Rightarrow> u64"

definition little_endian_macros :: endian_macros where
  "little_endian_macros = \<lparr>
     m_ntohs = builtin_bswap16, m_htons = builtin_bswap16,
     m_constant_ntohs = bpf_swab16, m_constant_htons = bpf_swab16,
     m_ntohl = builtin_bswap32, m_htonl = builtin_bswap32,
     m_constant_ntohl = bpf_swab32, m_constant_htonl = bpf_swab32,
     m_be64_to_cpu = builtin_bswap64, m_cpu_to_be64 = builtin_bswap64,
     m_constant_be64_to_cpu = bpf_swab64, m_constant_cpu_to_be64 = bpf_swab64\<rparr>"

definition big_endian_macros :: endian_macros where
  "big_endian_macros = \<lparr>
     m_ntohs = (\<lambda>x. x), m_htons = (\<lambda>x. x), m_constant_ntohs = (\<lambda>x. x), m_constant_htons = (\<lambda>x. x),
     m_ntohl = (\<lambda>x. x), m_htonl = (\<lambda>x. x), m_constant_ntohl = (\<lambda>x. x), m_constant_htonl = (\<lambda>x. x),
     m_be64_to_cpu = (\<lambda>x. x), m_cpu_to_be64 = (\<lambda>x. x),
     m_constant_be64_to_cpu = (\<lambda>x. x), m_constant_cpu_to_be64 = (\<lambda>x. x)\<rparr>"

text \<open>\<open>__BYTE_ORDER__\<close>.\<close>

datatype byte_order = LittleEndian | BigEndian

definition endian_macros_of :: "byte_order \<Rightarrow> endian_macros" where
  "endian_macros_of bo = (case bo of LittleEndian \<Rightarrow> little_endian_macros | BigEndian \<Rightarrow> big_endian_macros)"

text \<open>The macros the programs use; \<open>c\<close> is the value of \<open>__builtin_constant_p\<close> on the argument.\<close>

definition bpf_htons_on :: "byte_order \<Rightarrow> bool \<Rightarrow> u16 \<Rightarrow> u16" where
  "bpf_htons_on bo c x = (let M = endian_macros_of bo in if c then m_constant_htons M x else m_htons M x)"

definition bpf_ntohs_on :: "byte_order \<Rightarrow> bool \<Rightarrow> u16 \<Rightarrow> u16" where
  "bpf_ntohs_on bo c x = (let M = endian_macros_of bo in if c then m_constant_ntohs M x else m_ntohs M x)"

definition bpf_htonl_on :: "byte_order \<Rightarrow> bool \<Rightarrow> u32 \<Rightarrow> u32" where
  "bpf_htonl_on bo c x = (let M = endian_macros_of bo in if c then m_constant_htonl M x else m_htonl M x)"

definition bpf_ntohl_on :: "byte_order \<Rightarrow> bool \<Rightarrow> u32 \<Rightarrow> u32" where
  "bpf_ntohl_on bo c x = (let M = endian_macros_of bo in if c then m_constant_ntohl M x else m_ntohl M x)"

definition bpf_cpu_to_be64_on :: "byte_order \<Rightarrow> bool \<Rightarrow> u64 \<Rightarrow> u64" where
  "bpf_cpu_to_be64_on bo c x =
     (let M = endian_macros_of bo in if c then m_constant_cpu_to_be64 M x else m_cpu_to_be64 M x)"

definition bpf_be64_to_cpu_on :: "byte_order \<Rightarrow> bool \<Rightarrow> u64 \<Rightarrow> u64" where
  "bpf_be64_to_cpu_on bo c x =
     (let M = endian_macros_of bo in if c then m_constant_be64_to_cpu M x else m_be64_to_cpu M x)"

text \<open>On the target the Makefile selects (\<open>-target bpfel\<close>).\<close>

definition bpf_ntohs :: "bool \<Rightarrow> u16 \<Rightarrow> u16" where
  "bpf_ntohs = bpf_ntohs_on LittleEndian"

definition bpf_htons :: "bool \<Rightarrow> u16 \<Rightarrow> u16" where
  "bpf_htons = bpf_htons_on LittleEndian"

definition bpf_ntohl :: "bool \<Rightarrow> u32 \<Rightarrow> u32" where
  "bpf_ntohl = bpf_ntohl_on LittleEndian"

definition bpf_htonl :: "bool \<Rightarrow> u32 \<Rightarrow> u32" where
  "bpf_htonl = bpf_htonl_on LittleEndian"

definition bpf_be64_to_cpu :: "bool \<Rightarrow> u64 \<Rightarrow> u64" where
  "bpf_be64_to_cpu = bpf_be64_to_cpu_on LittleEndian"

definition bpf_cpu_to_be64 :: "bool \<Rightarrow> u64 \<Rightarrow> u64" where
  "bpf_cpu_to_be64 = bpf_cpu_to_be64_on LittleEndian"

section \<open>Bitwise readings\<close>

text \<open>
  Byte reversal as a statement on bits: bit \<open>i\<close> of byte \<open>k\<close> of the result is bit \<open>i\<close> of byte
  \<open>N - 1 - k\<close> of the argument.
\<close>

definition byte_reversed :: "nat \<Rightarrow> 'a::len word \<Rightarrow> 'a word \<Rightarrow> bool" where
  "byte_reversed nb x y \<longleftrightarrow>
     (\<forall>k < nb. \<forall>i < 8. bit y (8 * k + i) = bit x (8 * (nb - 1 - k) + i))"

lemma less_2_cases': "k < 2 \<longleftrightarrow> k = 0 \<or> k = (1::nat)" by auto
lemma less_4_cases: "k < 4 \<longleftrightarrow> k = 0 \<or> k = 1 \<or> k = 2 \<or> k = (3::nat)" by auto
lemma less_8_cases: "k < 8 \<longleftrightarrow> k = 0 \<or> k = 1 \<or> k = 2 \<or> k = 3 \<or> k = 4 \<or> k = 5 \<or> k = 6 \<or> k = (7::nat)"
  by auto

lemma swab16_reverses: "byte_reversed 2 x (bpf_swab16 x)"
  unfolding byte_reversed_def less_2_cases'
  by (auto simp: bpf_swab16_def bpf_mvb16_def bit_simps dest: bit_imp_le_length)

lemma bswap16_reverses: "byte_reversed 2 x (builtin_bswap16 x)"
  unfolding byte_reversed_def less_2_cases'
  by (auto simp: builtin_bswap16_def le16_def be16_def bit_simps)

lemma swab32_reverses: "byte_reversed 4 x (bpf_swab32 x)"
  unfolding byte_reversed_def less_4_cases
  by (auto simp: bpf_swab32_def bpf_mvb32_def bit_simps dest: bit_imp_le_length)

lemma bswap32_reverses: "byte_reversed 4 x (builtin_bswap32 x)"
  unfolding byte_reversed_def less_4_cases
  by (auto simp: builtin_bswap32_def le32_def be32_def bit_simps)

lemma swab64_reverses: "byte_reversed 8 x (bpf_swab64 x)"
  unfolding byte_reversed_def less_8_cases
  by (auto simp: bpf_swab64_def bpf_mvb64_def bit_simps simp flip: numeral_2_eq_2
      dest: bit_imp_le_length)

lemma bswap64_reverses: "byte_reversed 8 x (builtin_bswap64 x)"
  unfolding byte_reversed_def less_8_cases
  by (auto simp: builtin_bswap64_def of_be64_def be64_def be32_def bit_simps
      simp flip: numeral_2_eq_2 dest: bit_imp_le_length)

text \<open>Every bit position lies in one byte, so the reversal is determined by its argument.\<close>

lemma byte_reversed_bit:
  assumes "byte_reversed nb x y" and "n < 8 * nb"
  shows "bit y n = bit x (8 * (nb - 1 - n div 8) + n mod 8)"
proof -
  have "n = 8 * (n div 8) + n mod 8" by simp
  moreover have "n div 8 < nb" and "n mod 8 < 8"
    using assms(2) by auto
  ultimately show ?thesis
    using assms(1) unfolding byte_reversed_def by metis
qed

lemma byte_reversed_unique:
  fixes x :: "'a::len word"
  assumes "byte_reversed nb x y" and "byte_reversed nb x z" and "LENGTH('a) = 8 * nb"
  shows "y = z"
  by (rule bit_word_eqI) (use assms byte_reversed_bit in metis)

lemma byte_reversed_twice:
  fixes x :: "'a::len word"
  assumes "byte_reversed nb x y" and "byte_reversed nb y z" and "LENGTH('a) = 8 * nb"
  shows "z = x"
proof (rule bit_word_eqI)
  fix n
  assume "n < LENGTH('a)"
  with assms(3) have n: "n < 8 * nb" by simp
  let ?m = "8 * (nb - 1 - n div 8) + n mod 8"
  from n have "n div 8 < nb" by auto
  then have m: "?m < 8 * nb" and "?m div 8 = nb - 1 - n div 8" and "?m mod 8 = n mod 8"
    by auto
  with \<open>n div 8 < nb\<close> have "8 * (nb - 1 - ?m div 8) + ?m mod 8 = n"
    by simp
  with byte_reversed_bit [OF assms(1) m] byte_reversed_bit [OF assms(2) n]
  show "bit z n = bit x n" by simp
qed

lemma swab_eq_bswap:
  "bpf_swab16 a = builtin_bswap16 a"
  "bpf_swab32 b = builtin_bswap32 b"
  "bpf_swab64 c = builtin_bswap64 c"
  by (rule byte_reversed_unique [OF swab16_reverses bswap16_reverses] byte_reversed_unique [OF swab32_reverses bswap32_reverses]
      byte_reversed_unique [OF swab64_reverses bswap64_reverses], simp)+

lemmas conversion_defs =
  bpf_ntohs_def bpf_htons_def bpf_ntohl_def bpf_htonl_def bpf_be64_to_cpu_def bpf_cpu_to_be64_def
  bpf_ntohs_on_def bpf_htons_on_def bpf_ntohl_on_def bpf_htonl_on_def bpf_be64_to_cpu_on_def bpf_cpu_to_be64_on_def
  endian_macros_of_def little_endian_macros_def big_endian_macros_def Let_def

lemma bpf_ntohl_bswap: "bpf_ntohl c x = builtin_bswap32 x"
  and bpf_htonl_bswap: "bpf_htonl c x = builtin_bswap32 x"
  by (simp_all add: conversion_defs swab_eq_bswap)

lemma builtin_bswap32_twice: "builtin_bswap32 (builtin_bswap32 x) = x"
  by (rule byte_reversed_twice [OF bswap32_reverses bswap32_reverses]) simp

text \<open>
  The conversion macros reverse the bytes of their argument, the way a big-endian network
  value is read on a little-endian target; whether the compiler folds the argument makes no
  difference, and applying a conversion and its inverse gives the value back.
\<close>

theorem conversions_reverse_bytes:
  "byte_reversed 2 a (bpf_ntohs b a) \<and> byte_reversed 4 x (bpf_ntohl b x) \<and>
   byte_reversed 8 y (bpf_be64_to_cpu b y) \<and>
   bpf_ntohs b (bpf_htons b' a) = a \<and> bpf_ntohl b (bpf_htonl b' x) = x \<and>
   bpf_be64_to_cpu b (bpf_cpu_to_be64 b' y) = y"
proof (intro conjI)
  show "byte_reversed 2 a (bpf_ntohs b a)" "byte_reversed 4 x (bpf_ntohl b x)"
    "byte_reversed 8 y (bpf_be64_to_cpu b y)"
    by (simp_all add: conversion_defs swab_eq_bswap bswap16_reverses bswap32_reverses bswap64_reverses)
  show "bpf_ntohs b (bpf_htons b' a) = a"
    by (simp add: conversion_defs swab_eq_bswap byte_reversed_twice [OF bswap16_reverses bswap16_reverses])
  show "bpf_ntohl b (bpf_htonl b' x) = x"
    by (simp add: bpf_ntohl_bswap bpf_htonl_bswap builtin_bswap32_twice)
  show "bpf_be64_to_cpu b (bpf_cpu_to_be64 b' y) = y"
    by (simp add: conversion_defs swab_eq_bswap byte_reversed_twice [OF bswap64_reverses bswap64_reverses])
qed

section \<open>Both byte orders\<close>

text \<open>How a target keeps a number in memory.\<close>

definition mem16 :: "byte_order \<Rightarrow> u16 \<Rightarrow> bytes" where
  "mem16 bo x = (case bo of LittleEndian \<Rightarrow> le16 x | BigEndian \<Rightarrow> be16 x)"

definition mem32 :: "byte_order \<Rightarrow> u32 \<Rightarrow> bytes" where
  "mem32 bo x = (case bo of LittleEndian \<Rightarrow> le32 x | BigEndian \<Rightarrow> be32 x)"

definition mem64 :: "byte_order \<Rightarrow> u64 \<Rightarrow> bytes" where
  "mem64 bo x = (case bo of LittleEndian \<Rightarrow> rev (be64 x) | BigEndian \<Rightarrow> be64 x)"

lemma be64_halves:
  "ucast (drop_bit 32 (push_bit 32 (ucast (a :: u32)) OR ucast (b :: u32) :: u64)) = a"
  "ucast (push_bit 32 (ucast (a :: u32)) OR ucast (b :: u32) :: u64) = b"
  by (rule bit_word_eqI, auto simp: bit_simps dest: bit_imp_le_length)+

lemma be64_of_be64:
  assumes "length bs = 8"
  shows "be64 (of_be64 bs) = bs"
proof -
  have "be64 (of_be64 bs) = be32 (of_be32 (take 4 bs)) @ be32 (of_be32 (take 4 (drop 4 bs)))"
    unfolding be64_def of_be64_def by (simp only: be64_halves)
  also have "\<dots> = take 4 bs @ take 4 (drop 4 bs)" using assms by (simp add: be32_of_be32)
  also have "\<dots> = bs" using assms by (simp flip: take_add)
  finally show ?thesis .
qed

lemma swapped_memory:
  "le16 (builtin_bswap16 a) = be16 a" "le32 (builtin_bswap32 x) = be32 x" "rev (be64 (builtin_bswap64 y)) = be64 y"
proof -
  show "le16 (builtin_bswap16 a) = be16 a" "le32 (builtin_bswap32 x) = be32 x"
    by (simp_all add: builtin_bswap16_def builtin_bswap32_def le16_def le32_def be16_of_be16 be32_of_be32)
  have "be64 (of_be64 (rev (be64 y))) = rev (be64 y)" by (rule be64_of_be64) (simp add: be64_def)
  then show "rev (be64 (builtin_bswap64 y)) = be64 y" by (simp add: builtin_bswap64_def)
qed

lemma macros_twice:
  "bpf_ntohs_on bo b (bpf_htons_on bo b' a) = a"
  "bpf_ntohl_on bo b (bpf_htonl_on bo b' x) = x"
  "bpf_be64_to_cpu_on bo b (bpf_cpu_to_be64_on bo b' y) = y"
proof -
  show "bpf_ntohs_on bo b (bpf_htons_on bo b' a) = a"
    by (cases bo) (simp_all add: conversion_defs swab_eq_bswap byte_reversed_twice [OF bswap16_reverses bswap16_reverses])
  show "bpf_ntohl_on bo b (bpf_htonl_on bo b' x) = x"
    by (cases bo) (simp_all add: conversion_defs swab_eq_bswap builtin_bswap32_twice)
  show "bpf_be64_to_cpu_on bo b (bpf_cpu_to_be64_on bo b' y) = y"
    by (cases bo) (simp_all add: conversion_defs swab_eq_bswap byte_reversed_twice [OF bswap64_reverses bswap64_reverses])
qed

text \<open>
  On a target of either byte order, for constants and other values alike, what the macros
  to network order leave in memory is the number's big-endian bytes, and the macros from
  network order undo them.
\<close>

theorem network_order_on_any_target:
  "mem16 bo (bpf_htons_on bo b a) = be16 a \<and> mem32 bo (bpf_htonl_on bo b x) = be32 x \<and>
   mem64 bo (bpf_cpu_to_be64_on bo b y) = be64 y \<and>
   bpf_ntohs_on bo b' (bpf_htons_on bo b a) = a \<and> bpf_ntohl_on bo b' (bpf_htonl_on bo b x) = x \<and>
   bpf_be64_to_cpu_on bo b' (bpf_cpu_to_be64_on bo b y) = y"
  by (cases bo)
    (simp_all add: macros_twice, simp_all add: mem16_def mem32_def mem64_def conversion_defs swab_eq_bswap swapped_memory)

end
