(* ===== verification/Bpf_Helper_Defs.thy ===== *)
theory Bpf_Helper_Defs
  imports C_Layout
begin

text \<open>
  The helper functions of \<open>src/include/bpf/bpf_helper_defs.h\<close>: a helper is declared there
  as a constant function pointer whose value is the helper's number, which is what the
  compiled program's \<open>call\<close> instruction carries.  A declaration becomes a \<open>Proto\<close>: name,
  result type, parameter types, whether it ends in \<open>...\<close>, and number.  The tables follow the
  header in order, a few declarations (with their documentation) to a definition.
\<close>

section \<open>Declarations\<close>

datatype helper_proto =
  Proto (hp_name: string) (hp_ret: ctype) (hp_args: "ctype list") (hp_variadic: bool) (hp_id: nat)

definition helper_defs_001_007 :: "helper_proto list" where
  "helper_defs_001_007 = [
    Proto ''bpf_map_lookup_elem'' (Ptr Void) [Ptr Void, Ptr (Const Void)] False 1,
    Proto ''bpf_map_update_elem'' Long [Ptr Void, Ptr (Const Void), Ptr (Const Void), U64] False 2,
    Proto ''bpf_map_delete_elem'' Long [Ptr Void, Ptr (Const Void)] False 3,
    Proto ''bpf_probe_read'' Long [Ptr Void, U32, Ptr (Const Void)] False 4,
    Proto ''bpf_ktime_get_ns'' U64 [] False 5,
    Proto ''bpf_trace_printk'' Long [Ptr (Const Char), U32] True 6,
    Proto ''bpf_get_prandom_u32'' U32 [] False 7]"

definition helper_defs_008_012 :: "helper_proto list" where
  "helper_defs_008_012 = [
    Proto ''bpf_get_smp_processor_id'' U32 [] False 8,
    Proto ''bpf_skb_store_bytes'' Long [Ptr (Incomplete ''__sk_buff''), U32, Ptr (Const Void), U32, U64] False 9,
    Proto ''bpf_l3_csum_replace'' Long [Ptr (Incomplete ''__sk_buff''), U32, U64, U64, U64] False 10,
    Proto ''bpf_l4_csum_replace'' Long [Ptr (Incomplete ''__sk_buff''), U32, U64, U64, U64] False 11,
    Proto ''bpf_tail_call'' Long [Ptr Void, Ptr Void, U32] False 12]"

definition helper_defs_013_019 :: "helper_proto list" where
  "helper_defs_013_019 = [
    Proto ''bpf_clone_redirect'' Long [Ptr (Incomplete ''__sk_buff''), U32, U64] False 13,
    Proto ''bpf_get_current_pid_tgid'' U64 [] False 14,
    Proto ''bpf_get_current_uid_gid'' U64 [] False 15,
    Proto ''bpf_get_current_comm'' Long [Ptr Void, U32] False 16,
    Proto ''bpf_get_cgroup_classid'' U32 [Ptr (Incomplete ''__sk_buff'')] False 17,
    Proto ''bpf_skb_vlan_push'' Long [Ptr (Incomplete ''__sk_buff''), Named ''__be16'', U16] False 18,
    Proto ''bpf_skb_vlan_pop'' Long [Ptr (Incomplete ''__sk_buff'')] False 19]"

definition helper_defs_020_022 :: "helper_proto list" where
  "helper_defs_020_022 = [
    Proto ''bpf_skb_get_tunnel_key'' Long [Ptr (Incomplete ''__sk_buff''), Ptr (Incomplete ''bpf_tunnel_key''), U32, U64] False 20,
    Proto ''bpf_skb_set_tunnel_key'' Long [Ptr (Incomplete ''__sk_buff''), Ptr (Incomplete ''bpf_tunnel_key''), U32, U64] False 21,
    Proto ''bpf_perf_event_read'' U64 [Ptr Void, U64] False 22]"

definition helper_defs_023_026 :: "helper_proto list" where
  "helper_defs_023_026 = [
    Proto ''bpf_redirect'' Long [U32, U64] False 23,
    Proto ''bpf_get_route_realm'' U32 [Ptr (Incomplete ''__sk_buff'')] False 24,
    Proto ''bpf_perf_event_output'' Long [Ptr Void, Ptr Void, U64, Ptr Void, U64] False 25,
    Proto ''bpf_skb_load_bytes'' Long [Ptr (Const Void), U32, Ptr Void, U32] False 26]"

definition helper_defs_027_031 :: "helper_proto list" where
  "helper_defs_027_031 = [
    Proto ''bpf_get_stackid'' Long [Ptr Void, Ptr Void, U64] False 27,
    Proto ''bpf_csum_diff'' S64 [Ptr (Named ''__be32''), U32, Ptr (Named ''__be32''), U32, Named ''__wsum''] False 28,
    Proto ''bpf_skb_get_tunnel_opt'' Long [Ptr (Incomplete ''__sk_buff''), Ptr Void, U32] False 29,
    Proto ''bpf_skb_set_tunnel_opt'' Long [Ptr (Incomplete ''__sk_buff''), Ptr Void, U32] False 30,
    Proto ''bpf_skb_change_proto'' Long [Ptr (Incomplete ''__sk_buff''), Named ''__be16'', U64] False 31]"

definition helper_defs_032_038 :: "helper_proto list" where
  "helper_defs_032_038 = [
    Proto ''bpf_skb_change_type'' Long [Ptr (Incomplete ''__sk_buff''), U32] False 32,
    Proto ''bpf_skb_under_cgroup'' Long [Ptr (Incomplete ''__sk_buff''), Ptr Void, U32] False 33,
    Proto ''bpf_get_hash_recalc'' U32 [Ptr (Incomplete ''__sk_buff'')] False 34,
    Proto ''bpf_get_current_task'' U64 [] False 35,
    Proto ''bpf_probe_write_user'' Long [Ptr Void, Ptr (Const Void), U32] False 36,
    Proto ''bpf_current_task_under_cgroup'' Long [Ptr Void, U32] False 37,
    Proto ''bpf_skb_change_tail'' Long [Ptr (Incomplete ''__sk_buff''), U32, U64] False 38]"

definition helper_defs_039_045 :: "helper_proto list" where
  "helper_defs_039_045 = [
    Proto ''bpf_skb_pull_data'' Long [Ptr (Incomplete ''__sk_buff''), U32] False 39,
    Proto ''bpf_csum_update'' S64 [Ptr (Incomplete ''__sk_buff''), Named ''__wsum''] False 40,
    Proto ''bpf_set_hash_invalid'' Void [Ptr (Incomplete ''__sk_buff'')] False 41,
    Proto ''bpf_get_numa_node_id'' Long [] False 42,
    Proto ''bpf_skb_change_head'' Long [Ptr (Incomplete ''__sk_buff''), U32, U64] False 43,
    Proto ''bpf_xdp_adjust_head'' Long [Ptr (Incomplete ''xdp_md''), CInt] False 44,
    Proto ''bpf_probe_read_str'' Long [Ptr Void, U32, Ptr (Const Void)] False 45]"

definition helper_defs_046_050 :: "helper_proto list" where
  "helper_defs_046_050 = [
    Proto ''bpf_get_socket_cookie'' U64 [Ptr Void] False 46,
    Proto ''bpf_get_socket_uid'' U32 [Ptr (Incomplete ''__sk_buff'')] False 47,
    Proto ''bpf_set_hash'' Long [Ptr (Incomplete ''__sk_buff''), U32] False 48,
    Proto ''bpf_setsockopt'' Long [Ptr Void, CInt, CInt, Ptr Void, CInt] False 49,
    Proto ''bpf_skb_adjust_room'' Long [Ptr (Incomplete ''__sk_buff''), S32, U32, U64] False 50]"

definition helper_defs_051_054 :: "helper_proto list" where
  "helper_defs_051_054 = [
    Proto ''bpf_redirect_map'' Long [Ptr Void, U64, U64] False 51,
    Proto ''bpf_sk_redirect_map'' Long [Ptr (Incomplete ''__sk_buff''), Ptr Void, U32, U64] False 52,
    Proto ''bpf_sock_map_update'' Long [Ptr (Incomplete ''bpf_sock_ops''), Ptr Void, Ptr Void, U64] False 53,
    Proto ''bpf_xdp_adjust_meta'' Long [Ptr (Incomplete ''xdp_md''), CInt] False 54]"

definition helper_defs_055_058 :: "helper_proto list" where
  "helper_defs_055_058 = [
    Proto ''bpf_perf_event_read_value'' Long [Ptr Void, U64, Ptr (Incomplete ''bpf_perf_event_value''), U32] False 55,
    Proto ''bpf_perf_prog_read_value'' Long [Ptr (Incomplete ''bpf_perf_event_data''), Ptr (Incomplete ''bpf_perf_event_value''), U32] False 56,
    Proto ''bpf_getsockopt'' Long [Ptr Void, CInt, CInt, Ptr Void, CInt] False 57,
    Proto ''bpf_override_return'' Long [Ptr (Incomplete ''pt_regs''), U64] False 58]"

definition helper_defs_059_062 :: "helper_proto list" where
  "helper_defs_059_062 = [
    Proto ''bpf_sock_ops_cb_flags_set'' Long [Ptr (Incomplete ''bpf_sock_ops''), CInt] False 59,
    Proto ''bpf_msg_redirect_map'' Long [Ptr (Incomplete ''sk_msg_md''), Ptr Void, U32, U64] False 60,
    Proto ''bpf_msg_apply_bytes'' Long [Ptr (Incomplete ''sk_msg_md''), U32] False 61,
    Proto ''bpf_msg_cork_bytes'' Long [Ptr (Incomplete ''sk_msg_md''), U32] False 62]"

definition helper_defs_063_067 :: "helper_proto list" where
  "helper_defs_063_067 = [
    Proto ''bpf_msg_pull_data'' Long [Ptr (Incomplete ''sk_msg_md''), U32, U32, U64] False 63,
    Proto ''bpf_bind'' Long [Ptr (Incomplete ''bpf_sock_addr''), Ptr (Incomplete ''sockaddr''), CInt] False 64,
    Proto ''bpf_xdp_adjust_tail'' Long [Ptr (Incomplete ''xdp_md''), CInt] False 65,
    Proto ''bpf_skb_get_xfrm_state'' Long [Ptr (Incomplete ''__sk_buff''), U32, Ptr (Incomplete ''bpf_xfrm_state''), U32, U64] False 66,
    Proto ''bpf_get_stack'' Long [Ptr Void, Ptr Void, U32, U64] False 67]"

definition helper_defs_068_072 :: "helper_proto list" where
  "helper_defs_068_072 = [
    Proto ''bpf_skb_load_bytes_relative'' Long [Ptr (Const Void), U32, Ptr Void, U32, U32] False 68,
    Proto ''bpf_fib_lookup'' Long [Ptr Void, Ptr (Incomplete ''bpf_fib_lookup''), CInt, U32] False 69,
    Proto ''bpf_sock_hash_update'' Long [Ptr (Incomplete ''bpf_sock_ops''), Ptr Void, Ptr Void, U64] False 70,
    Proto ''bpf_msg_redirect_hash'' Long [Ptr (Incomplete ''sk_msg_md''), Ptr Void, Ptr Void, U64] False 71,
    Proto ''bpf_sk_redirect_hash'' Long [Ptr (Incomplete ''__sk_buff''), Ptr Void, Ptr Void, U64] False 72]"

definition helper_defs_073_077 :: "helper_proto list" where
  "helper_defs_073_077 = [
    Proto ''bpf_lwt_push_encap'' Long [Ptr (Incomplete ''__sk_buff''), U32, Ptr Void, U32] False 73,
    Proto ''bpf_lwt_seg6_store_bytes'' Long [Ptr (Incomplete ''__sk_buff''), U32, Ptr (Const Void), U32] False 74,
    Proto ''bpf_lwt_seg6_adjust_srh'' Long [Ptr (Incomplete ''__sk_buff''), U32, S32] False 75,
    Proto ''bpf_lwt_seg6_action'' Long [Ptr (Incomplete ''__sk_buff''), U32, Ptr Void, U32] False 76,
    Proto ''bpf_rc_repeat'' Long [Ptr Void] False 77]"

definition helper_defs_078_083 :: "helper_proto list" where
  "helper_defs_078_083 = [
    Proto ''bpf_rc_keydown'' Long [Ptr Void, U32, U64, U32] False 78,
    Proto ''bpf_skb_cgroup_id'' U64 [Ptr (Incomplete ''__sk_buff'')] False 79,
    Proto ''bpf_get_current_cgroup_id'' U64 [] False 80,
    Proto ''bpf_get_local_storage'' (Ptr Void) [Ptr Void, U64] False 81,
    Proto ''bpf_sk_select_reuseport'' Long [Ptr (Incomplete ''sk_reuseport_md''), Ptr Void, Ptr Void, U64] False 82,
    Proto ''bpf_skb_ancestor_cgroup_id'' U64 [Ptr (Incomplete ''__sk_buff''), CInt] False 83]"

definition helper_defs_084_090 :: "helper_proto list" where
  "helper_defs_084_090 = [
    Proto ''bpf_sk_lookup_tcp'' (Ptr (Incomplete ''bpf_sock'')) [Ptr Void, Ptr (Incomplete ''bpf_sock_tuple''), U32, U64, U64] False 84,
    Proto ''bpf_sk_lookup_udp'' (Ptr (Incomplete ''bpf_sock'')) [Ptr Void, Ptr (Incomplete ''bpf_sock_tuple''), U32, U64, U64] False 85,
    Proto ''bpf_sk_release'' Long [Ptr Void] False 86,
    Proto ''bpf_map_push_elem'' Long [Ptr Void, Ptr (Const Void), U64] False 87,
    Proto ''bpf_map_pop_elem'' Long [Ptr Void, Ptr Void] False 88,
    Proto ''bpf_map_peek_elem'' Long [Ptr Void, Ptr Void] False 89,
    Proto ''bpf_msg_push_data'' Long [Ptr (Incomplete ''sk_msg_md''), U32, U32, U64] False 90]"

definition helper_defs_091_098 :: "helper_proto list" where
  "helper_defs_091_098 = [
    Proto ''bpf_msg_pop_data'' Long [Ptr (Incomplete ''sk_msg_md''), U32, U32, U64] False 91,
    Proto ''bpf_rc_pointer_rel'' Long [Ptr Void, S32, S32] False 92,
    Proto ''bpf_spin_lock'' Long [Ptr (Incomplete ''bpf_spin_lock'')] False 93,
    Proto ''bpf_spin_unlock'' Long [Ptr (Incomplete ''bpf_spin_lock'')] False 94,
    Proto ''bpf_sk_fullsock'' (Ptr (Incomplete ''bpf_sock'')) [Ptr (Incomplete ''bpf_sock'')] False 95,
    Proto ''bpf_tcp_sock'' (Ptr (Incomplete ''bpf_tcp_sock'')) [Ptr (Incomplete ''bpf_sock'')] False 96,
    Proto ''bpf_skb_ecn_set_ce'' Long [Ptr (Incomplete ''__sk_buff'')] False 97,
    Proto ''bpf_get_listener_sock'' (Ptr (Incomplete ''bpf_sock'')) [Ptr (Incomplete ''bpf_sock'')] False 98]"

definition helper_defs_099_104 :: "helper_proto list" where
  "helper_defs_099_104 = [
    Proto ''bpf_skc_lookup_tcp'' (Ptr (Incomplete ''bpf_sock'')) [Ptr Void, Ptr (Incomplete ''bpf_sock_tuple''), U32, U64, U64] False 99,
    Proto ''bpf_tcp_check_syncookie'' Long [Ptr Void, Ptr Void, U32, Ptr (Incomplete ''tcphdr''), U32] False 100,
    Proto ''bpf_sysctl_get_name'' Long [Ptr (Incomplete ''bpf_sysctl''), Ptr Char, ULong, U64] False 101,
    Proto ''bpf_sysctl_get_current_value'' Long [Ptr (Incomplete ''bpf_sysctl''), Ptr Char, ULong] False 102,
    Proto ''bpf_sysctl_get_new_value'' Long [Ptr (Incomplete ''bpf_sysctl''), Ptr Char, ULong] False 103,
    Proto ''bpf_sysctl_set_new_value'' Long [Ptr (Incomplete ''bpf_sysctl''), Ptr (Const Char), ULong] False 104]"

definition helper_defs_105_109 :: "helper_proto list" where
  "helper_defs_105_109 = [
    Proto ''bpf_strtol'' Long [Ptr (Const Char), ULong, U64, Ptr Long] False 105,
    Proto ''bpf_strtoul'' Long [Ptr (Const Char), ULong, U64, Ptr ULong] False 106,
    Proto ''bpf_sk_storage_get'' (Ptr Void) [Ptr Void, Ptr Void, Ptr Void, U64] False 107,
    Proto ''bpf_sk_storage_delete'' Long [Ptr Void, Ptr Void] False 108,
    Proto ''bpf_send_signal'' Long [U32] False 109]"

definition helper_defs_110_115 :: "helper_proto list" where
  "helper_defs_110_115 = [
    Proto ''bpf_tcp_gen_syncookie'' S64 [Ptr Void, Ptr Void, U32, Ptr (Incomplete ''tcphdr''), U32] False 110,
    Proto ''bpf_skb_output'' Long [Ptr Void, Ptr Void, U64, Ptr Void, U64] False 111,
    Proto ''bpf_probe_read_user'' Long [Ptr Void, U32, Ptr (Const Void)] False 112,
    Proto ''bpf_probe_read_kernel'' Long [Ptr Void, U32, Ptr (Const Void)] False 113,
    Proto ''bpf_probe_read_user_str'' Long [Ptr Void, U32, Ptr (Const Void)] False 114,
    Proto ''bpf_probe_read_kernel_str'' Long [Ptr Void, U32, Ptr (Const Void)] False 115]"

definition helper_defs_116_123 :: "helper_proto list" where
  "helper_defs_116_123 = [
    Proto ''bpf_tcp_send_ack'' Long [Ptr Void, U32] False 116,
    Proto ''bpf_send_signal_thread'' Long [U32] False 117,
    Proto ''bpf_jiffies64'' U64 [] False 118,
    Proto ''bpf_read_branch_records'' Long [Ptr (Incomplete ''bpf_perf_event_data''), Ptr Void, U32, U64] False 119,
    Proto ''bpf_get_ns_current_pid_tgid'' Long [U64, U64, Ptr (Incomplete ''bpf_pidns_info''), U32] False 120,
    Proto ''bpf_xdp_output'' Long [Ptr Void, Ptr Void, U64, Ptr Void, U64] False 121,
    Proto ''bpf_get_netns_cookie'' U64 [Ptr Void] False 122,
    Proto ''bpf_get_current_ancestor_cgroup_id'' U64 [CInt] False 123]"

definition helper_defs_124_129 :: "helper_proto list" where
  "helper_defs_124_129 = [
    Proto ''bpf_sk_assign'' Long [Ptr Void, Ptr Void, U64] False 124,
    Proto ''bpf_ktime_get_boot_ns'' U64 [] False 125,
    Proto ''bpf_seq_printf'' Long [Ptr (Incomplete ''seq_file''), Ptr (Const Char), U32, Ptr (Const Void), U32] False 126,
    Proto ''bpf_seq_write'' Long [Ptr (Incomplete ''seq_file''), Ptr (Const Void), U32] False 127,
    Proto ''bpf_sk_cgroup_id'' U64 [Ptr Void] False 128,
    Proto ''bpf_sk_ancestor_cgroup_id'' U64 [Ptr Void, CInt] False 129]"

definition helper_defs_130_137 :: "helper_proto list" where
  "helper_defs_130_137 = [
    Proto ''bpf_ringbuf_output'' Long [Ptr Void, Ptr Void, U64, U64] False 130,
    Proto ''bpf_ringbuf_reserve'' (Ptr Void) [Ptr Void, U64, U64] False 131,
    Proto ''bpf_ringbuf_submit'' Void [Ptr Void, U64] False 132,
    Proto ''bpf_ringbuf_discard'' Void [Ptr Void, U64] False 133,
    Proto ''bpf_ringbuf_query'' U64 [Ptr Void, U64] False 134,
    Proto ''bpf_csum_level'' Long [Ptr (Incomplete ''__sk_buff''), U64] False 135,
    Proto ''bpf_skc_to_tcp6_sock'' (Ptr (Incomplete ''tcp6_sock'')) [Ptr Void] False 136,
    Proto ''bpf_skc_to_tcp_sock'' (Ptr (Incomplete ''tcp_sock'')) [Ptr Void] False 137]"

definition helper_defs_138_142 :: "helper_proto list" where
  "helper_defs_138_142 = [
    Proto ''bpf_skc_to_tcp_timewait_sock'' (Ptr (Incomplete ''tcp_timewait_sock'')) [Ptr Void] False 138,
    Proto ''bpf_skc_to_tcp_request_sock'' (Ptr (Incomplete ''tcp_request_sock'')) [Ptr Void] False 139,
    Proto ''bpf_skc_to_udp6_sock'' (Ptr (Incomplete ''udp6_sock'')) [Ptr Void] False 140,
    Proto ''bpf_get_task_stack'' Long [Ptr (Incomplete ''task_struct''), Ptr Void, U32, U64] False 141,
    Proto ''bpf_load_hdr_opt'' Long [Ptr (Incomplete ''bpf_sock_ops''), Ptr Void, U32, U64] False 142]"

definition helper_defs_143_148 :: "helper_proto list" where
  "helper_defs_143_148 = [
    Proto ''bpf_store_hdr_opt'' Long [Ptr (Incomplete ''bpf_sock_ops''), Ptr (Const Void), U32, U64] False 143,
    Proto ''bpf_reserve_hdr_opt'' Long [Ptr (Incomplete ''bpf_sock_ops''), U32, U64] False 144,
    Proto ''bpf_inode_storage_get'' (Ptr Void) [Ptr Void, Ptr Void, Ptr Void, U64] False 145,
    Proto ''bpf_inode_storage_delete'' CInt [Ptr Void, Ptr Void] False 146,
    Proto ''bpf_d_path'' Long [Ptr (Incomplete ''path''), Ptr Char, U32] False 147,
    Proto ''bpf_copy_from_user'' Long [Ptr Void, U32, Ptr (Const Void)] False 148]"

definition helper_defs_149_155 :: "helper_proto list" where
  "helper_defs_149_155 = [
    Proto ''bpf_snprintf_btf'' Long [Ptr Char, U32, Ptr (Incomplete ''btf_ptr''), U32, U64] False 149,
    Proto ''bpf_seq_printf_btf'' Long [Ptr (Incomplete ''seq_file''), Ptr (Incomplete ''btf_ptr''), U32, U64] False 150,
    Proto ''bpf_skb_cgroup_classid'' U64 [Ptr (Incomplete ''__sk_buff'')] False 151,
    Proto ''bpf_redirect_neigh'' Long [U32, Ptr (Incomplete ''bpf_redir_neigh''), CInt, U64] False 152,
    Proto ''bpf_per_cpu_ptr'' (Ptr Void) [Ptr (Const Void), U32] False 153,
    Proto ''bpf_this_cpu_ptr'' (Ptr Void) [Ptr (Const Void)] False 154,
    Proto ''bpf_redirect_peer'' Long [U32, U64] False 155]"

definition helper_defs_156_162 :: "helper_proto list" where
  "helper_defs_156_162 = [
    Proto ''bpf_task_storage_get'' (Ptr Void) [Ptr Void, Ptr (Incomplete ''task_struct''), Ptr Void, U64] False 156,
    Proto ''bpf_task_storage_delete'' Long [Ptr Void, Ptr (Incomplete ''task_struct'')] False 157,
    Proto ''bpf_get_current_task_btf'' (Ptr (Incomplete ''task_struct'')) [] False 158,
    Proto ''bpf_bprm_opts_set'' Long [Ptr (Incomplete ''linux_binprm''), U64] False 159,
    Proto ''bpf_ktime_get_coarse_ns'' U64 [] False 160,
    Proto ''bpf_ima_inode_hash'' Long [Ptr (Incomplete ''inode''), Ptr Void, U32] False 161,
    Proto ''bpf_sock_from_file'' (Ptr (Incomplete ''socket'')) [Ptr (Incomplete ''file'')] False 162]"

definition helper_defs_163_166 :: "helper_proto list" where
  "helper_defs_163_166 = [
    Proto ''bpf_check_mtu'' Long [Ptr Void, U32, Ptr U32, S32, U64] False 163,
    Proto ''bpf_for_each_map_elem'' Long [Ptr Void, Ptr Void, Ptr Void, U64] False 164,
    Proto ''bpf_snprintf'' Long [Ptr Char, U32, Ptr (Const Char), Ptr U64, U32] False 165,
    Proto ''bpf_sys_bpf'' Long [U32, Ptr Void, U32] False 166]"

definition helper_defs_167_174 :: "helper_proto list" where
  "helper_defs_167_174 = [
    Proto ''bpf_btf_find_by_name_kind'' Long [Ptr Char, CInt, U32, CInt] False 167,
    Proto ''bpf_sys_close'' Long [U32] False 168,
    Proto ''bpf_timer_init'' Long [Ptr (Incomplete ''bpf_timer''), Ptr Void, U64] False 169,
    Proto ''bpf_timer_set_callback'' Long [Ptr (Incomplete ''bpf_timer''), Ptr Void] False 170,
    Proto ''bpf_timer_start'' Long [Ptr (Incomplete ''bpf_timer''), U64, U64] False 171,
    Proto ''bpf_timer_cancel'' Long [Ptr (Incomplete ''bpf_timer'')] False 172,
    Proto ''bpf_get_func_ip'' U64 [Ptr Void] False 173,
    Proto ''bpf_get_attach_cookie'' U64 [Ptr Void] False 174]"

definition helper_defs_175_182 :: "helper_proto list" where
  "helper_defs_175_182 = [
    Proto ''bpf_task_pt_regs'' Long [Ptr (Incomplete ''task_struct'')] False 175,
    Proto ''bpf_get_branch_snapshot'' Long [Ptr Void, U32, U64] False 176,
    Proto ''bpf_trace_vprintk'' Long [Ptr (Const Char), U32, Ptr (Const Void), U32] False 177,
    Proto ''bpf_skc_to_unix_sock'' (Ptr (Incomplete ''unix_sock'')) [Ptr Void] False 178,
    Proto ''bpf_kallsyms_lookup_name'' Long [Ptr (Const Char), CInt, CInt, Ptr U64] False 179,
    Proto ''bpf_find_vma'' Long [Ptr (Incomplete ''task_struct''), U64, Ptr Void, Ptr Void, U64] False 180,
    Proto ''bpf_loop'' Long [U32, Ptr Void, Ptr Void, U64] False 181,
    Proto ''bpf_strncmp'' Long [Ptr (Const Char), U32, Ptr (Const Char)] False 182]"

definition helper_defs_183_191 :: "helper_proto list" where
  "helper_defs_183_191 = [
    Proto ''bpf_get_func_arg'' Long [Ptr Void, U32, Ptr U64] False 183,
    Proto ''bpf_get_func_ret'' Long [Ptr Void, Ptr U64] False 184,
    Proto ''bpf_get_func_arg_cnt'' Long [Ptr Void] False 185,
    Proto ''bpf_get_retval'' CInt [] False 186,
    Proto ''bpf_set_retval'' CInt [CInt] False 187,
    Proto ''bpf_xdp_get_buff_len'' U64 [Ptr (Incomplete ''xdp_md'')] False 188,
    Proto ''bpf_xdp_load_bytes'' Long [Ptr (Incomplete ''xdp_md''), U32, Ptr Void, U32] False 189,
    Proto ''bpf_xdp_store_bytes'' Long [Ptr (Incomplete ''xdp_md''), U32, Ptr Void, U32] False 190,
    Proto ''bpf_copy_from_user_task'' Long [Ptr Void, U32, Ptr (Const Void), Ptr (Incomplete ''task_struct''), U64] False 191]"

definition helper_defs_192_200 :: "helper_proto list" where
  "helper_defs_192_200 = [
    Proto ''bpf_skb_set_tstamp'' Long [Ptr (Incomplete ''__sk_buff''), U64, U32] False 192,
    Proto ''bpf_ima_file_hash'' Long [Ptr (Incomplete ''file''), Ptr Void, U32] False 193,
    Proto ''bpf_kptr_xchg'' (Ptr Void) [Ptr Void, Ptr Void] False 194,
    Proto ''bpf_map_lookup_percpu_elem'' (Ptr Void) [Ptr Void, Ptr (Const Void), U32] False 195,
    Proto ''bpf_skc_to_mptcp_sock'' (Ptr (Incomplete ''mptcp_sock'')) [Ptr Void] False 196,
    Proto ''bpf_dynptr_from_mem'' Long [Ptr Void, U32, U64, Ptr (Incomplete ''bpf_dynptr'')] False 197,
    Proto ''bpf_ringbuf_reserve_dynptr'' Long [Ptr Void, U32, U64, Ptr (Incomplete ''bpf_dynptr'')] False 198,
    Proto ''bpf_ringbuf_submit_dynptr'' Void [Ptr (Incomplete ''bpf_dynptr''), U64] False 199,
    Proto ''bpf_ringbuf_discard_dynptr'' Void [Ptr (Incomplete ''bpf_dynptr''), U64] False 200]"

definition helper_defs_201_207 :: "helper_proto list" where
  "helper_defs_201_207 = [
    Proto ''bpf_dynptr_read'' Long [Ptr Void, U32, Ptr (Const (Incomplete ''bpf_dynptr'')), U32, U64] False 201,
    Proto ''bpf_dynptr_write'' Long [Ptr (Const (Incomplete ''bpf_dynptr'')), U32, Ptr Void, U32, U64] False 202,
    Proto ''bpf_dynptr_data'' (Ptr Void) [Ptr (Const (Incomplete ''bpf_dynptr'')), U32, U32] False 203,
    Proto ''bpf_tcp_raw_gen_syncookie_ipv4'' S64 [Ptr (Incomplete ''iphdr''), Ptr (Incomplete ''tcphdr''), U32] False 204,
    Proto ''bpf_tcp_raw_gen_syncookie_ipv6'' S64 [Ptr (Incomplete ''ipv6hdr''), Ptr (Incomplete ''tcphdr''), U32] False 205,
    Proto ''bpf_tcp_raw_check_syncookie_ipv4'' Long [Ptr (Incomplete ''iphdr''), Ptr (Incomplete ''tcphdr'')] False 206,
    Proto ''bpf_tcp_raw_check_syncookie_ipv6'' Long [Ptr (Incomplete ''ipv6hdr''), Ptr (Incomplete ''tcphdr'')] False 207]"

definition helper_defs_208_211 :: "helper_proto list" where
  "helper_defs_208_211 = [
    Proto ''bpf_ktime_get_tai_ns'' U64 [] False 208,
    Proto ''bpf_user_ringbuf_drain'' Long [Ptr Void, Ptr Void, Ptr Void, U64] False 209,
    Proto ''bpf_cgrp_storage_get'' (Ptr Void) [Ptr Void, Ptr (Incomplete ''cgroup''), Ptr Void, U64] False 210,
    Proto ''bpf_cgrp_storage_delete'' Long [Ptr Void, Ptr (Incomplete ''cgroup'')] False 211]"

section \<open>The whole table\<close>

definition helper_protos :: "helper_proto list" where
  "helper_protos = concat [
    helper_defs_001_007,
    helper_defs_008_012,
    helper_defs_013_019,
    helper_defs_020_022,
    helper_defs_023_026,
    helper_defs_027_031,
    helper_defs_032_038,
    helper_defs_039_045,
    helper_defs_046_050,
    helper_defs_051_054,
    helper_defs_055_058,
    helper_defs_059_062,
    helper_defs_063_067,
    helper_defs_068_072,
    helper_defs_073_077,
    helper_defs_078_083,
    helper_defs_084_090,
    helper_defs_091_098,
    helper_defs_099_104,
    helper_defs_105_109,
    helper_defs_110_115,
    helper_defs_116_123,
    helper_defs_124_129,
    helper_defs_130_137,
    helper_defs_138_142,
    helper_defs_143_148,
    helper_defs_149_155,
    helper_defs_156_162,
    helper_defs_163_166,
    helper_defs_167_174,
    helper_defs_175_182,
    helper_defs_183_191,
    helper_defs_192_200,
    helper_defs_201_207,
    helper_defs_208_211]"

lemmas helper_defs =
  helper_defs_001_007_def
  helper_defs_008_012_def
  helper_defs_013_019_def
  helper_defs_020_022_def
  helper_defs_023_026_def
  helper_defs_027_031_def
  helper_defs_032_038_def
  helper_defs_039_045_def
  helper_defs_046_050_def
  helper_defs_051_054_def
  helper_defs_055_058_def
  helper_defs_059_062_def
  helper_defs_063_067_def
  helper_defs_068_072_def
  helper_defs_073_077_def
  helper_defs_078_083_def
  helper_defs_084_090_def
  helper_defs_091_098_def
  helper_defs_099_104_def
  helper_defs_105_109_def
  helper_defs_110_115_def
  helper_defs_116_123_def
  helper_defs_124_129_def
  helper_defs_130_137_def
  helper_defs_138_142_def
  helper_defs_143_148_def
  helper_defs_149_155_def
  helper_defs_156_162_def
  helper_defs_163_166_def
  helper_defs_167_174_def
  helper_defs_175_182_def
  helper_defs_183_191_def
  helper_defs_192_200_def
  helper_defs_201_207_def
  helper_defs_208_211_def

section \<open>Facts about the table\<close>

text \<open>
  The helper table is a bijection with the numbers 1 to 211: the declarations come in the
  order of their numbers, no number is skipped or used twice, and no helper takes more than the five arguments the BPF calling convention passes in
  registers.
\<close>

theorem helper_numbers_dense:
  "map hp_id helper_protos = [1..<212] \<and>
   list_all (\<lambda>p. length (hp_args p) \<le> 5) helper_protos"
proof (intro conjI)
  show "map hp_id helper_protos = [1..<212]" by code_simp
  show "list_all (\<lambda>p. length (hp_args p) \<le> 5) helper_protos" by code_simp
qed

end
