(* ===== verification/Vmlinux_Abi.thy ===== *)
theory Vmlinux_Abi
  imports Bpf_Helper_Defs
begin

text \<open>
  The part of the kernel headers \<open>src/vmlinux/x86.h\<close> and \<open>src/vmlinux/arm.h\<close> that
  \<open>sockops.bpf.c\<close> and \<open>maps.h\<close> name: helper numbers, map types, the sock_ops callbacks and
  their flags, the update and perf-output flags, and the program's context
  \<open>struct bpf_sock_ops\<close>.  The source is compiled once against each header, so both are
  translated, and the two compilations are compared.
\<close>

section \<open>Declarations of both headers\<close>

definition x86_bpf_func_id_1 :: "(string \<times> nat) list" where
  "x86_bpf_func_id_1 = [
    (''BPF_FUNC_unspec'', 0),
    (''BPF_FUNC_map_lookup_elem'', 1),
    (''BPF_FUNC_map_update_elem'', 2),
    (''BPF_FUNC_map_delete_elem'', 3),
    (''BPF_FUNC_probe_read'', 4),
    (''BPF_FUNC_ktime_get_ns'', 5),
    (''BPF_FUNC_trace_printk'', 6),
    (''BPF_FUNC_get_prandom_u32'', 7),
    (''BPF_FUNC_get_smp_processor_id'', 8),
    (''BPF_FUNC_skb_store_bytes'', 9),
    (''BPF_FUNC_l3_csum_replace'', 10),
    (''BPF_FUNC_l4_csum_replace'', 11),
    (''BPF_FUNC_tail_call'', 12),
    (''BPF_FUNC_clone_redirect'', 13),
    (''BPF_FUNC_get_current_pid_tgid'', 14),
    (''BPF_FUNC_get_current_uid_gid'', 15),
    (''BPF_FUNC_get_current_comm'', 16),
    (''BPF_FUNC_get_cgroup_classid'', 17),
    (''BPF_FUNC_skb_vlan_push'', 18),
    (''BPF_FUNC_skb_vlan_pop'', 19),
    (''BPF_FUNC_skb_get_tunnel_key'', 20),
    (''BPF_FUNC_skb_set_tunnel_key'', 21),
    (''BPF_FUNC_perf_event_read'', 22),
    (''BPF_FUNC_redirect'', 23),
    (''BPF_FUNC_get_route_realm'', 24),
    (''BPF_FUNC_perf_event_output'', 25),
    (''BPF_FUNC_skb_load_bytes'', 26),
    (''BPF_FUNC_get_stackid'', 27),
    (''BPF_FUNC_csum_diff'', 28),
    (''BPF_FUNC_skb_get_tunnel_opt'', 29),
    (''BPF_FUNC_skb_set_tunnel_opt'', 30),
    (''BPF_FUNC_skb_change_proto'', 31),
    (''BPF_FUNC_skb_change_type'', 32),
    (''BPF_FUNC_skb_under_cgroup'', 33),
    (''BPF_FUNC_get_hash_recalc'', 34),
    (''BPF_FUNC_get_current_task'', 35),
    (''BPF_FUNC_probe_write_user'', 36),
    (''BPF_FUNC_current_task_under_cgroup'', 37),
    (''BPF_FUNC_skb_change_tail'', 38),
    (''BPF_FUNC_skb_pull_data'', 39),
    (''BPF_FUNC_csum_update'', 40),
    (''BPF_FUNC_set_hash_invalid'', 41),
    (''BPF_FUNC_get_numa_node_id'', 42),
    (''BPF_FUNC_skb_change_head'', 43),
    (''BPF_FUNC_xdp_adjust_head'', 44),
    (''BPF_FUNC_probe_read_str'', 45),
    (''BPF_FUNC_get_socket_cookie'', 46),
    (''BPF_FUNC_get_socket_uid'', 47),
    (''BPF_FUNC_set_hash'', 48),
    (''BPF_FUNC_setsockopt'', 49),
    (''BPF_FUNC_skb_adjust_room'', 50),
    (''BPF_FUNC_redirect_map'', 51),
    (''BPF_FUNC_sk_redirect_map'', 52),
    (''BPF_FUNC_sock_map_update'', 53),
    (''BPF_FUNC_xdp_adjust_meta'', 54),
    (''BPF_FUNC_perf_event_read_value'', 55),
    (''BPF_FUNC_perf_prog_read_value'', 56),
    (''BPF_FUNC_getsockopt'', 57),
    (''BPF_FUNC_override_return'', 58),
    (''BPF_FUNC_sock_ops_cb_flags_set'', 59),
    (''BPF_FUNC_msg_redirect_map'', 60),
    (''BPF_FUNC_msg_apply_bytes'', 61),
    (''BPF_FUNC_msg_cork_bytes'', 62),
    (''BPF_FUNC_msg_pull_data'', 63),
    (''BPF_FUNC_bind'', 64),
    (''BPF_FUNC_xdp_adjust_tail'', 65),
    (''BPF_FUNC_skb_get_xfrm_state'', 66),
    (''BPF_FUNC_get_stack'', 67),
    (''BPF_FUNC_skb_load_bytes_relative'', 68),
    (''BPF_FUNC_fib_lookup'', 69),
    (''BPF_FUNC_sock_hash_update'', 70),
    (''BPF_FUNC_msg_redirect_hash'', 71),
    (''BPF_FUNC_sk_redirect_hash'', 72),
    (''BPF_FUNC_lwt_push_encap'', 73),
    (''BPF_FUNC_lwt_seg6_store_bytes'', 74),
    (''BPF_FUNC_lwt_seg6_adjust_srh'', 75),
    (''BPF_FUNC_lwt_seg6_action'', 76),
    (''BPF_FUNC_rc_repeat'', 77),
    (''BPF_FUNC_rc_keydown'', 78),
    (''BPF_FUNC_skb_cgroup_id'', 79),
    (''BPF_FUNC_get_current_cgroup_id'', 80),
    (''BPF_FUNC_get_local_storage'', 81),
    (''BPF_FUNC_sk_select_reuseport'', 82),
    (''BPF_FUNC_skb_ancestor_cgroup_id'', 83),
    (''BPF_FUNC_sk_lookup_tcp'', 84),
    (''BPF_FUNC_sk_lookup_udp'', 85),
    (''BPF_FUNC_sk_release'', 86),
    (''BPF_FUNC_map_push_elem'', 87),
    (''BPF_FUNC_map_pop_elem'', 88),
    (''BPF_FUNC_map_peek_elem'', 89),
    (''BPF_FUNC_msg_push_data'', 90),
    (''BPF_FUNC_msg_pop_data'', 91),
    (''BPF_FUNC_rc_pointer_rel'', 92),
    (''BPF_FUNC_spin_lock'', 93),
    (''BPF_FUNC_spin_unlock'', 94),
    (''BPF_FUNC_sk_fullsock'', 95),
    (''BPF_FUNC_tcp_sock'', 96),
    (''BPF_FUNC_skb_ecn_set_ce'', 97),
    (''BPF_FUNC_get_listener_sock'', 98),
    (''BPF_FUNC_skc_lookup_tcp'', 99),
    (''BPF_FUNC_tcp_check_syncookie'', 100),
    (''BPF_FUNC_sysctl_get_name'', 101),
    (''BPF_FUNC_sysctl_get_current_value'', 102),
    (''BPF_FUNC_sysctl_get_new_value'', 103),
    (''BPF_FUNC_sysctl_set_new_value'', 104),
    (''BPF_FUNC_strtol'', 105),
    (''BPF_FUNC_strtoul'', 106),
    (''BPF_FUNC_sk_storage_get'', 107),
    (''BPF_FUNC_sk_storage_delete'', 108),
    (''BPF_FUNC_send_signal'', 109),
    (''BPF_FUNC_tcp_gen_syncookie'', 110),
    (''BPF_FUNC_skb_output'', 111),
    (''BPF_FUNC_probe_read_user'', 112),
    (''BPF_FUNC_probe_read_kernel'', 113),
    (''BPF_FUNC_probe_read_user_str'', 114),
    (''BPF_FUNC_probe_read_kernel_str'', 115),
    (''BPF_FUNC_tcp_send_ack'', 116),
    (''BPF_FUNC_send_signal_thread'', 117),
    (''BPF_FUNC_jiffies64'', 118),
    (''BPF_FUNC_read_branch_records'', 119),
    (''BPF_FUNC_get_ns_current_pid_tgid'', 120),
    (''BPF_FUNC_xdp_output'', 121),
    (''BPF_FUNC_get_netns_cookie'', 122),
    (''BPF_FUNC_get_current_ancestor_cgroup_id'', 123),
    (''BPF_FUNC_sk_assign'', 124),
    (''BPF_FUNC_ktime_get_boot_ns'', 125),
    (''BPF_FUNC_seq_printf'', 126),
    (''BPF_FUNC_seq_write'', 127),
    (''BPF_FUNC_sk_cgroup_id'', 128),
    (''BPF_FUNC_sk_ancestor_cgroup_id'', 129),
    (''BPF_FUNC_ringbuf_output'', 130),
    (''BPF_FUNC_ringbuf_reserve'', 131),
    (''BPF_FUNC_ringbuf_submit'', 132),
    (''BPF_FUNC_ringbuf_discard'', 133),
    (''BPF_FUNC_ringbuf_query'', 134),
    (''BPF_FUNC_csum_level'', 135),
    (''BPF_FUNC_skc_to_tcp6_sock'', 136),
    (''BPF_FUNC_skc_to_tcp_sock'', 137),
    (''BPF_FUNC_skc_to_tcp_timewait_sock'', 138),
    (''BPF_FUNC_skc_to_tcp_request_sock'', 139),
    (''BPF_FUNC_skc_to_udp6_sock'', 140),
    (''BPF_FUNC_get_task_stack'', 141),
    (''BPF_FUNC_load_hdr_opt'', 142),
    (''BPF_FUNC_store_hdr_opt'', 143),
    (''BPF_FUNC_reserve_hdr_opt'', 144)]"

definition x86_bpf_func_id_2 :: "(string \<times> nat) list" where
  "x86_bpf_func_id_2 = [
    (''BPF_FUNC_inode_storage_get'', 145),
    (''BPF_FUNC_inode_storage_delete'', 146),
    (''BPF_FUNC_d_path'', 147),
    (''BPF_FUNC_copy_from_user'', 148),
    (''BPF_FUNC_snprintf_btf'', 149),
    (''BPF_FUNC_seq_printf_btf'', 150),
    (''BPF_FUNC_skb_cgroup_classid'', 151),
    (''BPF_FUNC_redirect_neigh'', 152),
    (''BPF_FUNC_per_cpu_ptr'', 153),
    (''BPF_FUNC_this_cpu_ptr'', 154),
    (''BPF_FUNC_redirect_peer'', 155),
    (''BPF_FUNC_task_storage_get'', 156),
    (''BPF_FUNC_task_storage_delete'', 157),
    (''BPF_FUNC_get_current_task_btf'', 158),
    (''BPF_FUNC_bprm_opts_set'', 159),
    (''BPF_FUNC_ktime_get_coarse_ns'', 160),
    (''BPF_FUNC_ima_inode_hash'', 161),
    (''BPF_FUNC_sock_from_file'', 162),
    (''BPF_FUNC_check_mtu'', 163),
    (''BPF_FUNC_for_each_map_elem'', 164),
    (''BPF_FUNC_snprintf'', 165),
    (''BPF_FUNC_sys_bpf'', 166),
    (''BPF_FUNC_btf_find_by_name_kind'', 167),
    (''BPF_FUNC_sys_close'', 168),
    (''BPF_FUNC_timer_init'', 169),
    (''BPF_FUNC_timer_set_callback'', 170),
    (''BPF_FUNC_timer_start'', 171),
    (''BPF_FUNC_timer_cancel'', 172),
    (''BPF_FUNC_get_func_ip'', 173),
    (''BPF_FUNC_get_attach_cookie'', 174),
    (''BPF_FUNC_task_pt_regs'', 175),
    (''__BPF_FUNC_MAX_ID'', 176)]"

definition x86_bpf_func_id :: "(string \<times> nat) list" where
  "x86_bpf_func_id = x86_bpf_func_id_1 @ x86_bpf_func_id_2"

definition x86_bpf_map_type :: "(string \<times> nat) list" where
  "x86_bpf_map_type = [
    (''BPF_MAP_TYPE_UNSPEC'', 0),
    (''BPF_MAP_TYPE_HASH'', 1),
    (''BPF_MAP_TYPE_ARRAY'', 2),
    (''BPF_MAP_TYPE_PROG_ARRAY'', 3),
    (''BPF_MAP_TYPE_PERF_EVENT_ARRAY'', 4),
    (''BPF_MAP_TYPE_PERCPU_HASH'', 5),
    (''BPF_MAP_TYPE_PERCPU_ARRAY'', 6),
    (''BPF_MAP_TYPE_STACK_TRACE'', 7),
    (''BPF_MAP_TYPE_CGROUP_ARRAY'', 8),
    (''BPF_MAP_TYPE_LRU_HASH'', 9),
    (''BPF_MAP_TYPE_LRU_PERCPU_HASH'', 10),
    (''BPF_MAP_TYPE_LPM_TRIE'', 11),
    (''BPF_MAP_TYPE_ARRAY_OF_MAPS'', 12),
    (''BPF_MAP_TYPE_HASH_OF_MAPS'', 13),
    (''BPF_MAP_TYPE_DEVMAP'', 14),
    (''BPF_MAP_TYPE_SOCKMAP'', 15),
    (''BPF_MAP_TYPE_CPUMAP'', 16),
    (''BPF_MAP_TYPE_XSKMAP'', 17),
    (''BPF_MAP_TYPE_SOCKHASH'', 18),
    (''BPF_MAP_TYPE_CGROUP_STORAGE'', 19),
    (''BPF_MAP_TYPE_REUSEPORT_SOCKARRAY'', 20),
    (''BPF_MAP_TYPE_PERCPU_CGROUP_STORAGE'', 21),
    (''BPF_MAP_TYPE_QUEUE'', 22),
    (''BPF_MAP_TYPE_STACK'', 23),
    (''BPF_MAP_TYPE_SK_STORAGE'', 24),
    (''BPF_MAP_TYPE_DEVMAP_HASH'', 25),
    (''BPF_MAP_TYPE_STRUCT_OPS'', 26),
    (''BPF_MAP_TYPE_RINGBUF'', 27),
    (''BPF_MAP_TYPE_INODE_STORAGE'', 28),
    (''BPF_MAP_TYPE_TASK_STORAGE'', 29)]"

definition x86_sock_ops_cb_flags :: "(string \<times> nat) list" where
  "x86_sock_ops_cb_flags = [
    (''BPF_SOCK_OPS_RTO_CB_FLAG'', 1),
    (''BPF_SOCK_OPS_RETRANS_CB_FLAG'', 2),
    (''BPF_SOCK_OPS_STATE_CB_FLAG'', 4),
    (''BPF_SOCK_OPS_RTT_CB_FLAG'', 8),
    (''BPF_SOCK_OPS_PARSE_ALL_HDR_OPT_CB_FLAG'', 16),
    (''BPF_SOCK_OPS_PARSE_UNKNOWN_HDR_OPT_CB_FLAG'', 32),
    (''BPF_SOCK_OPS_WRITE_HDR_OPT_CB_FLAG'', 64),
    (''BPF_SOCK_OPS_ALL_CB_FLAGS'', 127)]"

definition x86_sock_ops_ops :: "(string \<times> nat) list" where
  "x86_sock_ops_ops = [
    (''BPF_SOCK_OPS_VOID'', 0),
    (''BPF_SOCK_OPS_TIMEOUT_INIT'', 1),
    (''BPF_SOCK_OPS_RWND_INIT'', 2),
    (''BPF_SOCK_OPS_TCP_CONNECT_CB'', 3),
    (''BPF_SOCK_OPS_ACTIVE_ESTABLISHED_CB'', 4),
    (''BPF_SOCK_OPS_PASSIVE_ESTABLISHED_CB'', 5),
    (''BPF_SOCK_OPS_NEEDS_ECN'', 6),
    (''BPF_SOCK_OPS_BASE_RTT'', 7),
    (''BPF_SOCK_OPS_RTO_CB'', 8),
    (''BPF_SOCK_OPS_RETRANS_CB'', 9),
    (''BPF_SOCK_OPS_STATE_CB'', 10),
    (''BPF_SOCK_OPS_TCP_LISTEN_CB'', 11),
    (''BPF_SOCK_OPS_RTT_CB'', 12),
    (''BPF_SOCK_OPS_PARSE_HDR_OPT_CB'', 13),
    (''BPF_SOCK_OPS_HDR_OPT_LEN_CB'', 14),
    (''BPF_SOCK_OPS_WRITE_HDR_OPT_CB'', 15)]"

definition x86_update_flags :: "(string \<times> nat) list" where
  "x86_update_flags = [
    (''BPF_ANY'', 0),
    (''BPF_NOEXIST'', 1),
    (''BPF_EXIST'', 2),
    (''BPF_F_LOCK'', 4)]"

definition x86_func_flags :: "(string \<times> nat) list" where
  "x86_func_flags = [
    (''BPF_F_INDEX_MASK'', 4294967295),
    (''BPF_F_CURRENT_CPU'', 4294967295),
    (''BPF_F_CTXLEN_MASK'', 0)]"

definition x86_bpf_sock_ops :: ctype where
  "x86_bpf_sock_ops = Struct [
    (''op'', U32),
    ('''', Union [(''args'', Arr U32 4), (''reply'', U32), (''replylong'', Arr U32 4)]),
    (''family'', U32),
    (''remote_ip4'', U32),
    (''local_ip4'', U32),
    (''remote_ip6'', Arr U32 4),
    (''local_ip6'', Arr U32 4),
    (''remote_port'', U32),
    (''local_port'', U32),
    (''is_fullsock'', U32),
    (''snd_cwnd'', U32),
    (''srtt_us'', U32),
    (''bpf_sock_ops_cb_flags'', U32),
    (''state'', U32),
    (''rtt_min'', U32),
    (''snd_ssthresh'', U32),
    (''rcv_nxt'', U32),
    (''snd_nxt'', U32),
    (''snd_una'', U32),
    (''mss_cache'', U32),
    (''ecn_flags'', U32),
    (''rate_delivered'', U32),
    (''rate_interval_us'', U32),
    (''packets_out'', U32),
    (''retrans_out'', U32),
    (''total_retrans'', U32),
    (''segs_in'', U32),
    (''data_segs_in'', U32),
    (''segs_out'', U32),
    (''data_segs_out'', U32),
    (''lost_out'', U32),
    (''sacked_out'', U32),
    (''sk_txhash'', U32),
    (''bytes_received'', U64),
    (''bytes_acked'', U64),
    ('''', Union [(''sk'', Ptr (Incomplete ''bpf_sock''))]),
    ('''', Union [(''skb_data'', Ptr Void)]),
    ('''', Union [(''skb_data_end'', Ptr Void)]),
    (''skb_len'', U32),
    (''skb_tcp_flags'', U32)]"

definition arm_bpf_func_id_1 :: "(string \<times> nat) list" where
  "arm_bpf_func_id_1 = [
    (''BPF_FUNC_unspec'', 0),
    (''BPF_FUNC_map_lookup_elem'', 1),
    (''BPF_FUNC_map_update_elem'', 2),
    (''BPF_FUNC_map_delete_elem'', 3),
    (''BPF_FUNC_probe_read'', 4),
    (''BPF_FUNC_ktime_get_ns'', 5),
    (''BPF_FUNC_trace_printk'', 6),
    (''BPF_FUNC_get_prandom_u32'', 7),
    (''BPF_FUNC_get_smp_processor_id'', 8),
    (''BPF_FUNC_skb_store_bytes'', 9),
    (''BPF_FUNC_l3_csum_replace'', 10),
    (''BPF_FUNC_l4_csum_replace'', 11),
    (''BPF_FUNC_tail_call'', 12),
    (''BPF_FUNC_clone_redirect'', 13),
    (''BPF_FUNC_get_current_pid_tgid'', 14),
    (''BPF_FUNC_get_current_uid_gid'', 15),
    (''BPF_FUNC_get_current_comm'', 16),
    (''BPF_FUNC_get_cgroup_classid'', 17),
    (''BPF_FUNC_skb_vlan_push'', 18),
    (''BPF_FUNC_skb_vlan_pop'', 19),
    (''BPF_FUNC_skb_get_tunnel_key'', 20),
    (''BPF_FUNC_skb_set_tunnel_key'', 21),
    (''BPF_FUNC_perf_event_read'', 22),
    (''BPF_FUNC_redirect'', 23),
    (''BPF_FUNC_get_route_realm'', 24),
    (''BPF_FUNC_perf_event_output'', 25),
    (''BPF_FUNC_skb_load_bytes'', 26),
    (''BPF_FUNC_get_stackid'', 27),
    (''BPF_FUNC_csum_diff'', 28),
    (''BPF_FUNC_skb_get_tunnel_opt'', 29),
    (''BPF_FUNC_skb_set_tunnel_opt'', 30),
    (''BPF_FUNC_skb_change_proto'', 31),
    (''BPF_FUNC_skb_change_type'', 32),
    (''BPF_FUNC_skb_under_cgroup'', 33),
    (''BPF_FUNC_get_hash_recalc'', 34),
    (''BPF_FUNC_get_current_task'', 35),
    (''BPF_FUNC_probe_write_user'', 36),
    (''BPF_FUNC_current_task_under_cgroup'', 37),
    (''BPF_FUNC_skb_change_tail'', 38),
    (''BPF_FUNC_skb_pull_data'', 39),
    (''BPF_FUNC_csum_update'', 40),
    (''BPF_FUNC_set_hash_invalid'', 41),
    (''BPF_FUNC_get_numa_node_id'', 42),
    (''BPF_FUNC_skb_change_head'', 43),
    (''BPF_FUNC_xdp_adjust_head'', 44),
    (''BPF_FUNC_probe_read_str'', 45),
    (''BPF_FUNC_get_socket_cookie'', 46),
    (''BPF_FUNC_get_socket_uid'', 47),
    (''BPF_FUNC_set_hash'', 48),
    (''BPF_FUNC_setsockopt'', 49),
    (''BPF_FUNC_skb_adjust_room'', 50),
    (''BPF_FUNC_redirect_map'', 51),
    (''BPF_FUNC_sk_redirect_map'', 52),
    (''BPF_FUNC_sock_map_update'', 53),
    (''BPF_FUNC_xdp_adjust_meta'', 54),
    (''BPF_FUNC_perf_event_read_value'', 55),
    (''BPF_FUNC_perf_prog_read_value'', 56),
    (''BPF_FUNC_getsockopt'', 57),
    (''BPF_FUNC_override_return'', 58),
    (''BPF_FUNC_sock_ops_cb_flags_set'', 59),
    (''BPF_FUNC_msg_redirect_map'', 60),
    (''BPF_FUNC_msg_apply_bytes'', 61),
    (''BPF_FUNC_msg_cork_bytes'', 62),
    (''BPF_FUNC_msg_pull_data'', 63),
    (''BPF_FUNC_bind'', 64),
    (''BPF_FUNC_xdp_adjust_tail'', 65),
    (''BPF_FUNC_skb_get_xfrm_state'', 66),
    (''BPF_FUNC_get_stack'', 67),
    (''BPF_FUNC_skb_load_bytes_relative'', 68),
    (''BPF_FUNC_fib_lookup'', 69),
    (''BPF_FUNC_sock_hash_update'', 70),
    (''BPF_FUNC_msg_redirect_hash'', 71),
    (''BPF_FUNC_sk_redirect_hash'', 72),
    (''BPF_FUNC_lwt_push_encap'', 73),
    (''BPF_FUNC_lwt_seg6_store_bytes'', 74),
    (''BPF_FUNC_lwt_seg6_adjust_srh'', 75),
    (''BPF_FUNC_lwt_seg6_action'', 76),
    (''BPF_FUNC_rc_repeat'', 77),
    (''BPF_FUNC_rc_keydown'', 78),
    (''BPF_FUNC_skb_cgroup_id'', 79),
    (''BPF_FUNC_get_current_cgroup_id'', 80),
    (''BPF_FUNC_get_local_storage'', 81),
    (''BPF_FUNC_sk_select_reuseport'', 82),
    (''BPF_FUNC_skb_ancestor_cgroup_id'', 83),
    (''BPF_FUNC_sk_lookup_tcp'', 84),
    (''BPF_FUNC_sk_lookup_udp'', 85),
    (''BPF_FUNC_sk_release'', 86),
    (''BPF_FUNC_map_push_elem'', 87),
    (''BPF_FUNC_map_pop_elem'', 88),
    (''BPF_FUNC_map_peek_elem'', 89),
    (''BPF_FUNC_msg_push_data'', 90),
    (''BPF_FUNC_msg_pop_data'', 91),
    (''BPF_FUNC_rc_pointer_rel'', 92),
    (''BPF_FUNC_spin_lock'', 93),
    (''BPF_FUNC_spin_unlock'', 94),
    (''BPF_FUNC_sk_fullsock'', 95),
    (''BPF_FUNC_tcp_sock'', 96),
    (''BPF_FUNC_skb_ecn_set_ce'', 97),
    (''BPF_FUNC_get_listener_sock'', 98),
    (''BPF_FUNC_skc_lookup_tcp'', 99),
    (''BPF_FUNC_tcp_check_syncookie'', 100),
    (''BPF_FUNC_sysctl_get_name'', 101),
    (''BPF_FUNC_sysctl_get_current_value'', 102),
    (''BPF_FUNC_sysctl_get_new_value'', 103),
    (''BPF_FUNC_sysctl_set_new_value'', 104),
    (''BPF_FUNC_strtol'', 105),
    (''BPF_FUNC_strtoul'', 106),
    (''BPF_FUNC_sk_storage_get'', 107),
    (''BPF_FUNC_sk_storage_delete'', 108),
    (''BPF_FUNC_send_signal'', 109),
    (''BPF_FUNC_tcp_gen_syncookie'', 110),
    (''BPF_FUNC_skb_output'', 111),
    (''BPF_FUNC_probe_read_user'', 112),
    (''BPF_FUNC_probe_read_kernel'', 113),
    (''BPF_FUNC_probe_read_user_str'', 114),
    (''BPF_FUNC_probe_read_kernel_str'', 115),
    (''BPF_FUNC_tcp_send_ack'', 116),
    (''BPF_FUNC_send_signal_thread'', 117),
    (''BPF_FUNC_jiffies64'', 118),
    (''BPF_FUNC_read_branch_records'', 119),
    (''BPF_FUNC_get_ns_current_pid_tgid'', 120),
    (''BPF_FUNC_xdp_output'', 121),
    (''BPF_FUNC_get_netns_cookie'', 122),
    (''BPF_FUNC_get_current_ancestor_cgroup_id'', 123),
    (''BPF_FUNC_sk_assign'', 124),
    (''BPF_FUNC_ktime_get_boot_ns'', 125),
    (''BPF_FUNC_seq_printf'', 126),
    (''BPF_FUNC_seq_write'', 127),
    (''BPF_FUNC_sk_cgroup_id'', 128),
    (''BPF_FUNC_sk_ancestor_cgroup_id'', 129),
    (''BPF_FUNC_ringbuf_output'', 130),
    (''BPF_FUNC_ringbuf_reserve'', 131),
    (''BPF_FUNC_ringbuf_submit'', 132),
    (''BPF_FUNC_ringbuf_discard'', 133),
    (''BPF_FUNC_ringbuf_query'', 134),
    (''BPF_FUNC_csum_level'', 135),
    (''BPF_FUNC_skc_to_tcp6_sock'', 136),
    (''BPF_FUNC_skc_to_tcp_sock'', 137),
    (''BPF_FUNC_skc_to_tcp_timewait_sock'', 138),
    (''BPF_FUNC_skc_to_tcp_request_sock'', 139),
    (''BPF_FUNC_skc_to_udp6_sock'', 140),
    (''BPF_FUNC_get_task_stack'', 141),
    (''BPF_FUNC_load_hdr_opt'', 142),
    (''BPF_FUNC_store_hdr_opt'', 143),
    (''BPF_FUNC_reserve_hdr_opt'', 144)]"

definition arm_bpf_func_id_2 :: "(string \<times> nat) list" where
  "arm_bpf_func_id_2 = [
    (''BPF_FUNC_inode_storage_get'', 145),
    (''BPF_FUNC_inode_storage_delete'', 146),
    (''BPF_FUNC_d_path'', 147),
    (''BPF_FUNC_copy_from_user'', 148),
    (''BPF_FUNC_snprintf_btf'', 149),
    (''BPF_FUNC_seq_printf_btf'', 150),
    (''BPF_FUNC_skb_cgroup_classid'', 151),
    (''BPF_FUNC_redirect_neigh'', 152),
    (''BPF_FUNC_per_cpu_ptr'', 153),
    (''BPF_FUNC_this_cpu_ptr'', 154),
    (''BPF_FUNC_redirect_peer'', 155),
    (''BPF_FUNC_task_storage_get'', 156),
    (''BPF_FUNC_task_storage_delete'', 157),
    (''BPF_FUNC_get_current_task_btf'', 158),
    (''BPF_FUNC_bprm_opts_set'', 159),
    (''BPF_FUNC_ktime_get_coarse_ns'', 160),
    (''BPF_FUNC_ima_inode_hash'', 161),
    (''BPF_FUNC_sock_from_file'', 162),
    (''BPF_FUNC_check_mtu'', 163),
    (''BPF_FUNC_for_each_map_elem'', 164),
    (''BPF_FUNC_snprintf'', 165),
    (''BPF_FUNC_sys_bpf'', 166),
    (''BPF_FUNC_btf_find_by_name_kind'', 167),
    (''BPF_FUNC_sys_close'', 168),
    (''BPF_FUNC_timer_init'', 169),
    (''BPF_FUNC_timer_set_callback'', 170),
    (''BPF_FUNC_timer_start'', 171),
    (''BPF_FUNC_timer_cancel'', 172),
    (''BPF_FUNC_get_func_ip'', 173),
    (''BPF_FUNC_get_attach_cookie'', 174),
    (''BPF_FUNC_task_pt_regs'', 175),
    (''__BPF_FUNC_MAX_ID'', 176)]"

definition arm_bpf_func_id :: "(string \<times> nat) list" where
  "arm_bpf_func_id = arm_bpf_func_id_1 @ arm_bpf_func_id_2"

definition arm_bpf_map_type :: "(string \<times> nat) list" where
  "arm_bpf_map_type = [
    (''BPF_MAP_TYPE_UNSPEC'', 0),
    (''BPF_MAP_TYPE_HASH'', 1),
    (''BPF_MAP_TYPE_ARRAY'', 2),
    (''BPF_MAP_TYPE_PROG_ARRAY'', 3),
    (''BPF_MAP_TYPE_PERF_EVENT_ARRAY'', 4),
    (''BPF_MAP_TYPE_PERCPU_HASH'', 5),
    (''BPF_MAP_TYPE_PERCPU_ARRAY'', 6),
    (''BPF_MAP_TYPE_STACK_TRACE'', 7),
    (''BPF_MAP_TYPE_CGROUP_ARRAY'', 8),
    (''BPF_MAP_TYPE_LRU_HASH'', 9),
    (''BPF_MAP_TYPE_LRU_PERCPU_HASH'', 10),
    (''BPF_MAP_TYPE_LPM_TRIE'', 11),
    (''BPF_MAP_TYPE_ARRAY_OF_MAPS'', 12),
    (''BPF_MAP_TYPE_HASH_OF_MAPS'', 13),
    (''BPF_MAP_TYPE_DEVMAP'', 14),
    (''BPF_MAP_TYPE_SOCKMAP'', 15),
    (''BPF_MAP_TYPE_CPUMAP'', 16),
    (''BPF_MAP_TYPE_XSKMAP'', 17),
    (''BPF_MAP_TYPE_SOCKHASH'', 18),
    (''BPF_MAP_TYPE_CGROUP_STORAGE'', 19),
    (''BPF_MAP_TYPE_REUSEPORT_SOCKARRAY'', 20),
    (''BPF_MAP_TYPE_PERCPU_CGROUP_STORAGE'', 21),
    (''BPF_MAP_TYPE_QUEUE'', 22),
    (''BPF_MAP_TYPE_STACK'', 23),
    (''BPF_MAP_TYPE_SK_STORAGE'', 24),
    (''BPF_MAP_TYPE_DEVMAP_HASH'', 25),
    (''BPF_MAP_TYPE_STRUCT_OPS'', 26),
    (''BPF_MAP_TYPE_RINGBUF'', 27),
    (''BPF_MAP_TYPE_INODE_STORAGE'', 28),
    (''BPF_MAP_TYPE_TASK_STORAGE'', 29)]"

definition arm_sock_ops_cb_flags :: "(string \<times> nat) list" where
  "arm_sock_ops_cb_flags = [
    (''BPF_SOCK_OPS_RTO_CB_FLAG'', 1),
    (''BPF_SOCK_OPS_RETRANS_CB_FLAG'', 2),
    (''BPF_SOCK_OPS_STATE_CB_FLAG'', 4),
    (''BPF_SOCK_OPS_RTT_CB_FLAG'', 8),
    (''BPF_SOCK_OPS_PARSE_ALL_HDR_OPT_CB_FLAG'', 16),
    (''BPF_SOCK_OPS_PARSE_UNKNOWN_HDR_OPT_CB_FLAG'', 32),
    (''BPF_SOCK_OPS_WRITE_HDR_OPT_CB_FLAG'', 64),
    (''BPF_SOCK_OPS_ALL_CB_FLAGS'', 127)]"

definition arm_sock_ops_ops :: "(string \<times> nat) list" where
  "arm_sock_ops_ops = [
    (''BPF_SOCK_OPS_VOID'', 0),
    (''BPF_SOCK_OPS_TIMEOUT_INIT'', 1),
    (''BPF_SOCK_OPS_RWND_INIT'', 2),
    (''BPF_SOCK_OPS_TCP_CONNECT_CB'', 3),
    (''BPF_SOCK_OPS_ACTIVE_ESTABLISHED_CB'', 4),
    (''BPF_SOCK_OPS_PASSIVE_ESTABLISHED_CB'', 5),
    (''BPF_SOCK_OPS_NEEDS_ECN'', 6),
    (''BPF_SOCK_OPS_BASE_RTT'', 7),
    (''BPF_SOCK_OPS_RTO_CB'', 8),
    (''BPF_SOCK_OPS_RETRANS_CB'', 9),
    (''BPF_SOCK_OPS_STATE_CB'', 10),
    (''BPF_SOCK_OPS_TCP_LISTEN_CB'', 11),
    (''BPF_SOCK_OPS_RTT_CB'', 12),
    (''BPF_SOCK_OPS_PARSE_HDR_OPT_CB'', 13),
    (''BPF_SOCK_OPS_HDR_OPT_LEN_CB'', 14),
    (''BPF_SOCK_OPS_WRITE_HDR_OPT_CB'', 15)]"

definition arm_update_flags :: "(string \<times> nat) list" where
  "arm_update_flags = [
    (''BPF_ANY'', 0),
    (''BPF_NOEXIST'', 1),
    (''BPF_EXIST'', 2),
    (''BPF_F_LOCK'', 4)]"

definition arm_func_flags :: "(string \<times> nat) list" where
  "arm_func_flags = [
    (''BPF_F_INDEX_MASK'', 4294967295),
    (''BPF_F_CURRENT_CPU'', 4294967295),
    (''BPF_F_CTXLEN_MASK'', 0)]"

definition arm_bpf_sock_ops :: ctype where
  "arm_bpf_sock_ops = Struct [
    (''op'', U32),
    ('''', Union [(''args'', Arr U32 4), (''reply'', U32), (''replylong'', Arr U32 4)]),
    (''family'', U32),
    (''remote_ip4'', U32),
    (''local_ip4'', U32),
    (''remote_ip6'', Arr U32 4),
    (''local_ip6'', Arr U32 4),
    (''remote_port'', U32),
    (''local_port'', U32),
    (''is_fullsock'', U32),
    (''snd_cwnd'', U32),
    (''srtt_us'', U32),
    (''bpf_sock_ops_cb_flags'', U32),
    (''state'', U32),
    (''rtt_min'', U32),
    (''snd_ssthresh'', U32),
    (''rcv_nxt'', U32),
    (''snd_nxt'', U32),
    (''snd_una'', U32),
    (''mss_cache'', U32),
    (''ecn_flags'', U32),
    (''rate_delivered'', U32),
    (''rate_interval_us'', U32),
    (''packets_out'', U32),
    (''retrans_out'', U32),
    (''total_retrans'', U32),
    (''segs_in'', U32),
    (''data_segs_in'', U32),
    (''segs_out'', U32),
    (''data_segs_out'', U32),
    (''lost_out'', U32),
    (''sacked_out'', U32),
    (''sk_txhash'', U32),
    (''bytes_received'', U64),
    (''bytes_acked'', U64),
    ('''', Union [(''sk'', Ptr (Incomplete ''bpf_sock''))]),
    ('''', Union [(''skb_data'', Ptr Void)]),
    ('''', Union [(''skb_data_end'', Ptr Void)]),
    (''skb_len'', U32),
    (''skb_tcp_flags'', U32)]"

lemmas func_id_defs =
  x86_bpf_func_id_def x86_bpf_func_id_1_def x86_bpf_func_id_2_def
  arm_bpf_func_id_def arm_bpf_func_id_1_def arm_bpf_func_id_2_def

section \<open>Agreement of helper numbers\<close>

text \<open>The name \<open>bpf_foo\<close> of the helper an enumerator \<open>BPF_FUNC_foo\<close> stands for.\<close>

definition helper_name_of_enumerator :: "string \<Rightarrow> string" where
  "helper_name_of_enumerator e = ''bpf_'' @ drop 9 e"

lemma arm_x86_bpf_func_id: "arm_bpf_func_id = x86_bpf_func_id"
  by code_simp

text \<open>
  The numbers under which \<open>bpf_helper_defs.h\<close> calls the helpers are the kernel's: each of
  the 175 helpers the x86 kernel header enumerates has the same number in both headers, in
  the same order, and the arm64 kernel header has the same enumeration.
\<close>

theorem helper_numbers_match_kernel:
  "map (\<lambda>p. (hp_name p, hp_id p)) (take 175 helper_protos) =
     map (\<lambda>(e, i). (helper_name_of_enumerator e, i)) (butlast (tl x86_bpf_func_id)) \<and>
   last x86_bpf_func_id = (''__BPF_FUNC_MAX_ID'', 176) \<and>
   arm_bpf_func_id = x86_bpf_func_id"
proof (intro conjI)
  show "map (\<lambda>p. (hp_name p, hp_id p)) (take 175 helper_protos) =
     map (\<lambda>(e, i). (helper_name_of_enumerator e, i)) (butlast (tl x86_bpf_func_id))" by code_simp
  show "last x86_bpf_func_id = (''__BPF_FUNC_MAX_ID'', 176)" by code_simp
  show "arm_bpf_func_id = x86_bpf_func_id" by (rule arm_x86_bpf_func_id)
qed

text \<open>
  The two builds of the program see the same kernel interface: map types, callback
  numbers and flags, update and perf-output flags, and the context struct agree between the
  x86 and arm64 headers, and each context field the program reads is at the same offset.
\<close>

theorem builds_agree:
  "arm_bpf_map_type = x86_bpf_map_type \<and> arm_sock_ops_ops = x86_sock_ops_ops \<and>
   arm_sock_ops_cb_flags = x86_sock_ops_cb_flags \<and> arm_update_flags = x86_update_flags \<and>
   arm_bpf_sock_ops = x86_bpf_sock_ops \<and>
   map (field_offset x86_bpf_sock_ops)
     [''op'', ''remote_ip4'', ''local_ip4'', ''remote_port'', ''local_port'', ''bpf_sock_ops_cb_flags'',
      ''rcv_nxt'', ''snd_nxt'', ''skb_len''] =
     map Some [0, 24, 28, 64, 68, 84, 100, 104, 208] \<and>
   ctype_size x86_bpf_sock_ops = 216"
proof (intro conjI)
  show "arm_bpf_map_type = x86_bpf_map_type" by code_simp
  show "arm_sock_ops_ops = x86_sock_ops_ops" by code_simp
  show "arm_sock_ops_cb_flags = x86_sock_ops_cb_flags" by code_simp
  show "arm_update_flags = x86_update_flags" by code_simp
  show "arm_bpf_sock_ops = x86_bpf_sock_ops" by code_simp
  show "map (field_offset x86_bpf_sock_ops)
     [''op'', ''remote_ip4'', ''local_ip4'', ''remote_port'', ''local_port'', ''bpf_sock_ops_cb_flags'',
      ''rcv_nxt'', ''snd_nxt'', ''skb_len''] =
     map Some [0, 24, 28, 64, 68, 84, 100, 104, 208]" by code_simp
  show "ctype_size x86_bpf_sock_ops = 216" by code_simp
qed

end
