(* ===== verification/Sockops.thy ===== *)
theory Sockops
  imports Bpf_Maps Bpf_Endian Vmlinux_Abi
begin

text \<open>
  The eBPF program \<open>src/pkg/ebpf/bpf/sockops.bpf.c\<close>.  The kernel calls it with a socket
  context; it reads and writes the maps of \<open>maps.h\<close> and calls kernel helpers.

  The maps' contents are explicit state.  A helper whose effect is outside the maps is an
  entry in the list \<open>calls\<close>, in the order the program makes the calls, with the socket
  (by its cookie) whose context is passed and the other arguments; the program ignores
  what those helpers return.  The kernel's
  insertion into the LRU map is the parameter \<open>lru\<close>: it may refuse the insertion or evict
  other entries, which \<open>lru_insert_spec\<close> states.
\<close>

section \<open>Constants\<close>

text \<open>The constants of the program and of the kernel headers it uses.\<close>

definition IPPROTO_TCP :: u32 where "IPPROTO_TCP = 6"
definition TCP_MAXSEG :: u32 where "TCP_MAXSEG = 2"
definition BPF_SOCK_OPS_ACTIVE_ESTABLISHED_CB :: u32 where "BPF_SOCK_OPS_ACTIVE_ESTABLISHED_CB = 4"
definition BPF_SOCK_OPS_HDR_OPT_LEN_CB :: u32 where "BPF_SOCK_OPS_HDR_OPT_LEN_CB = 14"
definition BPF_SOCK_OPS_WRITE_HDR_OPT_CB :: u32 where "BPF_SOCK_OPS_WRITE_HDR_OPT_CB = 15"
definition BPF_SOCK_OPS_WRITE_HDR_OPT_CB_FLAG :: u32 where "BPF_SOCK_OPS_WRITE_HDR_OPT_CB_FLAG = 64"
definition BPF_F_CURRENT_CPU :: u64 where "BPF_F_CURRENT_CPU = 4294967295"

lemmas op_defs [simp] =
  BPF_SOCK_OPS_ACTIVE_ESTABLISHED_CB_def BPF_SOCK_OPS_HDR_OPT_LEN_CB_def
  BPF_SOCK_OPS_WRITE_HDR_OPT_CB_def

section \<open>Context and state\<close>

text \<open>The fields of the context the program reads (all of them \<open>__u32\<close>).\<close>

record bpf_sock_ops =
  op :: u32
  remote_ip4 :: u32
  local_ip4 :: u32
  remote_port :: u32
  local_port :: u32
  bpf_sock_ops_cb_flags :: u32
  rcv_nxt :: u32
  snd_nxt :: u32
  skb_len :: u32

datatype helper_call =
    Bpf_setsockopt u32 u32 u32             \<comment> \<open>level, option, the \<open>int\<close> value\<close>
  | Bpf_perf_event_output u64 conn_event   \<comment> \<open>flags, data\<close>
  | Bpf_sock_ops_cb_flags_set u32
  | Bpf_reserve_hdr_opt u32 u64

record kstate = bpf_maps +
  calls :: "(u64 \<times> helper_call) list"

definition emit :: "u64 \<Rightarrow> helper_call \<Rightarrow> kstate \<Rightarrow> kstate" where
  "emit ck h st = st\<lparr>calls := calls st @ [(ck, h)]\<rparr>"

text \<open>
  One invocation of the program: the context, and the socket's cookie, which
  \<open>bpf_get_socket_cookie\<close> returns for it.
\<close>

record invocation =
  skops :: bpf_sock_ops
  cookie :: u64

type_synonym lru_insert = "(u64 \<rightharpoonup> conn_state) \<Rightarrow> u64 \<Rightarrow> conn_state \<Rightarrow> (u64 \<rightharpoonup> conn_state)"

text \<open>
  \<open>bpf_map_update_elem\<close> on a \<open>BPF_MAP_TYPE_LRU_HASH\<close> map: it fails and leaves the map as it
  was, or the new entry is stored and some other entries may be gone.
\<close>

definition lru_insert_spec :: "lru_insert \<Rightarrow> bool" where
  "lru_insert_spec lru \<longleftrightarrow>
     (\<forall>m k v. lru m k v = m \<or> (lru m k v k = Some v \<and> lru m k v \<subseteq>\<^sub>m m(k \<mapsto> v)))"

section \<open>The handlers\<close>

definition handle_established ::
    "lru_insert \<Rightarrow> gecit_config_t \<Rightarrow> bpf_sock_ops \<Rightarrow> u64 \<Rightarrow> kstate \<Rightarrow> kstate \<times> int" where
  "handle_established lru cfg sk ck st =
     (let dst = remote_ip4 sk in
      if exclude_ips st dst \<noteq> None then (st, 1) else
      let dport = ucast (bpf_ntohl False (remote_port sk)) in
      if target_ports st dport = None then (st, 1) else
      let st = emit ck (Bpf_setsockopt IPPROTO_TCP TCP_MAXSEG (ucast (mss cfg))) st;
          evt = \<lparr>src_ip = local_ip4 sk, dst_ip = remote_ip4 sk,
                 src_port = ucast (local_port sk), dst_port = dport,
                 seq = snd_nxt sk, ack = rcv_nxt sk\<rparr>;
          st = emit ck (Bpf_perf_event_output BPF_F_CURRENT_CPU evt) st;
          state = \<lparr>bytes_sent = 0, mss_restored = 0\<rparr>;
          st = st\<lparr>connections := lru (connections st) ck state\<rparr>;
          st = emit ck (Bpf_sock_ops_cb_flags_set
                 (bpf_sock_ops_cb_flags sk OR BPF_SOCK_OPS_WRITE_HDR_OPT_CB_FLAG)) st
      in (st, 1))"

definition handle_hdr_opt_len :: "u64 \<Rightarrow> kstate \<Rightarrow> kstate \<times> int" where
  "handle_hdr_opt_len ck st = (emit ck (Bpf_reserve_hdr_opt 0 0) st, 1)"

text \<open>
  \<open>bpf_map_lookup_elem\<close> returns a pointer into the map, so the counter and the flag are
  written in place; the entry is deleted after the flag is set.
\<close>

definition handle_write_hdr_opt ::
    "gecit_config_t \<Rightarrow> bpf_sock_ops \<Rightarrow> u64 \<Rightarrow> kstate \<Rightarrow> kstate \<times> int" where
  "handle_write_hdr_opt cfg sk ck st =
     (case connections st ck of
        None \<Rightarrow> (st, 1)
      | Some state \<Rightarrow>
          if mss_restored state \<noteq> 0 then (st, 1) else
          let state = state\<lparr>bytes_sent := bytes_sent state + skb_len sk\<rparr>;
              st = st\<lparr>connections := (connections st)(ck \<mapsto> state)\<rparr> in
          if bytes_sent state > restore_after_bytes cfg then
            let normal_mss = (if restore_mss cfg \<noteq> 0 then ucast (restore_mss cfg) else 1460);
                st = emit ck (Bpf_setsockopt IPPROTO_TCP TCP_MAXSEG normal_mss) st;
                state = state\<lparr>mss_restored := 1\<rparr>;
                st = st\<lparr>connections := (connections st)(ck \<mapsto> state)\<rparr>;
                st = emit ck (Bpf_sock_ops_cb_flags_set
                       (bpf_sock_ops_cb_flags sk AND NOT BPF_SOCK_OPS_WRITE_HDR_OPT_CB_FLAG)) st;
                st = st\<lparr>connections := (connections st)(ck := None)\<rparr>
            in (st, 1)
          else (st, 1))"

definition gecit_sockops :: "lru_insert \<Rightarrow> invocation \<Rightarrow> kstate \<Rightarrow> kstate \<times> int" where
  "gecit_sockops lru i st =
     (case gecit_config st 0 of
        None \<Rightarrow> (st, 1)
      | Some cfg \<Rightarrow>
          if enabled cfg = 0 then (st, 1)
          else if op (skops i) = BPF_SOCK_OPS_ACTIVE_ESTABLISHED_CB
            then handle_established lru cfg (skops i) (cookie i) st
          else if op (skops i) = BPF_SOCK_OPS_HDR_OPT_LEN_CB
            then handle_hdr_opt_len (cookie i) st
          else if op (skops i) = BPF_SOCK_OPS_WRITE_HDR_OPT_CB
            then handle_write_hdr_opt cfg (skops i) (cookie i) st
          else (st, 1))"

text \<open>The program run over a sequence of invocations.\<close>

fun sockops_run :: "lru_insert \<Rightarrow> kstate \<Rightarrow> invocation list \<Rightarrow> kstate" where
  "sockops_run lru st [] = st"
| "sockops_run lru st (i # is) = sockops_run lru (fst (gecit_sockops lru i st)) is"

section \<open>What one invocation changes\<close>

lemmas handler_defs = handle_established_def handle_hdr_opt_len_def handle_write_hdr_opt_def emit_def Let_def

lemma returns_1: "snd (gecit_sockops lru i st) = 1"
  by (simp add: gecit_sockops_def handler_defs split: option.split)

text \<open>The program never writes the maps userspace fills.\<close>

lemma sockops_frame [simp]:
  "gecit_config (fst (gecit_sockops lru i st)) = gecit_config st"
  "target_ports (fst (gecit_sockops lru i st)) = target_ports st"
  "exclude_ips (fst (gecit_sockops lru i st)) = exclude_ips st"
  by (simp_all add: gecit_sockops_def handler_defs split: option.split)

lemma sockops_run_frame [simp]:
  "gecit_config (sockops_run lru st is) = gecit_config st"
  "target_ports (sockops_run lru st is) = target_ports st"
  "exclude_ips (sockops_run lru st is) = exclude_ips st"
  by (induction "is" arbitrary: st) simp_all

lemma sockops_run_append:
  "sockops_run lru st (is @ js) = sockops_run lru (sockops_run lru st is) js"
  by (induction "is" arbitrary: st) simp_all

text \<open>
  An active configuration; the destination port of a context; the test that makes the
  program intercept a connection; the event it then reports.
\<close>

definition active_config :: "kstate \<Rightarrow> gecit_config_t \<Rightarrow> bool" where
  "active_config st cfg \<longleftrightarrow> gecit_config st 0 = Some cfg \<and> enabled cfg \<noteq> 0"

definition dst_port_of :: "bpf_sock_ops \<Rightarrow> u16" where
  "dst_port_of sk = ucast (bpf_ntohl False (remote_port sk))"

definition intercepts :: "kstate \<Rightarrow> bpf_sock_ops \<Rightarrow> bool" where
  "intercepts st sk \<longleftrightarrow> exclude_ips st (remote_ip4 sk) = None \<and> target_ports st (dst_port_of sk) \<noteq> None"

definition event_of :: "bpf_sock_ops \<Rightarrow> conn_event" where
  "event_of sk = \<lparr>src_ip = local_ip4 sk, dst_ip = remote_ip4 sk, src_port = ucast (local_port sk),
     dst_port = dst_port_of sk, seq = snd_nxt sk, ack = rcv_nxt sk\<rparr>"

lemmas intercept_defs = active_config_def dst_port_of_def intercepts_def event_of_def

lemma sockops_inactive:
  "(\<nexists>cfg. active_config st cfg) \<Longrightarrow> fst (gecit_sockops lru i st) = st"
  by (auto simp: gecit_sockops_def active_config_def split: option.split)

lemma sockops_established:
  assumes "active_config st cfg" and "op (skops i) = BPF_SOCK_OPS_ACTIVE_ESTABLISHED_CB"
  shows "fst (gecit_sockops lru i st) =
    (if intercepts st (skops i)
     then st\<lparr>connections := lru (connections st) (cookie i) \<lparr>bytes_sent = 0, mss_restored = 0\<rparr>,
             calls := calls st @
               [(cookie i, Bpf_setsockopt IPPROTO_TCP TCP_MAXSEG (ucast (mss cfg))),
                (cookie i, Bpf_perf_event_output BPF_F_CURRENT_CPU (event_of (skops i))),
                (cookie i, Bpf_sock_ops_cb_flags_set
                   (bpf_sock_ops_cb_flags (skops i) OR BPF_SOCK_OPS_WRITE_HDR_OPT_CB_FLAG))]\<rparr>
     else st)"
  using assms by (simp add: gecit_sockops_def handler_defs intercept_defs)

lemma sockops_hdr_opt_len:
  assumes "active_config st cfg" and "op (skops i) = BPF_SOCK_OPS_HDR_OPT_LEN_CB"
  shows "fst (gecit_sockops lru i st) = st\<lparr>calls := calls st @ [(cookie i, Bpf_reserve_hdr_opt 0 0)]\<rparr>"
  using assms by (simp add: gecit_sockops_def handler_defs active_config_def)

definition restored_mss :: "gecit_config_t \<Rightarrow> u32" where
  "restored_mss cfg = (if restore_mss cfg \<noteq> 0 then ucast (restore_mss cfg) else 1460)"

lemma sockops_write_hdr_opt:
  assumes "active_config st cfg" and "op (skops i) = BPF_SOCK_OPS_WRITE_HDR_OPT_CB"
    and "connections st (cookie i) = Some s" and "mss_restored s = 0"
  shows "fst (gecit_sockops lru i st) =
    (let n = bytes_sent s + skb_len (skops i) in
     if n > restore_after_bytes cfg
     then st\<lparr>connections := (connections st)(cookie i := None),
             calls := calls st @
               [(cookie i, Bpf_setsockopt IPPROTO_TCP TCP_MAXSEG (restored_mss cfg)),
                (cookie i, Bpf_sock_ops_cb_flags_set
                   (bpf_sock_ops_cb_flags (skops i) AND NOT BPF_SOCK_OPS_WRITE_HDR_OPT_CB_FLAG))]\<rparr>
     else st\<lparr>connections := (connections st)(cookie i \<mapsto> s\<lparr>bytes_sent := n\<rparr>)\<rparr>)"
  using assms by (simp add: gecit_sockops_def handler_defs active_config_def restored_mss_def)

lemma sockops_write_untracked:
  assumes "op (skops i) = BPF_SOCK_OPS_WRITE_HDR_OPT_CB"
    and "connections st (cookie i) = None \<or> connections st (cookie i) = Some s \<and> mss_restored s \<noteq> 0"
  shows "fst (gecit_sockops lru i st) = st"
  using assms by (auto simp: gecit_sockops_def handler_defs split: option.split)

lemma sockops_other_op:
  assumes "op (skops i) \<notin> {BPF_SOCK_OPS_ACTIVE_ESTABLISHED_CB, BPF_SOCK_OPS_HDR_OPT_LEN_CB,
                             BPF_SOCK_OPS_WRITE_HDR_OPT_CB}"
  shows "fst (gecit_sockops lru i st) = st"
  using assms by (simp add: gecit_sockops_def split: option.split)

end
