(* ===== verification/Sockops_Abi.thy ===== *)
theory Sockops_Abi
  imports Sockops "HOL-Library.Monad_Syntax"
begin

text \<open>
  The program of \<open>sockops.bpf.c\<close> at its binary interface.  \<open>Sockops\<close> computes with records and typed
  maps; the compiled program reads its context at the offsets of a kernel header, calls helpers
  by the numbers of \<open>bpf_helper_defs.h\<close>, and hands them bytes; the kernel takes the number for
  an entry of its own enumeration and the bytes for keys, values and events of the sizes the
  maps are declared with.  Here the program is translated once more on that level, for both
  kernel headers, and shown to do what \<open>Sockops\<close> says.
\<close>

section \<open>The two builds\<close>

datatype arch = X86 | Arm64

fun func_ids :: "arch \<Rightarrow> (string \<times> nat) list" where
  "func_ids X86 = x86_bpf_func_id"
| "func_ids Arm64 = arm_bpf_func_id"

fun sock_ops_ctype :: "arch \<Rightarrow> ctype" where
  "sock_ops_ctype X86 = x86_bpf_sock_ops"
| "sock_ops_ctype Arm64 = arm_bpf_sock_ops"

fun op_values :: "arch \<Rightarrow> (string \<times> nat) list" where
  "op_values X86 = x86_sock_ops_ops"
| "op_values Arm64 = arm_sock_ops_ops"

fun cb_flags :: "arch \<Rightarrow> (string \<times> nat) list" where
  "cb_flags X86 = x86_sock_ops_cb_flags"
| "cb_flags Arm64 = arm_sock_ops_cb_flags"

fun update_flags :: "arch \<Rightarrow> (string \<times> nat) list" where
  "update_flags X86 = x86_update_flags"
| "update_flags Arm64 = arm_update_flags"

fun output_flags :: "arch \<Rightarrow> (string \<times> nat) list" where
  "output_flags X86 = x86_func_flags"
| "output_flags Arm64 = arm_func_flags"

section \<open>Memory\<close>

text \<open>The bytes of a member of a struct in memory, and writing them.\<close>

definition field_bytes :: "ctype \<Rightarrow> string \<Rightarrow> bytes \<Rightarrow> bytes option" where
  "field_bytes t f mem =
     do { (off, n) \<leftarrow> map_of (member_offsets 0 (struct_members t)) f;
          if off + n \<le> length mem then Some (take n (drop off mem)) else None }"

definition set_field :: "ctype \<Rightarrow> string \<Rightarrow> bytes \<Rightarrow> bytes \<Rightarrow> bytes option" where
  "set_field t f v mem =
     do { (off, n) \<leftarrow> map_of (member_offsets 0 (struct_members t)) f;
          if off + n \<le> length mem \<and> length v = n then Some (take off mem @ v @ drop (off + n) mem) else None }"

text \<open>
  The kernel's side: the contents of the maps as bytes, and what helpers have done outside the
  maps, with the socket they did it to.
\<close>

datatype kernel_call =
    K_setsockopt u32 u32 bytes
  | K_perf_event_output string u64 bytes
  | K_sock_ops_cb_flags_set u32
  | K_reserve_hdr_opt u32 u64

record abi =
  mem :: "string \<Rightarrow> bytes \<rightharpoonup> bytes"
  did :: "(u64 \<times> kernel_call) list"

text \<open>A pointer into a map: the map and the key.  Reading and writing through it.\<close>

type_synonym map_value = "string \<times> bytes"

definition deref :: "abi \<Rightarrow> map_value \<Rightarrow> ctype \<Rightarrow> string \<Rightarrow> bytes option" where
  "deref s p t f = do { v \<leftarrow> mem s (fst p) (snd p); field_bytes t f v }"

definition assign :: "map_value \<Rightarrow> ctype \<Rightarrow> string \<Rightarrow> bytes \<Rightarrow> abi \<Rightarrow> abi option" where
  "assign p t f bs s =
     do { v \<leftarrow> mem s (fst p) (snd p);
          v \<leftarrow> set_field t f bs v;
          Some (s\<lparr>mem := (mem s)(fst p := (mem s (fst p))(snd p \<mapsto> v))\<rparr>) }"

section \<open>Calling a helper\<close>

text \<open>
  An argument: the context, the address of a map, the address of memory (with what is there),
  or a number.  The compiler converts it to the type of the parameter: an address to a pointer
  to \<open>void\<close> or to its own type, a number to the parameter's width.  Anything else it refuses.
\<close>

datatype arg = CtxArg | MapArg string | MemArg bytes | NumArg int

fun int_width :: "ctype \<Rightarrow> nat option" where
  "int_width CInt = Some 32"
| "int_width U32 = Some 32"
| "int_width U64 = Some 64"
| "int_width _ = None"

fun pass :: "ctype \<Rightarrow> arg \<Rightarrow> arg option" where
  "pass (Ptr t) CtxArg = (if t = Void \<or> t = Incomplete ''bpf_sock_ops'' then Some CtxArg else None)"
| "pass (Ptr t) (MapArg m) = (if t = Void then Some (MapArg m) else None)"
| "pass (Ptr t) (MemArg bs) = (if t = Void \<or> t = Const Void then Some (MemArg bs) else None)"
| "pass t (NumArg v) = map_option (\<lambda>w. NumArg (v mod 2 ^ w)) (int_width t)"
| "pass _ _ = None"

fun pass_all :: "ctype list \<Rightarrow> arg list \<Rightarrow> arg list option" where
  "pass_all [] [] = Some []"
| "pass_all (t # ts) (a # as) = do { a \<leftarrow> pass t a; as \<leftarrow> pass_all ts as; Some (a # as) }"
| "pass_all _ _ = None"

text \<open>The compiled call: the helper's number and the arguments.\<close>

definition compile_call :: "string \<Rightarrow> arg list \<Rightarrow> (nat \<times> arg list) option" where
  "compile_call f args =
     do { p \<leftarrow> List.find (\<lambda>p. hp_name p = f) helper_protos;
          args \<leftarrow> (if hp_variadic p then None else pass_all (hp_args p) args);
          Some (hp_id p, args) }"

section \<open>The kernel\<close>

text \<open>
  One run of the program: the build, the context and its socket's cookie, what the helpers the
  program does not ask for an answer return, and the kernel's insertion into an LRU map.
\<close>

type_synonym lru_bytes = "(bytes \<rightharpoonup> bytes) \<Rightarrow> bytes \<Rightarrow> bytes \<Rightarrow> (bytes \<rightharpoonup> bytes)"

record abi_env =
  e_arch :: arch
  e_ctx :: bytes
  e_cookie :: u64
  e_ret :: "string \<Rightarrow> u64"
  e_lru :: lru_bytes

datatype helper_result = Number u64 | Value "map_value option"

definition map_defs :: "(string \<times> map_def) list" where
  "map_defs = [
    (''gecit_config'', gecit_config_map),
    (''target_ports'', target_ports_map),
    (''exclude_ips'', exclude_ips_map),
    (''conn_events'', conn_events_map),
    (''connections'', connections_map)]"

text \<open>A map helper takes a map that is no ring, and a key (and value) of the map's sizes.\<close>

definition keyed :: "string \<Rightarrow> bytes \<Rightarrow> map_def option" where
  "keyed m k =
     do { d \<leftarrow> map_of map_defs m;
          if map_type d \<noteq> ''BPF_MAP_TYPE_PERF_EVENT_ARRAY'' \<and> length k = ctype_size (key_type d) then Some d else None }"

definition record_call :: "abi_env \<Rightarrow> string \<Rightarrow> kernel_call \<Rightarrow> abi \<Rightarrow> (helper_result \<times> abi) option" where
  "record_call env f c s = Some (Number (e_ret env f), s\<lparr>did := did s @ [(e_cookie env, c)]\<rparr>)"

text \<open>
  The helpers by the names of the kernel's enumeration.  \<open>None\<close>: the verifier refuses the program,
  or the kernel's documentation is not modelled for these arguments.
\<close>

definition kernel_helper :: "abi_env \<Rightarrow> string \<Rightarrow> arg list \<Rightarrow> abi \<Rightarrow> (helper_result \<times> abi) option" where
  "kernel_helper env f args s =
     (if f = ''BPF_FUNC_map_lookup_elem'' then
        (case args of
           [MapArg m, MemArg k] \<Rightarrow>
             do { d \<leftarrow> keyed m k; Some (Value (if mem s m k = None then None else Some (m, k)), s) }
         | _ \<Rightarrow> None)
      else if f = ''BPF_FUNC_map_update_elem'' then
        (case args of
           [MapArg m, MemArg k, MemArg v, NumArg flags] \<Rightarrow>
             do { d \<leftarrow> keyed m k;
                  if length v = ctype_size (value_type d) \<and> map_type d = ''BPF_MAP_TYPE_LRU_HASH'' \<and> flags = 0
                  then Some (Number (e_ret env f), s\<lparr>mem := (mem s)(m := e_lru env (mem s m) k v)\<rparr>) else None }
         | _ \<Rightarrow> None)
      else if f = ''BPF_FUNC_map_delete_elem'' then
        (case args of
           [MapArg m, MemArg k] \<Rightarrow>
             do { d \<leftarrow> keyed m k;
                  if map_type d = ''BPF_MAP_TYPE_LRU_HASH''
                  then Some (Number (e_ret env f), s\<lparr>mem := (mem s)(m := (mem s m)(k := None))\<rparr>) else None }
         | _ \<Rightarrow> None)
      else if f = ''BPF_FUNC_perf_event_output'' then
        (case args of
           [CtxArg, MapArg m, NumArg flags, MemArg data, NumArg len] \<Rightarrow>
             do { d \<leftarrow> map_of map_defs m;
                  if map_type d = ''BPF_MAP_TYPE_PERF_EVENT_ARRAY'' \<and> int (length data) = len
                  then record_call env f (K_perf_event_output m (word_of_int flags) data) s else None }
         | _ \<Rightarrow> None)
      else if f = ''BPF_FUNC_get_socket_cookie'' then
        (case args of [CtxArg] \<Rightarrow> Some (Number (e_cookie env), s) | _ \<Rightarrow> None)
      else if f = ''BPF_FUNC_setsockopt'' then
        (case args of
           [CtxArg, NumArg level, NumArg opt, MemArg val, NumArg len] \<Rightarrow>
             if int (length val) = len
             then record_call env f (K_setsockopt (word_of_int level) (word_of_int opt) val) s else None
         | _ \<Rightarrow> None)
      else if f = ''BPF_FUNC_sock_ops_cb_flags_set'' then
        (case args of
           [CtxArg, NumArg flags] \<Rightarrow> record_call env f (K_sock_ops_cb_flags_set (word_of_int flags)) s
         | _ \<Rightarrow> None)
      else if f = ''BPF_FUNC_reserve_hdr_opt'' then
        (case args of
           [CtxArg, NumArg len, NumArg flags] \<Rightarrow> record_call env f (K_reserve_hdr_opt (word_of_int len) (word_of_int flags)) s
         | _ \<Rightarrow> None)
      else None)"

text \<open>A call of the program: compiled to a number, which the kernel looks up.\<close>

definition helper :: "abi_env \<Rightarrow> string \<Rightarrow> arg list \<Rightarrow> abi \<Rightarrow> (helper_result \<times> abi) option" where
  "helper env f args s =
     do { (n, args) \<leftarrow> compile_call f args;
          (e, _) \<leftarrow> List.find (\<lambda>(e, i). i = n) (func_ids (e_arch env));
          kernel_helper env e args s }"

section \<open>The program\<close>

text \<open>
  The handlers of \<open>sockops.bpf.c\<close>, statement by statement: \<open>ctx_u32\<close> is \<open>skops->f\<close>, \<open>deref\<close> and
  \<open>assign\<close> are \<open>p->f\<close>, the enumerators are those of the build's header.  A variable whose address
  is passed is its bytes; \<open>sizeof\<close> is \<open>ctype_size\<close>.
\<close>

definition ctx_u32 :: "abi_env \<Rightarrow> string \<Rightarrow> u32 option" where
  "ctx_u32 env f = map_option of_le32 (field_bytes (sock_ops_ctype (e_arch env)) f (e_ctx env))"

definition le64 :: "u64 \<Rightarrow> bytes" where
  "le64 w = le32 (ucast w) @ le32 (ucast (drop_bit 32 w))"

definition le_int :: "int \<Rightarrow> bytes" where
  "le_int v = le32 (word_of_int v)"

definition enum_val :: "(string \<times> nat) list \<Rightarrow> string \<Rightarrow> int option" where
  "enum_val enum c = map_option int (map_of enum c)"

fun found :: "helper_result \<Rightarrow> map_value option" where
  "found (Value p) = p"
| "found (Number _) = None"

fun number :: "helper_result \<Rightarrow> u64 option" where
  "number (Number n) = Some n"
| "number (Value _) = None"

text \<open>\<open>struct conn_event evt = {}\<close> and its six assignments.\<close>

definition fill_event :: "u32 \<Rightarrow> u32 \<Rightarrow> u32 \<Rightarrow> u16 \<Rightarrow> u32 \<Rightarrow> u32 \<Rightarrow> bytes option" where
  "fill_event saddr daddr sport dport sq ac =
     do { evt \<leftarrow> Some (replicate (ctype_size conn_event_ctype) 0);
          evt \<leftarrow> set_field conn_event_ctype ''src_ip'' (le32 saddr) evt;
          evt \<leftarrow> set_field conn_event_ctype ''dst_ip'' (le32 daddr) evt;
          evt \<leftarrow> set_field conn_event_ctype ''src_port'' (le16 (ucast sport)) evt;
          evt \<leftarrow> set_field conn_event_ctype ''dst_port'' (le16 dport) evt;
          evt \<leftarrow> set_field conn_event_ctype ''seq'' (le32 sq) evt;
          set_field conn_event_ctype ''ack'' (le32 ac) evt }"

definition abi_established :: "abi_env \<Rightarrow> map_value \<Rightarrow> abi \<Rightarrow> (abi \<times> int) option" where
  "abi_established env cfg s =
     do { daddr \<leftarrow> ctx_u32 env ''remote_ip4'';
          (r, s) \<leftarrow> helper env ''bpf_map_lookup_elem'' [MapArg ''exclude_ips'', MemArg (le32 daddr)] s;
          if found r \<noteq> None then Some (s, 1) else do {
          rport \<leftarrow> ctx_u32 env ''remote_port'';
          let dport = (ucast (bpf_ntohl False rport) :: u16);
          (r, s) \<leftarrow> helper env ''bpf_map_lookup_elem'' [MapArg ''target_ports'', MemArg (le16 dport)] s;
          if found r = None then Some (s, 1) else do {
          m \<leftarrow> map_option of_le16 (deref s cfg gecit_config_ctype ''mss'');
          (_, s) \<leftarrow> helper env ''bpf_setsockopt''
            [CtxArg, NumArg (uint IPPROTO_TCP), NumArg (uint TCP_MAXSEG), MemArg (le_int (uint m)), NumArg (int (ctype_size CInt))] s;
          saddr \<leftarrow> ctx_u32 env ''local_ip4'';
          daddr \<leftarrow> ctx_u32 env ''remote_ip4'';
          sport \<leftarrow> ctx_u32 env ''local_port'';
          sq \<leftarrow> ctx_u32 env ''snd_nxt'';
          ac \<leftarrow> ctx_u32 env ''rcv_nxt'';
          evt \<leftarrow> fill_event saddr daddr sport dport sq ac;
          cpu \<leftarrow> enum_val (output_flags (e_arch env)) ''BPF_F_CURRENT_CPU'';
          (_, s) \<leftarrow> helper env ''bpf_perf_event_output''
            [CtxArg, MapArg ''conn_events'', NumArg cpu, MemArg evt, NumArg (int (ctype_size conn_event_ctype))] s;
          (r, s) \<leftarrow> helper env ''bpf_get_socket_cookie'' [CtxArg] s;
          ck \<leftarrow> number r;
          any \<leftarrow> enum_val (update_flags (e_arch env)) ''BPF_ANY'';
          (_, s) \<leftarrow> helper env ''bpf_map_update_elem''
            [MapArg ''connections'', MemArg (le64 ck), MemArg (replicate (ctype_size conn_state_ctype) 0), NumArg any] s;
          flags \<leftarrow> ctx_u32 env ''bpf_sock_ops_cb_flags'';
          w \<leftarrow> enum_val (cb_flags (e_arch env)) ''BPF_SOCK_OPS_WRITE_HDR_OPT_CB_FLAG'';
          (_, s) \<leftarrow> helper env ''bpf_sock_ops_cb_flags_set'' [CtxArg, NumArg (uint (flags OR word_of_int w))] s;
          Some (s, 1) } } }"

definition abi_hdr_opt_len :: "abi_env \<Rightarrow> abi \<Rightarrow> (abi \<times> int) option" where
  "abi_hdr_opt_len env s =
     do { (_, s) \<leftarrow> helper env ''bpf_reserve_hdr_opt'' [CtxArg, NumArg 0, NumArg 0] s; Some (s, 1) }"

definition abi_write_hdr_opt :: "abi_env \<Rightarrow> map_value \<Rightarrow> abi \<Rightarrow> (abi \<times> int) option" where
  "abi_write_hdr_opt env cfg s =
     do { (r, s) \<leftarrow> helper env ''bpf_get_socket_cookie'' [CtxArg] s;
          ck \<leftarrow> number r;
          (r, s) \<leftarrow> helper env ''bpf_map_lookup_elem'' [MapArg ''connections'', MemArg (le64 ck)] s;
          (case found r of
             None \<Rightarrow> Some (s, 1)
           | Some state \<Rightarrow> do {
               flag \<leftarrow> deref s state conn_state_ctype ''mss_restored'';
               if hd flag \<noteq> 0 then Some (s, 1) else do {
               n \<leftarrow> map_option of_le32 (deref s state conn_state_ctype ''bytes_sent'');
               l \<leftarrow> ctx_u32 env ''skb_len'';
               s \<leftarrow> assign state conn_state_ctype ''bytes_sent'' (le32 (n + l)) s;
               n \<leftarrow> map_option of_le32 (deref s state conn_state_ctype ''bytes_sent'');
               limit \<leftarrow> map_option of_le32 (deref s cfg gecit_config_ctype ''restore_after_bytes'');
               if n > limit then do {
                 m \<leftarrow> map_option of_le16 (deref s cfg gecit_config_ctype ''restore_mss'');
                 let normal = (if m \<noteq> 0 then uint m else 1460);
                 (_, s) \<leftarrow> helper env ''bpf_setsockopt''
                   [CtxArg, NumArg (uint IPPROTO_TCP), NumArg (uint TCP_MAXSEG), MemArg (le_int normal), NumArg (int (ctype_size CInt))] s;
                 s \<leftarrow> assign state conn_state_ctype ''mss_restored'' [1] s;
                 flags \<leftarrow> ctx_u32 env ''bpf_sock_ops_cb_flags'';
                 w \<leftarrow> enum_val (cb_flags (e_arch env)) ''BPF_SOCK_OPS_WRITE_HDR_OPT_CB_FLAG'';
                 (_, s) \<leftarrow> helper env ''bpf_sock_ops_cb_flags_set'' [CtxArg, NumArg (uint (flags AND NOT (word_of_int w)))] s;
                 (_, s) \<leftarrow> helper env ''bpf_map_delete_elem'' [MapArg ''connections'', MemArg (le64 ck)] s;
                 Some (s, 1) }
               else Some (s, 1) } }) }"

definition abi_sockops :: "abi_env \<Rightarrow> abi \<Rightarrow> (abi \<times> int) option" where
  "abi_sockops env s =
     do { (r, s) \<leftarrow> helper env ''bpf_map_lookup_elem'' [MapArg ''gecit_config'', MemArg (le32 0)] s;
          (case found r of
             None \<Rightarrow> Some (s, 1)
           | Some cfg \<Rightarrow> do {
               en \<leftarrow> deref s cfg gecit_config_ctype ''enabled'';
               if hd en = 0 then Some (s, 1) else do {
               cb \<leftarrow> ctx_u32 env ''op'';
               established \<leftarrow> enum_val (op_values (e_arch env)) ''BPF_SOCK_OPS_ACTIVE_ESTABLISHED_CB'';
               hdr_len \<leftarrow> enum_val (op_values (e_arch env)) ''BPF_SOCK_OPS_HDR_OPT_LEN_CB'';
               hdr_write \<leftarrow> enum_val (op_values (e_arch env)) ''BPF_SOCK_OPS_WRITE_HDR_OPT_CB'';
               if uint cb = established then abi_established env cfg s
               else if uint cb = hdr_len then abi_hdr_opt_len env s
               else if uint cb = hdr_write then abi_write_hdr_opt env cfg s
               else Some (s, 1) } }) }"

section \<open>What the tables say\<close>

lemma protos:
  "List.find (\<lambda>p. hp_name p = ''bpf_map_lookup_elem'') helper_protos =
     Some (Proto ''bpf_map_lookup_elem'' (Ptr Void) [Ptr Void, Ptr (Const Void)] False 1)"
  "List.find (\<lambda>p. hp_name p = ''bpf_map_update_elem'') helper_protos =
     Some (Proto ''bpf_map_update_elem'' Long [Ptr Void, Ptr (Const Void), Ptr (Const Void), U64] False 2)"
  "List.find (\<lambda>p. hp_name p = ''bpf_map_delete_elem'') helper_protos =
     Some (Proto ''bpf_map_delete_elem'' Long [Ptr Void, Ptr (Const Void)] False 3)"
  "List.find (\<lambda>p. hp_name p = ''bpf_perf_event_output'') helper_protos =
     Some (Proto ''bpf_perf_event_output'' Long [Ptr Void, Ptr Void, U64, Ptr Void, U64] False 25)"
  "List.find (\<lambda>p. hp_name p = ''bpf_get_socket_cookie'') helper_protos =
     Some (Proto ''bpf_get_socket_cookie'' U64 [Ptr Void] False 46)"
  "List.find (\<lambda>p. hp_name p = ''bpf_setsockopt'') helper_protos =
     Some (Proto ''bpf_setsockopt'' Long [Ptr Void, CInt, CInt, Ptr Void, CInt] False 49)"
  "List.find (\<lambda>p. hp_name p = ''bpf_sock_ops_cb_flags_set'') helper_protos =
     Some (Proto ''bpf_sock_ops_cb_flags_set'' Long [Ptr (Incomplete ''bpf_sock_ops''), CInt] False 59)"
  "List.find (\<lambda>p. hp_name p = ''bpf_reserve_hdr_opt'') helper_protos =
     Some (Proto ''bpf_reserve_hdr_opt'' Long [Ptr (Incomplete ''bpf_sock_ops''), U32, U64] False 144)"
  by code_simp+

lemma func_ids_x86: "func_ids a = x86_bpf_func_id"
  by (cases a) (simp_all add: arm_x86_bpf_func_id)

lemma kernel_names:
  "List.find (\<lambda>(e, i). i = Suc 0) (func_ids a) = Some (''BPF_FUNC_map_lookup_elem'', 1)"
  "List.find (\<lambda>(e, i). i = 2) (func_ids a) = Some (''BPF_FUNC_map_update_elem'', 2)"
  "List.find (\<lambda>(e, i). i = 3) (func_ids a) = Some (''BPF_FUNC_map_delete_elem'', 3)"
  "List.find (\<lambda>(e, i). i = 25) (func_ids a) = Some (''BPF_FUNC_perf_event_output'', 25)"
  "List.find (\<lambda>(e, i). i = 46) (func_ids a) = Some (''BPF_FUNC_get_socket_cookie'', 46)"
  "List.find (\<lambda>(e, i). i = 49) (func_ids a) = Some (''BPF_FUNC_setsockopt'', 49)"
  "List.find (\<lambda>(e, i). i = 59) (func_ids a) = Some (''BPF_FUNC_sock_ops_cb_flags_set'', 59)"
  "List.find (\<lambda>(e, i). i = 144) (func_ids a) = Some (''BPF_FUNC_reserve_hdr_opt'', 144)"
  unfolding func_ids_x86 by code_simp+

lemma enum_vals:
  "enum_val (op_values a) ''BPF_SOCK_OPS_ACTIVE_ESTABLISHED_CB'' = Some 4"
  "enum_val (op_values a) ''BPF_SOCK_OPS_HDR_OPT_LEN_CB'' = Some 14"
  "enum_val (op_values a) ''BPF_SOCK_OPS_WRITE_HDR_OPT_CB'' = Some 15"
  "enum_val (cb_flags a) ''BPF_SOCK_OPS_WRITE_HDR_OPT_CB_FLAG'' = Some 64"
  "enum_val (update_flags a) ''BPF_ANY'' = Some 0"
  "enum_val (output_flags a) ''BPF_F_CURRENT_CPU'' = Some 4294967295"
  by (cases a; simp add: enum_val_def x86_sock_ops_ops_def arm_sock_ops_ops_def x86_sock_ops_cb_flags_def
      arm_sock_ops_cb_flags_def x86_update_flags_def arm_update_flags_def x86_func_flags_def arm_func_flags_def)+

text \<open>The offsets of the fields of the context.\<close>

definition ctx_offsets :: "(string \<times> nat) list" where
  "ctx_offsets = [(''op'', 0), (''remote_ip4'', 24), (''local_ip4'', 28), (''remote_port'', 64), (''local_port'', 68),
     (''bpf_sock_ops_cb_flags'', 84), (''rcv_nxt'', 100), (''snd_nxt'', 104), (''skb_len'', 208)]"

lemma ctx_members:
  "list_all (\<lambda>(f, off). map_of (member_offsets 0 (struct_members (sock_ops_ctype a))) f = Some (off, 4)) ctx_offsets"
  by (cases a) (simp; code_simp)+

lemma kernel_maps:
  "map_of map_defs ''gecit_config'' = Some gecit_config_map" "map_of map_defs ''target_ports'' = Some target_ports_map"
  "map_of map_defs ''exclude_ips'' = Some exclude_ips_map" "map_of map_defs ''conn_events'' = Some conn_events_map"
  "map_of map_defs ''connections'' = Some connections_map"
  by (simp_all add: map_defs_def)

lemma keyed_maps:
  "length k = 4 \<Longrightarrow> keyed ''gecit_config'' k = Some gecit_config_map"
  "length k = 2 \<Longrightarrow> keyed ''target_ports'' k = Some target_ports_map"
  "length k = 4 \<Longrightarrow> keyed ''exclude_ips'' k = Some exclude_ips_map"
  "length k = 8 \<Longrightarrow> keyed ''connections'' k = Some connections_map"
  by (simp_all add: keyed_def kernel_maps gecit_config_map_def target_ports_map_def exclude_ips_map_def connections_map_def)

lemma struct_sizes: "ctype_size conn_event_ctype = 20" "ctype_size conn_state_ctype = 8" "ctype_size CInt = 4"
  by code_simp+

section \<open>Helpers, executed\<close>

lemmas helper_defs = helper_def compile_call_def kernel_helper_def

lemma helper_lookup:
  "keyed m k = Some d \<Longrightarrow> helper env ''bpf_map_lookup_elem'' [MapArg m, MemArg k] s =
     Some (Value (if mem s m k = None then None else Some (m, k)), s)"
  by (simp add: helper_defs protos kernel_names)

lemma helper_update:
  "length k = 8 \<Longrightarrow> length v = 8 \<Longrightarrow> helper env ''bpf_map_update_elem'' [MapArg ''connections'', MemArg k, MemArg v, NumArg 0] s =
     Some (Number (e_ret env ''BPF_FUNC_map_update_elem''),
       s\<lparr>mem := (mem s)(''connections'' := e_lru env (mem s ''connections'') k v)\<rparr>)"
  by (simp add: helper_defs protos kernel_names keyed_maps connections_map_def struct_sizes)

lemma helper_delete:
  "length k = 8 \<Longrightarrow> helper env ''bpf_map_delete_elem'' [MapArg ''connections'', MemArg k] s =
     Some (Number (e_ret env ''BPF_FUNC_map_delete_elem''),
       s\<lparr>mem := (mem s)(''connections'' := (mem s ''connections'')(k := None))\<rparr>)"
  by (simp add: helper_defs protos kernel_names keyed_maps connections_map_def)

lemma helper_cookie: "helper env ''bpf_get_socket_cookie'' [CtxArg] s = Some (Number (e_cookie env), s)"
  by (simp add: helper_defs protos kernel_names)

definition called :: "abi_env \<Rightarrow> string \<Rightarrow> kernel_call \<Rightarrow> abi \<Rightarrow> helper_result \<times> abi" where
  "called env f c s = (Number (e_ret env f), s\<lparr>did := did s @ [(e_cookie env, c)]\<rparr>)"

lemma helper_output:
  "length data = 20 \<Longrightarrow> helper env ''bpf_perf_event_output''
     [CtxArg, MapArg ''conn_events'', NumArg 4294967295, MemArg data, NumArg 20] s =
     Some (called env ''BPF_FUNC_perf_event_output'' (K_perf_event_output ''conn_events'' 4294967295 data) s)"
  by (simp add: helper_defs protos kernel_names kernel_maps conn_events_map_def record_call_def called_def)

lemma helper_setsockopt:
  "length val = 4 \<Longrightarrow> helper env ''bpf_setsockopt'' [CtxArg, NumArg 6, NumArg 2, MemArg val, NumArg 4] s =
     Some (called env ''BPF_FUNC_setsockopt'' (K_setsockopt 6 2 val) s)"
  by (simp add: helper_defs protos kernel_names record_call_def called_def)

lemma helper_cb_flags:
  "helper env ''bpf_sock_ops_cb_flags_set'' [CtxArg, NumArg (uint w)] s =
     Some (called env ''BPF_FUNC_sock_ops_cb_flags_set'' (K_sock_ops_cb_flags_set w) s)" for w :: u32
proof -
  have "uint w < 4294967296" using unsigned_less [of w, where ?'a = int] by simp
  then have "uint w mod 4294967296 = uint w" by (simp add: mod_pos_pos_trivial)
  then show ?thesis by (simp add: helper_defs protos kernel_names record_call_def called_def)
qed

lemma helper_reserve:
  "helper env ''bpf_reserve_hdr_opt'' [CtxArg, NumArg 0, NumArg 0] s =
     Some (called env ''BPF_FUNC_reserve_hdr_opt'' (K_reserve_hdr_opt 0 0) s)"
  by (simp add: helper_defs protos kernel_names record_call_def called_def)

section \<open>Typed maps as bytes\<close>

definition of_le64 :: "bytes \<Rightarrow> u64" where
  "of_le64 bs = push_bit 32 (ucast (of_le32 (drop 4 bs))) OR ucast (of_le32 bs)"

lemma le64_halves: "push_bit 32 (ucast (ucast (drop_bit 32 w) :: u32)) OR ucast (ucast w :: u32) = w" for w :: u64
  by (rule bit_word_eqI) (auto simp: bit_simps)

lemma halves_le64:
  fixes a b :: u32
  defines "w \<equiv> push_bit 32 (ucast b) OR ucast a :: u64"
  shows "ucast w = a" and "ucast (drop_bit 32 w) = b"
proof -
  show "ucast w = a" unfolding w_def by (rule bit_word_eqI) (auto simp: bit_simps)
  show "ucast (drop_bit 32 w) = b" unfolding w_def
    by (rule bit_word_eqI) (auto simp: bit_simps dest: bit_imp_le_length)
qed

interpretation LE64: byte_codec le64 of_le64 8
proof unfold_locales
  fix w :: u64 and bs :: bytes
  show "length (le64 w) = 8" by (simp add: le64_def)
  show "of_le64 (le64 w) = w" by (simp add: of_le64_def le64_def codec le64_halves)
  show "of_le64 (take 8 bs) = of_le64 bs"
    using of_le32_take [of bs] of_le32_take [of "take 8 bs"] of_le32_take [of "drop 4 bs"] of_le32_take [of "drop 4 (take 8 bs)"]
    by (simp add: of_le64_def drop_take)
  assume l: "length bs = 8"
  then have b: "bs = take 4 bs @ drop 4 bs" "length (take 4 bs) = 4" "length (drop 4 bs) = 4" by simp_all
  show "le64 (of_le64 bs) = bs"
    unfolding le64_def of_le64_def halves_le64
    using le32_of_le32 [OF b(2)] le32_of_le32 [OF b(3)] b(1) of_le32_take [of bs] by simp
qed

text \<open>A map with its keys and values encoded.\<close>

definition enc_map :: "(bytes \<Rightarrow> 'k) \<Rightarrow> nat \<Rightarrow> ('v \<Rightarrow> bytes) \<Rightarrow> ('k \<rightharpoonup> 'v) \<Rightarrow> (bytes \<rightharpoonup> bytes)" where
  "enc_map dec_k width enc_v m = (\<lambda>bs. if length bs = width then map_option enc_v (m (dec_k bs)) else None)"

context byte_codec
begin

lemma enc_map_at: "enc_map dec width ev m (enc k) = map_option ev (m k)"
  by (simp add: enc_map_def length_enc dec_enc)

lemma dec_eq: "length bs = width \<Longrightarrow> dec bs = k \<longleftrightarrow> bs = enc k"
  using enc_dec dec_enc by metis

lemma enc_map_upd: "(enc_map dec width ev m)(enc k \<mapsto> ev v) = enc_map dec width ev (m(k \<mapsto> v))"
  by (rule ext) (auto simp: enc_map_def length_enc dec_eq)

lemma enc_map_del: "(enc_map dec width ev m)(enc k := None) = enc_map dec width ev (m(k := None))"
  by (rule ext) (auto simp: enc_map_def length_enc dec_eq)

end

definition conn_state_mem :: "conn_state \<Rightarrow> bytes" where
  "conn_state_mem c = le32 (bytes_sent c) @ [mss_restored c] @ replicate 3 0"

definition of_conn_state :: "bytes \<Rightarrow> conn_state" where
  "of_conn_state bs = \<lparr>bytes_sent = of_le32 bs, mss_restored = bs ! 4\<rparr>"

lemma length_conn_state_mem [simp]: "length (conn_state_mem c) = 8"
  by (simp add: conn_state_mem_def)

lemma of_conn_state_mem [simp]: "of_conn_state (conn_state_mem c) = c"
  by (simp add: of_conn_state_def conn_state_mem_def codec nth_append)

definition mem_connections :: "(u64 \<rightharpoonup> conn_state) \<Rightarrow> (bytes \<rightharpoonup> bytes)" where
  "mem_connections = enc_map of_le64 8 conn_state_mem"

lemmas connections_at = LE64.enc_map_at [where ev = conn_state_mem, folded mem_connections_def]
  and connections_upd = LE64.enc_map_upd [where ev = conn_state_mem, folded mem_connections_def]
  and connections_del = LE64.enc_map_del [where ev = conn_state_mem, folded mem_connections_def]

section \<open>The kernel's LRU insertion, on bytes and on entries\<close>

text \<open>
  It fails and leaves the map as it was, or stores the entry and may drop others; what it does to
  the bytes is an insertion into the map of entries.
\<close>

definition lru_bytes_spec :: "lru_bytes \<Rightarrow> bool" where
  "lru_bytes_spec lru \<longleftrightarrow> (\<forall>m k v. lru m k v = m \<or> (lru m k v k = Some v \<and> lru m k v \<subseteq>\<^sub>m m(k \<mapsto> v)))"

definition lru_of :: "lru_bytes \<Rightarrow> lru_insert" where
  "lru_of lru m k v =
     (\<lambda>k'. map_option of_conn_state (lru (mem_connections m) (le64 k) (conn_state_mem v) (le64 k')))"

lemma lru_of_bytes:
  assumes "lru_bytes_spec lru"
  shows "lru (mem_connections m) (le64 k) (conn_state_mem v) = mem_connections (lru_of lru m k v)"
proof (rule ext)
  fix bs
  let ?r = "lru (mem_connections m) (le64 k) (conn_state_mem v)"
  have sub: "?r \<subseteq>\<^sub>m mem_connections (m(k \<mapsto> v)) \<or> ?r = mem_connections m"
    using assms unfolding lru_bytes_spec_def connections_upd [symmetric] by blast
  have r: "?r bs = None \<or> (\<exists>m'. ?r bs = mem_connections m' bs)"
    using sub by (metis domIff map_le_def)
  show "?r bs = mem_connections (lru_of lru m k v) bs"
  proof (cases "length bs = 8")
    case True
    then have b: "le64 (of_le64 bs) = bs" by (rule LE64.enc_dec)
    have at: "mem_connections m' bs = map_option conn_state_mem (m' (of_le64 bs))" for m'
      using True by (simp add: mem_connections_def enc_map_def)
    from r obtain x where "?r bs = map_option conn_state_mem x" unfolding at by (metis option.map_disc_iff)
    then show ?thesis by (simp add: at lru_of_def b option.map_comp comp_def option.map_ident)
  next
    case False
    with r show ?thesis by (auto simp: mem_connections_def enc_map_def)
  qed
qed

lemma lru_of_spec:
  assumes "lru_bytes_spec lru"
  shows "lru_insert_spec (lru_of lru)"
  unfolding lru_insert_spec_def
proof (intro allI)
  fix m k v
  have at: "mem_connections (lru_of lru m k v) (le64 k') = lru (mem_connections m) (le64 k) (conn_state_mem v) (le64 k')" for k'
    by (simp add: lru_of_bytes [OF assms])
  consider "lru (mem_connections m) (le64 k) (conn_state_mem v) = mem_connections m"
    | "lru (mem_connections m) (le64 k) (conn_state_mem v) (le64 k) = Some (conn_state_mem v)"
      "lru (mem_connections m) (le64 k) (conn_state_mem v) \<subseteq>\<^sub>m mem_connections (m(k \<mapsto> v))"
    using assms unfolding lru_bytes_spec_def connections_upd [symmetric] by blast
  then show "lru_of lru m k v = m \<or> lru_of lru m k v k = Some v \<and> lru_of lru m k v \<subseteq>\<^sub>m m(k \<mapsto> v)"
  proof cases
    case 1
    then have "lru_of lru m k v = m"
      by (auto simp: lru_of_def connections_at option.map_comp comp_def option.map_ident)
    then show ?thesis ..
  next
    case 2
    have "lru_of lru m k v k = Some v" by (simp add: lru_of_def 2(1))
    moreover have "lru_of lru m k v \<subseteq>\<^sub>m m(k \<mapsto> v)"
    proof (unfold map_le_def, intro ballI)
      fix k' assume "k' \<in> dom (lru_of lru m k v)"
      then have "le64 k' \<in> dom (lru (mem_connections m) (le64 k) (conn_state_mem v))" by (auto simp: lru_of_def)
      with 2(2) have "lru (mem_connections m) (le64 k) (conn_state_mem v) (le64 k') = mem_connections (m(k \<mapsto> v)) (le64 k')"
        by (auto simp: map_le_def)
      then show "lru_of lru m k v k' = (m(k \<mapsto> v)) k'"
        by (simp add: lru_of_def connections_at option.map_comp comp_def option.map_ident)
    qed
    ultimately show ?thesis by blast
  qed
qed

section \<open>The refinement\<close>

text \<open>
  The record the program of \<open>Sockops\<close> computes with, read from the context at the offsets of the
  kernel's interface, and the state of \<open>Sockops\<close> as the kernel holds it.
\<close>

definition context_of :: "bytes \<Rightarrow> bpf_sock_ops" where
  "context_of ctx = \<lparr>op = of_le32 ctx, remote_ip4 = of_le32 (drop 24 ctx), local_ip4 = of_le32 (drop 28 ctx),
     remote_port = of_le32 (drop 64 ctx), local_port = of_le32 (drop 68 ctx),
     bpf_sock_ops_cb_flags = of_le32 (drop 84 ctx), rcv_nxt = of_le32 (drop 100 ctx),
     snd_nxt = of_le32 (drop 104 ctx), skb_len = of_le32 (drop 208 ctx)\<rparr>"

definition invocation_of :: "abi_env \<Rightarrow> invocation" where
  "invocation_of env = \<lparr>skops = context_of (e_ctx env), cookie = e_cookie env\<rparr>"

fun kernel_call_of :: "helper_call \<Rightarrow> kernel_call" where
  "kernel_call_of (Bpf_setsockopt level opt v) = K_setsockopt level opt (le32 v)"
| "kernel_call_of (Bpf_perf_event_output flags e) = K_perf_event_output ''conn_events'' flags (conn_event_mem e)"
| "kernel_call_of (Bpf_sock_ops_cb_flags_set v) = K_sock_ops_cb_flags_set v"
| "kernel_call_of (Bpf_reserve_hdr_opt n v) = K_reserve_hdr_opt n v"

definition abi_of :: "kstate \<Rightarrow> abi" where
  "abi_of st = \<lparr>
     mem = (\<lambda>_. Map.empty)(
       ''gecit_config'' := enc_map of_le32 4 gecit_config_mem (gecit_config st),
       ''target_ports'' := enc_map of_le16 2 (\<lambda>v. [v]) (target_ports st),
       ''exclude_ips'' := enc_map of_le32 4 (\<lambda>v. [v]) (exclude_ips st),
       ''connections'' := mem_connections (connections st)),
     did = map (apsnd kernel_call_of) (calls st)\<rparr>"

lemma abi_of_mem:
  "mem (abi_of st) ''gecit_config'' (le32 k4) = map_option gecit_config_mem (gecit_config st k4)"
  "mem (abi_of st) ''target_ports'' (le16 k2) = map_option (\<lambda>v. [v]) (target_ports st k2)"
  "mem (abi_of st) ''exclude_ips'' (le32 k4) = map_option (\<lambda>v. [v]) (exclude_ips st k4)"
  "mem (abi_of st) ''connections'' (le64 k8) = map_option conn_state_mem (connections st k8)"
  by (simp_all add: abi_of_def LE32.enc_map_at LE16.enc_map_at connections_at)

lemma abi_of_connections:
  "(abi_of st)\<lparr>mem := (mem (abi_of st))(''connections'' := mem_connections m)\<rparr> = abi_of (st\<lparr>connections := m\<rparr>)"
  "mem (abi_of st) ''connections'' = mem_connections (connections st)"
  by (simp_all add: abi_of_def fun_upd_twist)

lemma abi_of_calls:
  "called env f (kernel_call_of h) (abi_of st) = (Number (e_ret env f), abi_of (emit (e_cookie env) h st))"
  by (simp add: called_def abi_of_def emit_def)

lemmas abi_of_call = abi_of_calls [of env f "Bpf_setsockopt level opt v" st for env f level opt v st, simplified]
  abi_of_calls [of env f "Bpf_perf_event_output flags e" st for env f flags e st, simplified]
  abi_of_calls [of env f "Bpf_sock_ops_cb_flags_set v" st for env f v st, simplified]
  abi_of_calls [of env f "Bpf_reserve_hdr_opt n v" st for env f n v st, simplified]

lemma ctx_field:
  assumes "length (e_ctx env) = 216" and "(f, off) \<in> set ctx_offsets"
  shows "ctx_u32 env f = Some (of_le32 (drop off (e_ctx env)))"
proof -
  from ctx_members [of "e_arch env"] assms(2)
  have m: "map_of (member_offsets 0 (struct_members (sock_ops_ctype (e_arch env)))) f = Some (off, 4)"
    unfolding list_all_iff by (metis (mono_tags, lifting) case_prod_conv)
  from assms(2) have "off \<le> 208" by (auto simp: ctx_offsets_def)
  with assms(1) show ?thesis by (simp add: ctx_u32_def field_bytes_def m of_le32_take)
qed

lemma ctx_fields:
  assumes "length (e_ctx env) = 216"
  shows "ctx_u32 env ''op'' = Some (op (context_of (e_ctx env)))"
    "ctx_u32 env ''remote_ip4'' = Some (remote_ip4 (context_of (e_ctx env)))"
    "ctx_u32 env ''local_ip4'' = Some (local_ip4 (context_of (e_ctx env)))"
    "ctx_u32 env ''remote_port'' = Some (remote_port (context_of (e_ctx env)))"
    "ctx_u32 env ''local_port'' = Some (local_port (context_of (e_ctx env)))"
    "ctx_u32 env ''bpf_sock_ops_cb_flags'' = Some (bpf_sock_ops_cb_flags (context_of (e_ctx env)))"
    "ctx_u32 env ''rcv_nxt'' = Some (rcv_nxt (context_of (e_ctx env)))"
    "ctx_u32 env ''snd_nxt'' = Some (snd_nxt (context_of (e_ctx env)))"
    "ctx_u32 env ''skb_len'' = Some (skb_len (context_of (e_ctx env)))"
proof -
  note f = ctx_field [OF assms, unfolded ctx_offsets_def]
  show "ctx_u32 env ''op'' = Some (op (context_of (e_ctx env)))" by (subst f [of _ 0]) (simp_all add: context_of_def)
  show "ctx_u32 env ''remote_ip4'' = Some (remote_ip4 (context_of (e_ctx env)))"
    by (subst f [of _ 24]) (simp_all add: context_of_def)
  show "ctx_u32 env ''local_ip4'' = Some (local_ip4 (context_of (e_ctx env)))"
    by (subst f [of _ 28]) (simp_all add: context_of_def)
  show "ctx_u32 env ''remote_port'' = Some (remote_port (context_of (e_ctx env)))"
    by (subst f [of _ 64]) (simp_all add: context_of_def)
  show "ctx_u32 env ''local_port'' = Some (local_port (context_of (e_ctx env)))"
    by (subst f [of _ 68]) (simp_all add: context_of_def)
  show "ctx_u32 env ''bpf_sock_ops_cb_flags'' = Some (bpf_sock_ops_cb_flags (context_of (e_ctx env)))"
    by (subst f [of _ 84]) (simp_all add: context_of_def)
  show "ctx_u32 env ''rcv_nxt'' = Some (rcv_nxt (context_of (e_ctx env)))"
    by (subst f [of _ 100]) (simp_all add: context_of_def)
  show "ctx_u32 env ''snd_nxt'' = Some (snd_nxt (context_of (e_ctx env)))"
    by (subst f [of _ 104]) (simp_all add: context_of_def)
  show "ctx_u32 env ''skb_len'' = Some (skb_len (context_of (e_ctx env)))"
    by (subst f [of _ 208]) (simp_all add: context_of_def)
qed

text \<open>The fields of the structs in memory.\<close>

lemma config_fields:
  "field_bytes gecit_config_ctype ''mss'' (gecit_config_mem c) = Some (le16 (mss c))"
  "field_bytes gecit_config_ctype ''restore_mss'' (gecit_config_mem c) = Some (le16 (restore_mss c))"
  "field_bytes gecit_config_ctype ''restore_after_bytes'' (gecit_config_mem c) = Some (le32 (restore_after_bytes c))"
  "field_bytes gecit_config_ctype ''enabled'' (gecit_config_mem c) = Some [enabled c]"
  by (simp_all add: field_bytes_def gecit_config_ctype_def gecit_config_mem_def round_up_def)

lemma conn_state_layout:
  "member_offsets 0 (struct_members conn_state_ctype) = [(''bytes_sent'', 0, 4), (''mss_restored'', 4, 1), (''reserved'', 5, 3)]"
  by (simp add: conn_state_ctype_def round_up_def)

lemma state_fields:
  "field_bytes conn_state_ctype ''bytes_sent'' (conn_state_mem c) = Some (le32 (bytes_sent c))"
  "field_bytes conn_state_ctype ''mss_restored'' (conn_state_mem c) = Some [mss_restored c]"
  "set_field conn_state_ctype ''bytes_sent'' (le32 n) (conn_state_mem c) = Some (conn_state_mem (c\<lparr>bytes_sent := n\<rparr>))"
  "set_field conn_state_ctype ''mss_restored'' [b] (conn_state_mem c) = Some (conn_state_mem (c\<lparr>mss_restored := b\<rparr>))"
  "replicate 8 0 = conn_state_mem \<lparr>bytes_sent = 0, mss_restored = 0\<rparr>"
proof -
  have r: "replicate 3 (0 :: u8) = [0, 0, 0]" "replicate 8 (0 :: u8) = [0, 0, 0, 0, 0, 0, 0, 0]"
    by (simp_all add: numeral_eq_Suc)
  show "replicate 8 0 = conn_state_mem \<lparr>bytes_sent = 0, mss_restored = 0\<rparr>"
    by (simp add: r conn_state_mem_def le32_def be32_def)
qed (simp_all add: field_bytes_def set_field_def conn_state_layout conn_state_mem_def)

lemma fill_event_mem:
  "fill_event a b c d e f = Some (conn_event_mem \<lparr>src_ip = a, dst_ip = b, src_port = ucast c, dst_port = d, seq = e, ack = f\<rparr>)"
proof -
  have z: "replicate 20 (0 :: u8) = [0, 0, 0, 0, 0, 0, 0, 0, 0, 0, 0, 0, 0, 0, 0, 0, 0, 0, 0, 0]" by (simp add: numeral_eq_Suc)
  show ?thesis
    by (simp add: fill_event_def struct_sizes z) (simp add: set_field_def conn_event_layout conn_event_mem_def le32_def be32_def
        le16_def be16_def)
qed

text \<open>Each handler on the kernel's state does what its counterpart does on the entries.\<close>

lemma abi_lookups:
  "helper env ''bpf_map_lookup_elem'' [MapArg ''gecit_config'', MemArg (le32 k4)] (abi_of st) =
     Some (Value (if gecit_config st k4 = None then None else Some (''gecit_config'', le32 k4)), abi_of st)"
  "helper env ''bpf_map_lookup_elem'' [MapArg ''target_ports'', MemArg (le16 k2)] (abi_of st) =
     Some (Value (if target_ports st k2 = None then None else Some (''target_ports'', le16 k2)), abi_of st)"
  "helper env ''bpf_map_lookup_elem'' [MapArg ''exclude_ips'', MemArg (le32 k4)] (abi_of st) =
     Some (Value (if exclude_ips st k4 = None then None else Some (''exclude_ips'', le32 k4)), abi_of st)"
  "helper env ''bpf_map_lookup_elem'' [MapArg ''connections'', MemArg (le64 k8)] (abi_of st) =
     Some (Value (if connections st k8 = None then None else Some (''connections'', le64 k8)), abi_of st)"
  by (simp_all add: helper_lookup [OF keyed_maps(1)] helper_lookup [OF keyed_maps(2)] helper_lookup [OF keyed_maps(3)]
      helper_lookup [OF keyed_maps(4)] abi_of_mem LE64.length_enc)

lemma abi_update:
  assumes "lru_bytes_spec (e_lru env)"
  shows "helper env ''bpf_map_update_elem'' [MapArg ''connections'', MemArg (le64 k), MemArg (conn_state_mem v), NumArg 0] (abi_of st) =
     Some (Number (e_ret env ''BPF_FUNC_map_update_elem''),
       abi_of (st\<lparr>connections := lru_of (e_lru env) (connections st) k v\<rparr>))"
  by (simp add: helper_update LE64.length_enc abi_of_connections(2) lru_of_bytes [OF assms] abi_of_connections(1))

lemma abi_delete:
  "helper env ''bpf_map_delete_elem'' [MapArg ''connections'', MemArg (le64 k)] (abi_of st) =
     Some (Number (e_ret env ''BPF_FUNC_map_delete_elem''), abi_of (st\<lparr>connections := (connections st)(k := None)\<rparr>))"
  by (simp add: helper_delete LE64.length_enc abi_of_connections(2) connections_del abi_of_connections(1))

lemma config_deref:
  assumes "gecit_config st k = Some c"
  shows "deref (abi_of st) (''gecit_config'', le32 k) t f = field_bytes t f (gecit_config_mem c)"
  by (simp add: deref_def abi_of_mem assms)

lemma state_deref:
  assumes "connections st ck = Some c"
  shows "deref (abi_of st) (''connections'', le64 ck) t f = field_bytes t f (conn_state_mem c)"
    "set_field t f bs (conn_state_mem c) = Some (conn_state_mem c') \<Longrightarrow>
      assign (''connections'', le64 ck) t f bs (abi_of st) = Some (abi_of (st\<lparr>connections := (connections st)(ck \<mapsto> c')\<rparr>))"
  by (simp_all add: deref_def assign_def abi_of_connections(2) connections_at assms connections_upd abi_of_connections(1))

lemma emit_sel [simp]:
  "gecit_config (emit ck h st) = gecit_config st" "target_ports (emit ck h st) = target_ports st"
  "exclude_ips (emit ck h st) = exclude_ips st" "connections (emit ck h st) = connections st"
  by (simp_all add: emit_def)

lemma setsockopt_args: "uint IPPROTO_TCP = 6" "uint TCP_MAXSEG = 2" "le_int (uint m) = le32 (ucast m)" "le_int 1460 = le32 1460"
  for m :: u16
proof -
  have "(word_of_int (uint m) :: u32) = ucast m" by (rule bit_word_eqI) (simp add: bit_simps)
  then show "le_int (uint m) = le32 (ucast m)" by (simp add: le_int_def)
qed (simp_all add: IPPROTO_TCP_def TCP_MAXSEG_def le_int_def)

lemmas abi_steps = abi_lookups abi_delete helper_cookie helper_output helper_setsockopt helper_cb_flags helper_reserve
  abi_of_call struct_sizes enum_vals config_deref config_fields state_fields(1,2) setsockopt_args fill_event_mem

lemmas program_constants = IPPROTO_TCP_def TCP_MAXSEG_def BPF_F_CURRENT_CPU_def BPF_SOCK_OPS_WRITE_HDR_OPT_CB_FLAG_def

lemma abi_established_refines:
  assumes "length (e_ctx env) = 216" and "lru_bytes_spec (e_lru env)" and "gecit_config st 0 = Some cfg"
  shows "abi_established env (''gecit_config'', le32 0) (abi_of st) =
    Some (apfst abi_of (handle_established (lru_of (e_lru env)) cfg (context_of (e_ctx env)) (e_cookie env) st))"
proof (cases "exclude_ips st (remote_ip4 (context_of (e_ctx env)))")
  case (Some v)
  then show ?thesis by (simp add: abi_established_def handle_established_def ctx_fields [OF assms(1)] abi_lookups)
next
  case excluded: None
  let ?port = "ucast (bpf_ntohl False (remote_port (context_of (e_ctx env)))) :: u16"
  show ?thesis
  proof (cases "target_ports st ?port")
    case None
    with excluded show ?thesis
      by (simp add: abi_established_def handle_established_def ctx_fields [OF assms(1)] abi_lookups Let_def)
  next
    case (Some v)
    with excluded assms(3) show ?thesis
      by (simp add: abi_established_def handle_established_def ctx_fields [OF assms(1)] abi_steps state_fields(5)
          abi_update [OF assms(2)] codec program_constants Let_def)
  qed
qed

lemma abi_hdr_opt_len_refines:
  "abi_hdr_opt_len env (abi_of st) = Some (apfst abi_of (handle_hdr_opt_len (e_cookie env) st))"
  by (simp add: abi_hdr_opt_len_def handle_hdr_opt_len_def abi_steps)

lemma abi_write_hdr_opt_refines:
  assumes "length (e_ctx env) = 216" and "gecit_config st 0 = Some cfg"
  shows "abi_write_hdr_opt env (''gecit_config'', le32 0) (abi_of st) =
    Some (apfst abi_of (handle_write_hdr_opt cfg (context_of (e_ctx env)) (e_cookie env) st))"
proof (cases "connections st (e_cookie env)")
  case None
  then show ?thesis by (simp add: abi_write_hdr_opt_def handle_write_hdr_opt_def abi_steps)
next
  case (Some c)
  note run = abi_write_hdr_opt_def handle_write_hdr_opt_def ctx_fields [OF assms(1)] Let_def
  show ?thesis
  proof (cases "mss_restored c = 0")
    case False
    with Some show ?thesis by (simp add: run abi_steps state_deref)
  next
    case tracked: True
    let ?n = "bytes_sent c + skb_len (context_of (e_ctx env))"
    have over: "abi_write_hdr_opt env (''gecit_config'', le32 0) (abi_of st) =
        Some (apfst abi_of (handle_write_hdr_opt cfg (context_of (e_ctx env)) (e_cookie env) st))"
      if "?n > restore_after_bytes cfg" and "v = (if restore_mss cfg \<noteq> 0 then ucast (restore_mss cfg) else 1460)" for v :: u32
    proof (cases "restore_mss cfg = 0")
      case True
      with Some tracked that(1) assms(2) show ?thesis
        by (simp add: run abi_steps state_deref state_fields codec program_constants)
    next
      case False
      with Some tracked that(1) assms(2) show ?thesis
        by (simp add: run abi_steps state_deref state_fields codec program_constants)
    qed
    show ?thesis
    proof (cases "?n > restore_after_bytes cfg")
      case True
      from over [OF this refl] show ?thesis .
    next
      case False
      with Some tracked assms(2) show ?thesis by (simp add: run abi_steps state_deref state_fields codec)
    qed
  qed
qed

lemma abi_sockops_refines:
  assumes "length (e_ctx env) = 216" and "lru_bytes_spec (e_lru env)"
  shows "abi_sockops env (abi_of st) = Some (apfst abi_of (gecit_sockops (lru_of (e_lru env)) (invocation_of env) st))"
proof (cases "gecit_config st 0")
  case None
  then show ?thesis by (simp add: abi_sockops_def gecit_sockops_def abi_lookups)
next
  case (Some cfg)
  have u: "uint w = 4 \<longleftrightarrow> w = 4" "uint w = 14 \<longleftrightarrow> w = 14" "uint w = 15 \<longleftrightarrow> w = 15" for w :: u32
    by (simp_all add: word_uint_eq_iff)
  from Some show ?thesis
    by (simp add: abi_sockops_def gecit_sockops_def invocation_of_def abi_lookups config_deref config_fields
        ctx_fields [OF assms(1)] enum_vals u abi_established_refines [OF assms Some]
        abi_write_hdr_opt_refines [OF assms(1) Some] abi_hdr_opt_len_refines)
qed

text \<open>The program run over a sequence of invocations.\<close>

fun abi_run :: "abi_env list \<Rightarrow> abi \<Rightarrow> abi option" where
  "abi_run [] s = Some s"
| "abi_run (env # envs) s = do { (s, _) \<leftarrow> abi_sockops env s; abi_run envs s }"

section \<open>Property\<close>

text \<open>
  C40: The program at its binary interface is the program of \<open>Sockops\<close>: built against either kernel
  header, every helper call it makes compiles against the prototypes of \<open>bpf_helper_defs.h\<close>, carries
  a number that the kernel's enumeration gives to the helper meant, and passes keys, values, events
  and options of the sizes the maps and helpers take; and with the fields of the context at the
  offsets of the kernel's interface, the maps in bytes and the calls the kernel sees are, after
  any sequence of invocations, the encoding of the entries and calls \<open>Sockops\<close> computes, for an LRU
  insertion that satisfies what \<open>Sockops\<close> asks of it.
\<close>

theorem binary_interface_refines:
  assumes "lru_bytes_spec lru" and "\<forall>env \<in> set envs. length (e_ctx env) = 216 \<and> e_lru env = lru"
  shows "abi_run envs (abi_of st) = Some (abi_of (sockops_run (lru_of lru) st (map invocation_of envs))) \<and>
    lru_insert_spec (lru_of lru)"
proof
  show "abi_run envs (abi_of st) = Some (abi_of (sockops_run (lru_of lru) st (map invocation_of envs)))"
    using assms(2)
  proof (induction envs arbitrary: st)
    case (Cons env envs)
    then have e: "length (e_ctx env) = 216" "e_lru env = lru" by auto
    obtain st' n where r: "gecit_sockops (lru_of lru) (invocation_of env) st = (st', n)" by fastforce
    have "abi_sockops env (abi_of st) = Some (abi_of st', n)"
      using abi_sockops_refines [OF e(1), of st] assms(1) e(2) r by simp
    with Cons r show ?case by simp
  qed simp
  show "lru_insert_spec (lru_of lru)" using assms(1) by (rule lru_of_spec)
qed

text \<open>A connection to port 443, established and then written to, on the arm64 build.\<close>

definition demo_abi_ctx :: "u32 \<Rightarrow> bytes" where
  "demo_abi_ctx cb = le32 cb @ replicate 20 0 @ le32 0x22D8B85D @ le32 0x0100000A @ replicate 32 0 @ le32 0xBB010000 @
     replicate 148 0"

definition demo_abi_lru :: lru_bytes where
  "demo_abi_lru m k v = m(k \<mapsto> v)"

definition demo_abi_env :: "u32 \<Rightarrow> abi_env" where
  "demo_abi_env cb = \<lparr>e_arch = Arm64, e_ctx = demo_abi_ctx cb, e_cookie = 7, e_ret = (\<lambda>_. 0), e_lru = demo_abi_lru\<rparr>"

definition demo_abi_state :: kstate where
  "demo_abi_state = \<lparr>gecit_config = [0 \<mapsto> \<lparr>mss = 40, restore_mss = 0, restore_after_bytes = 600, enabled = 1\<rparr>],
     target_ports = [443 \<mapsto> 1], exclude_ips = Map.empty, connections = Map.empty, calls = []\<rparr>"

theorem binary_interface_refines_witness:
  "abi_run [demo_abi_env 4, demo_abi_env 15] (abi_of demo_abi_state) =
     Some (abi_of (sockops_run (lru_of demo_abi_lru) demo_abi_state [invocation_of (demo_abi_env 4), invocation_of (demo_abi_env 15)])) \<and>
   connections (sockops_run (lru_of demo_abi_lru) demo_abi_state [invocation_of (demo_abi_env 4)]) 7 \<noteq> None"
proof -
  have spec: "lru_bytes_spec demo_abi_lru" by (simp add: lru_bytes_spec_def demo_abi_lru_def)
  have envs: "\<forall>env \<in> set [demo_abi_env 4, demo_abi_env 15]. length (e_ctx env) = 216 \<and> e_lru env = demo_abi_lru"
    by (simp add: demo_abi_env_def demo_abi_ctx_def)
  have "op (context_of (demo_abi_ctx 4)) = 4" "remote_port (context_of (demo_abi_ctx 4)) = 0xBB010000"
    by (simp_all add: context_of_def demo_abi_ctx_def codec)
  moreover have "ucast (bpf_ntohl False 0xBB010000) = (443 :: u16)" by code_simp
  ultimately have "connections (sockops_run (lru_of demo_abi_lru) demo_abi_state [invocation_of (demo_abi_env 4)]) 7 \<noteq> None"
    by (simp add: gecit_sockops_def handle_established_def invocation_of_def demo_abi_env_def demo_abi_state_def Let_def
        emit_def lru_of_def demo_abi_lru_def)
  with binary_interface_refines [OF spec envs, of demo_abi_state] show ?thesis by simp
qed

end
