(* ===== verification/Go_Net.thy ===== *)
theory Go_Net
  imports Gecit_Prelude
begin

text \<open>
  The part of Go's standard library the engine uses on addresses and byte slices:
  \<open>net.IP\<close> as a byte slice of any length, its \<open>To4\<close> and \<open>To16\<close>, and \<open>copy\<close> into a
  sub-slice.  A nil result is \<open>None\<close>; code that goes on with a nil slice (which has length
  zero) uses \<open>nil_bytes\<close>.
\<close>

section \<open>net.IP\<close>

type_synonym ip = bytes

definition v4_in_v6_prefix :: bytes where
  "v4_in_v6_prefix = replicate 10 0 @ [0xFF, 0xFF]"

definition To4 :: "ip \<Rightarrow> bytes option" where
  "To4 p =
     (if length p = 4 then Some p
      else if length p = 16 \<and> take 12 p = v4_in_v6_prefix then Some (drop 12 p)
      else None)"

definition To16 :: "ip \<Rightarrow> bytes option" where
  "To16 p =
     (if length p = 4 then Some (v4_in_v6_prefix @ p)
      else if length p = 16 then Some p
      else None)"

text \<open>A nil slice used as bytes.\<close>

definition nil_bytes :: "bytes option \<Rightarrow> bytes" where
  "nil_bytes b = (case b of None \<Rightarrow> [] | Some x \<Rightarrow> x)"

lemma nil_bytes_simps [simp]: "nil_bytes None = []" "nil_bytes (Some x) = x"
  by (simp_all add: nil_bytes_def)

lemma To4_length: "To4 p = Some q \<Longrightarrow> length q = 4"
  by (auto simp: To4_def split: if_splits)

lemma To16_length: "To16 p = Some q \<Longrightarrow> length q = 16"
  by (auto simp: To16_def v4_in_v6_prefix_def split: if_splits)

lemma To4_4 [simp]: "length p = 4 \<Longrightarrow> To4 p = Some p"
  by (simp add: To4_def)

text \<open>\<open>To4\<close> undoes \<open>To16\<close>: the two forms of an IPv4 address denote the same four bytes.\<close>

lemma To4_To16: "To4 p = Some q \<Longrightarrow> To16 q = Some r \<Longrightarrow> To4 r = Some q"
  by (auto simp: To4_def To16_def v4_in_v6_prefix_def split: if_splits)

section \<open>copy\<close>

text \<open>\<open>copy(dst[i:j], src)\<close> for \<open>j \<le> len(dst)\<close>: as many bytes as both slices have.\<close>

definition go_copy :: "bytes \<Rightarrow> nat \<Rightarrow> nat \<Rightarrow> bytes \<Rightarrow> bytes" where
  "go_copy dst i j src =
     (let n = min (j - i) (length src) in take i dst @ take n src @ drop (i + n) dst)"

lemma length_go_copy [simp]: "i \<le> j \<Longrightarrow> j \<le> length dst \<Longrightarrow> length (go_copy dst i j src) = length dst"
  by (simp add: go_copy_def Let_def)

end
