(* ===== verification/Go_Strings.thy ===== *)
theory Go_Strings
  imports Main "HOL-Library.Sublist"
begin

text \<open>
  The functions of Go's \<open>strings\<close> package the program uses, on a string as the list of its
  bytes: \<open>Split\<close> at a one-byte separator, \<open>Join\<close>, \<open>TrimSpace\<close>, \<open>HasPrefix\<close>
  (\<open>prefix\<close> of the library), \<open>Contains\<close> (\<open>sublist\<close> of the library), \<open>TrimPrefix\<close>,
  \<open>TrimSuffix\<close>, \<open>SplitN\<close> and \<open>Fields\<close>.  The white space is the ASCII one; what Unicode has
  beyond it is not modelled.
\<close>

section \<open>Definitions\<close>

fun Split :: "char \<Rightarrow> string \<Rightarrow> string list" where
  "Split sep [] = [[]]"
| "Split sep (c # cs) =
     (if c = sep then [] # Split sep cs
      else case Split sep cs of [] \<Rightarrow> [[c]] | s # ss \<Rightarrow> (c # s) # ss)"

fun Join :: "string list \<Rightarrow> string \<Rightarrow> string" where
  "Join [] sep = []"
| "Join [s] sep = s"
| "Join (s # t # ss) sep = s @ sep @ Join (t # ss) sep"

definition is_space :: "char \<Rightarrow> bool" where
  "is_space c \<longleftrightarrow> c \<in> {CHR 0x09, CHR 0x0A, CHR 0x0B, CHR 0x0C, CHR 0x0D, CHR 0x20}"

definition newline :: char where
  "newline = CHR 0x0A"

definition TrimSpace :: "string \<Rightarrow> string" where
  "TrimSpace s = rev (dropWhile is_space (rev (dropWhile is_space s)))"

definition TrimPrefix :: "string \<Rightarrow> string \<Rightarrow> string" where
  "TrimPrefix s p = (if prefix p s then drop (length p) s else s)"

definition TrimSuffix :: "string \<Rightarrow> string \<Rightarrow> string" where
  "TrimSuffix s p = (if suffix p s then take (length s - length p) s else s)"

text \<open>\<open>ToLower\<close> on one ASCII character.\<close>

definition lower :: "char \<Rightarrow> char" where
  "lower c = (if 65 \<le> (of_char c :: nat) \<and> (of_char c :: nat) \<le> 90 then char_of (of_char c + 32 :: nat) else c)"

section \<open>Split and Join\<close>

lemma Split_not_Nil [simp]: "Split sep s \<noteq> []"
  by (induction s) (auto split: list.splits)

lemma Split_no_sep: "p \<in> set (Split sep s) \<Longrightarrow> sep \<notin> set p"
  by (induction s arbitrary: p) (auto split: list.splits if_splits)

lemma Split_single: "sep \<notin> set s \<Longrightarrow> Split sep s = [s]"
  by (induction s) auto

lemma Split_append: "sep \<notin> set s \<Longrightarrow> Split sep (s @ sep # t) = s # Split sep t"
  by (induction s) auto

lemma Split_Join_line:
  "\<forall>s \<in> set ss. sep \<notin> set s \<Longrightarrow> ss \<noteq> [] \<Longrightarrow> Split sep (Join ss [sep] @ [sep]) = ss @ [[]]"
  by (induction ss "[sep]" rule: Join.induct) (simp_all add: Split_append)

section \<open>TrimSpace\<close>

text \<open>A string with no white space at either end.\<close>

definition trimmed :: "string \<Rightarrow> bool" where
  "trimmed s \<longleftrightarrow> s = [] \<or> (\<not> is_space (hd s) \<and> \<not> is_space (last s))"

lemma dropWhile_id: "s = [] \<or> \<not> P (hd s) \<Longrightarrow> dropWhile P s = s"
  by (cases s) auto

lemma TrimSpace_id: "trimmed s \<Longrightarrow> TrimSpace s = s"
  by (auto simp: trimmed_def TrimSpace_def dropWhile_id hd_rev)

lemma last_dropWhile: "dropWhile P s \<noteq> [] \<Longrightarrow> last (dropWhile P s) = last s"
  by (induction s) (auto split: if_splits)

lemma hd_dropWhile_not: "dropWhile P s \<noteq> [] \<Longrightarrow> \<not> P (hd (dropWhile P s))"
  by (rule hd_dropWhile)

lemma trimmed_TrimSpace [simp]: "trimmed (TrimSpace s)"
proof (cases "TrimSpace s = []")
  case False
  let ?u = "dropWhile is_space s" and ?v = "dropWhile is_space (rev (dropWhile is_space s))"
  have v: "?v \<noteq> []" using False by (simp add: TrimSpace_def)
  then have "?u \<noteq> []" by (metis dropWhile.simps(1) rev.simps(1))
  have "last (TrimSpace s) = hd ?v" using v by (simp add: TrimSpace_def last_rev)
  moreover have "hd (TrimSpace s) = last ?v" using v by (simp add: TrimSpace_def hd_rev)
  moreover have "last ?v = hd ?u" using v \<open>?u \<noteq> []\<close> by (simp add: last_dropWhile last_rev)
  ultimately show ?thesis
    using hd_dropWhile_not [OF v] hd_dropWhile_not [OF \<open>?u \<noteq> []\<close>] by (simp add: trimmed_def)
qed (simp add: trimmed_def)

lemma TrimSpace_idem [simp]: "TrimSpace (TrimSpace s) = TrimSpace s"
  by (simp add: TrimSpace_id)

lemma dropWhile_subset: "set (dropWhile P s) \<subseteq> set s"
  by (induction s) auto

lemma set_TrimSpace: "set (TrimSpace s) \<subseteq> set s"
  unfolding TrimSpace_def set_rev
  by (rule order_trans [OF dropWhile_subset]) (simp add: dropWhile_subset)

lemma TrimSpace_append:
  assumes "trimmed p" and "p \<noteq> []" and "trimmed s" and "s \<noteq> []"
  shows "TrimSpace (p @ q @ s) = p @ q @ s"
  using assms by (intro TrimSpace_id) (auto simp: trimmed_def)

lemma TrimPrefix_append [simp]: "TrimPrefix (p @ s) p = s"
  by (simp add: TrimPrefix_def)

section \<open>SplitN\<close>

text \<open>\<open>strings.SplitN\<close> with a positive limit.\<close>

fun SplitN :: "nat \<Rightarrow> char \<Rightarrow> string \<Rightarrow> string list" where
  "SplitN 0 sep s = []"
| "SplitN (Suc 0) sep s = [s]"
| "SplitN (Suc (Suc n)) sep s =
     (case dropWhile (\<lambda>c. c \<noteq> sep) s of [] \<Rightarrow> [s]
      | _ # t \<Rightarrow> takeWhile (\<lambda>c. c \<noteq> sep) s # SplitN (Suc n) sep t)"

lemma SplitN_3: "sep \<notin> set x \<Longrightarrow> sep \<notin> set y \<Longrightarrow> SplitN 3 sep (x @ sep # y @ sep # z) = [x, y, z]"
proof -
  have p: "sep \<notin> set x \<Longrightarrow> dropWhile (\<lambda>c. c \<noteq> sep) (x @ sep # t) = sep # t \<and>
      takeWhile (\<lambda>c. c \<noteq> sep) (x @ sep # t) = x" for x t
    by (induction x) auto
  assume "sep \<notin> set x" "sep \<notin> set y"
  then show ?thesis by (simp add: p eval_nat_numeral)
qed

section \<open>Fields\<close>

text \<open>\<open>strings.Fields\<close>: the maximal runs without white space.\<close>

fun split_space :: "string \<Rightarrow> string list" where
  "split_space [] = [[]]"
| "split_space (c # cs) =
     (if is_space c then [] # split_space cs
      else case split_space cs of [] \<Rightarrow> [[c]] | s # ss \<Rightarrow> (c # s) # ss)"

definition Fields :: "string \<Rightarrow> string list" where
  "Fields s = filter (\<lambda>f. f \<noteq> []) (split_space s)"

lemma split_space_not_Nil [simp]: "split_space s \<noteq> []"
  by (induction s) (auto split: list.splits)

lemma split_space_append: "is_space c \<Longrightarrow> split_space (s @ c # t) = split_space s @ split_space t"
  by (induction s) (auto split: list.splits)

lemma Fields_append: "is_space c \<Longrightarrow> Fields (s @ c # t) = Fields s @ Fields t"
  by (simp add: Fields_def split_space_append)

definition token :: "string \<Rightarrow> bool" where
  "token s \<longleftrightarrow> s \<noteq> [] \<and> (\<forall>c \<in> set s. \<not> is_space c)"

lemma split_space_token: "\<forall>c \<in> set s. \<not> is_space c \<Longrightarrow> split_space s = [s]"
  by (induction s) auto

lemma Fields_token: "token s \<Longrightarrow> Fields s = [s]"
  by (simp add: token_def Fields_def split_space_token)

lemma Fields_Nil [simp]: "Fields [] = []"
  by (simp add: Fields_def)

lemma Fields_Join: "\<forall>s \<in> set ss. token s \<Longrightarrow> is_space c \<Longrightarrow> Fields (Join ss [c]) = ss"
  by (induction ss "[c]" rule: Join.induct) (simp_all add: Fields_token Fields_append)

lemma Fields_space: "is_space c \<Longrightarrow> Fields (c # s) = Fields s"
  using Fields_append [of c "[]" s] by simp

lemma Fields_dropWhile: "Fields (dropWhile is_space s) = Fields s"
  by (induction s) (simp_all add: Fields_space)

lemma Fields_spaces: "\<forall>c \<in> set t. is_space c \<Longrightarrow> Fields t = []"
  by (induction t) (simp_all add: Fields_space)

lemma Fields_trailing: "\<forall>c \<in> set t. is_space c \<Longrightarrow> Fields (s @ t) = Fields s"
  by (cases t) (simp_all add: Fields_append Fields_spaces)

lemma Fields_TrimSpace: "Fields (TrimSpace s) = Fields s"
proof -
  let ?u = "dropWhile is_space s"
  have u: "?u = rev (dropWhile is_space (rev ?u)) @ rev (takeWhile is_space (rev ?u))"
    by (metis rev_append rev_rev_ident takeWhile_dropWhile_id)
  have "Fields ?u = Fields (rev (dropWhile is_space (rev ?u)))"
    by (subst u) (rule Fields_trailing, auto dest: set_takeWhileD)
  then show ?thesis
    by (simp add: TrimSpace_def Fields_dropWhile)
qed

section \<open>Words\<close>

lemma TrimSpace_line:
  assumes "trimmed x"
  shows "TrimSpace (x @ [newline]) = x"
proof (cases "x = []")
  case False
  then have "dropWhile is_space (x @ [newline]) = x @ [newline]" "dropWhile is_space (rev x) = rev x"
    using assms by (auto intro!: dropWhile_id simp: trimmed_def hd_rev)
  then show ?thesis by (simp add: TrimSpace_def newline_def is_space_def)
qed (simp add: TrimSpace_def newline_def is_space_def)

lemma trimmed_Join: "ss \<noteq> [] \<Longrightarrow> \<forall>s \<in> set ss. token s \<Longrightarrow> trimmed (Join ss [c]) \<and> Join ss [c] \<noteq> []"
  by (induction ss "[c]" rule: Join.induct) (auto simp: token_def trimmed_def)

lemma set_Join: "set (Join ss sep) \<subseteq> \<Union> (set ` set ss) \<union> set sep"
  by (induction ss sep rule: Join.induct) auto

lemma token_trimmed: "token s \<Longrightarrow> trimmed s \<and> s \<noteq> [] \<and> newline \<notin> set s"
  by (auto simp: token_def trimmed_def newline_def is_space_def)

lemma token_Fields: "s \<in> set (Fields t) \<Longrightarrow> token s"
proof -
  have "\<forall>s \<in> set (split_space t). \<forall>c \<in> set s. \<not> is_space c"
    by (induction t) (auto split: list.splits if_splits)
  then show "s \<in> set (Fields t) \<Longrightarrow> token s" by (auto simp: Fields_def token_def)
qed

lemma Fields_lines: "concat (map Fields (Split newline s)) = Fields s"
proof (induction s rule: length_induct)
  case (1 s)
  show ?case
  proof (cases "newline \<in> set s")
    case True
    then obtain a b where s: "s = a @ newline # b" "newline \<notin> set a" by (meson split_list_first)
    have "is_space newline" by (simp add: newline_def is_space_def)
    with 1 s show ?thesis by (simp add: Split_append Fields_append)
  qed (simp add: Split_single)
qed

end
