(* ===== verification/Dns_Server.thy ===== *)
theory Dns_Server
  imports Go_Net Go_Strings
begin

text \<open>
  The built-in resolver: upstream selection and fallback (\<open>src/pkg/dns/doh.go\<close>) and the
  local server with its per-address queue of names (\<open>src/pkg/dns/server.go\<close>).

  The message codec of miekg/dns (\<open>Pack\<close>, \<open>Unpack\<close>), the HTTP exchange, and the printed
  form of an address are arguments; the theorems hold for all of them.
\<close>

section \<open>Upstreams\<close>

text \<open>The presets, as the code's map literal.\<close>

definition Presets :: "(string \<times> string) list" where
  "Presets = [
     (''cloudflare'', ''https://1.1.1.1/dns-query''),
     (''google'', ''https://8.8.8.8/dns-query''),
     (''quad9'', ''https://9.9.9.9:5053/dns-query''),
     (''nextdns'', ''https://dns.nextdns.io/dns-query''),
     (''adguard'', ''https://dns.adguard-dns.com/dns-query'')]"

datatype dns_error =
    RequestError
  | StatusError nat
  | BodyError

record ResolveResult =
  Data :: bytes
  Via :: string

text \<open>A DoH client: the URL it posts to and the name it reports.\<close>

record DoHClient =
  upstream :: string
  name :: string

text \<open>The outcome of the HTTP exchange: no response, or a status with a body that may not be read.\<close>

datatype http_outcome =
    NoResponse
  | Response nat "bytes option"

type_synonym http = "string \<Rightarrow> bytes \<Rightarrow> http_outcome"

definition DoH_Resolve :: "http \<Rightarrow> DoHClient \<Rightarrow> bytes \<Rightarrow> dns_error + ResolveResult" where
  "DoH_Resolve http d query =
     (case http (upstream d) query of
        NoResponse \<Rightarrow> Inl RequestError
      | Response status body \<Rightarrow>
          if status \<noteq> 200 then Inl (StatusError status)
          else (case body of
                  None \<Rightarrow> Inl BodyError
                | Some data \<Rightarrow> Inr \<lparr>Data = data, Via = name d\<rparr>))"

text \<open>
  The loop over the clients; \<open>lastErr\<close> is nil before the first failure, and a loop over no
  client returns the empty result with that nil error.
\<close>

fun fallback_loop ::
    "http \<Rightarrow> DoHClient list \<Rightarrow> bytes \<Rightarrow> dns_error option \<Rightarrow> dns_error + ResolveResult" where
  "fallback_loop http [] query lastErr =
     (case lastErr of None \<Rightarrow> Inr \<lparr>Data = [], Via = []\<rparr> | Some e \<Rightarrow> Inl e)"
| "fallback_loop http (c # cs) query lastErr =
     (case DoH_Resolve http c query of
        Inr result \<Rightarrow> Inr result
      | Inl e \<Rightarrow> fallback_loop http cs query (Some e))"

datatype Resolver =
    Single DoHClient
  | FallbackResolver "DoHClient list"

definition Resolve :: "http \<Rightarrow> Resolver \<Rightarrow> bytes \<Rightarrow> dns_error + ResolveResult" where
  "Resolve http r query =
     (case r of
        Single d \<Rightarrow> DoH_Resolve http d query
      | FallbackResolver cs \<Rightarrow> fallback_loop http cs query None)"

definition Resolver_Name :: "Resolver \<Rightarrow> string" where
  "Resolver_Name r =
     (case r of
        Single d \<Rightarrow> name d
      | FallbackResolver cs \<Rightarrow> Join (map name cs) '','')"

text \<open>
  \<open>mk\<close> is the construction of a client from a URL and a name (\<open>NewDoHClient\<close>, which looks
  up the host of the URL).
\<close>

definition resolver_client :: "(string \<Rightarrow> string \<Rightarrow> DoHClient) \<Rightarrow> string \<Rightarrow> DoHClient" where
  "resolver_client mk u =
     (let u = TrimSpace u in
      case map_of Presets u of
        Some url \<Rightarrow> mk url u
      | None \<Rightarrow> mk u u)"

definition NewResolver :: "(string \<Rightarrow> string \<Rightarrow> DoHClient) \<Rightarrow> string \<Rightarrow> Resolver" where
  "NewResolver mk upstreams =
     (let clients = map (resolver_client mk) (Split CHR '','' upstreams)
      in if length clients = 1 then Single (clients ! 0) else FallbackResolver clients)"

section \<open>The server\<close>

datatype rr = A ip | AAAA ip | OtherRR

record dns_msg =
  Id :: "16 word"
  Question :: "(string \<times> 16 word) list"
  Answer :: "rr list"

definition TypeA :: "16 word" where "TypeA = 1"
definition TypeAAAA :: "16 word" where "TypeAAAA = 28"
definition RcodeServerFailure :: nat where "RcodeServerFailure = 2"

type_synonym ip_queue = "string \<rightharpoonup> string list"

text \<open>A missing key reads as the nil slice.\<close>

definition queue_of :: "ip_queue \<Rightarrow> string \<Rightarrow> string list" where
  "queue_of q ip = (case q ip of None \<Rightarrow> [] | Some ds \<Rightarrow> ds)"

definition PopDomain :: "string \<Rightarrow> ip_queue \<Rightarrow> string \<times> ip_queue" where
  "PopDomain ip s =
     (let q = queue_of s ip in
      if length q = 0 then ('''', s)
      else
        let domain = q ! 0 in
        if length q = 1 then (domain, s(ip := None))
        else (domain, s(ip \<mapsto> drop 1 q)))"

definition push_domain :: "string \<Rightarrow> string \<Rightarrow> ip_queue \<Rightarrow> ip_queue" where
  "push_domain ip domain s = s(ip \<mapsto> queue_of s ip @ [domain])"

text \<open>What the server sends back: an error code for the request, or a message.\<close>

datatype reply = SetRcode dns_msg nat | WriteMsg dns_msg

fun rr_ips :: "(ip \<Rightarrow> string) \<Rightarrow> rr \<Rightarrow> string list" where
  "rr_ips str (A i) = [str i]"
| "rr_ips str (AAAA i) = [str i]"
| "rr_ips str OtherRR = []"

definition answer_ips :: "(ip \<Rightarrow> string) \<Rightarrow> dns_msg \<Rightarrow> string list" where
  "answer_ips str resp = concat (map (rr_ips str) (Answer resp))"

text \<open>The messages codec, the resolver and the printed form of addresses.\<close>

record dns_env =
  pack :: "dns_msg \<Rightarrow> bytes option"
  unpack :: "bytes \<Rightarrow> dns_msg option"
  resolver :: "bytes \<Rightarrow> dns_error + ResolveResult"
  ip_str :: "ip \<Rightarrow> string"

definition handleQuery :: "dns_env \<Rightarrow> dns_msg \<Rightarrow> ip_queue \<Rightarrow> reply \<times> ip_queue" where
  "handleQuery env r s =
     (case pack env r of
        None \<Rightarrow> (SetRcode r RcodeServerFailure, s)
      | Some queryBytes \<Rightarrow>
          (case resolver env queryBytes of
             Inl _ \<Rightarrow> (SetRcode r RcodeServerFailure, s)
           | Inr result \<Rightarrow>
               (case unpack env (Data result) of
                  None \<Rightarrow> (SetRcode r RcodeServerFailure, s)
                | Some resp \<Rightarrow>
                    let resp = resp\<lparr>Id := Id r\<rparr> in
                    (WriteMsg resp,
                     if length (Question r) > 0 \<and> length (Answer resp) > 0 then
                       let q = Question r ! 0 in
                       if snd q = TypeA \<or> snd q = TypeAAAA then
                         let domain = TrimSuffix (fst q) ''.''
                         in fold (\<lambda>ip. push_domain ip domain) (answer_ips (ip_str env) resp) s
                       else s
                     else s))))"

section \<open>The queue contract\<close>

text \<open>
  Per-key first-in first-out queues with a default for an empty one.  The client lemmas say
  what any mix of pushes and pops returns.
\<close>

locale keyed_fifo =
  fixes view :: "'s \<Rightarrow> 'k \<Rightarrow> 'v list" and push :: "'k \<Rightarrow> 'v \<Rightarrow> 's \<Rightarrow> 's" and pop :: "'k \<Rightarrow> 's \<Rightarrow> 'v \<times> 's"
    and none :: 'v
  assumes view_push: "view (push k v s) k' = (if k' = k then view s k @ [v] else view s k')"
    and pop_result: "fst (pop k s) = (case view s k of [] \<Rightarrow> none | v # _ \<Rightarrow> v)"
    and view_pop: "view (snd (pop k s)) k' = (if k' = k then tl (view s k) else view s k')"
begin

lemma view_pushes: "view (fold (\<lambda>k. push k v) ks s) k = view s k @ replicate (count_list ks k) v"
  by (induction ks arbitrary: s) (auto simp: view_push replicate_app_Cons_same)

fun pops :: "'k \<Rightarrow> nat \<Rightarrow> 's \<Rightarrow> 'v list \<times> 's" where
  "pops k 0 s = ([], s)"
| "pops k (Suc n) s = (let (v, s) = pop k s; (vs, s) = pops k n s in (v # vs, s))"

lemma pops_view:
  "n \<le> length (view s k) \<Longrightarrow> fst (pops k n s) = take n (view s k)"
proof (induction n arbitrary: s)
  case (Suc n)
  then obtain v vs where v: "view s k = v # vs" by (cases "view s k") auto
  with Suc view_pop [of k s k] pop_result [of k s] show ?case
    by (simp add: Let_def split: prod.splits)
      (metis fst_conv snd_conv)
qed simp

end

lemma queue_of_upd [simp]: "queue_of (s(ip := x)) ip' = (if ip' = ip then (case x of None \<Rightarrow> [] | Some ds \<Rightarrow> ds) else queue_of s ip')"
  by (simp add: queue_of_def)

interpretation names: keyed_fifo queue_of push_domain PopDomain "[]"
proof
  fix ip ip' :: string and d and s :: ip_queue
  show "queue_of (push_domain ip d s) ip' = (if ip' = ip then queue_of s ip @ [d] else queue_of s ip')"
    by (simp add: push_domain_def)
  show "fst (PopDomain ip s) = (case queue_of s ip of [] \<Rightarrow> [] | v # _ \<Rightarrow> v)"
    by (cases "queue_of s ip") (simp_all add: PopDomain_def Let_def)
  show "queue_of (snd (PopDomain ip s)) ip' = (if ip' = ip then tl (queue_of s ip) else queue_of s ip')"
    by (cases "queue_of s ip") (auto simp: PopDomain_def Let_def)
qed

section \<open>Runs of the server\<close>

datatype dns_op = Query dns_msg | Pop string

definition dns_step :: "dns_env \<Rightarrow> dns_op \<Rightarrow> ip_queue \<Rightarrow> ip_queue" where
  "dns_step env o1 s = (case o1 of Query r \<Rightarrow> snd (handleQuery env r s) | Pop ip \<Rightarrow> snd (PopDomain ip s))"

definition dns_run :: "dns_env \<Rightarrow> dns_op list \<Rightarrow> ip_queue \<Rightarrow> ip_queue" where
  "dns_run env ops s = fold (dns_step env) ops s"

fun PopDomains :: "string \<Rightarrow> nat \<Rightarrow> ip_queue \<Rightarrow> string list" where
  "PopDomains ip 0 s = []"
| "PopDomains ip (Suc n) s = (let (d, s) = PopDomain ip s in d # PopDomains ip n s)"

lemma PopDomains_pops: "PopDomains ip n s = fst (names.pops ip n s)"
  by (induction n arbitrary: s) (auto simp: Let_def split: prod.splits)

text \<open>The message a request is answered with, and the names it queues for an address.\<close>

definition resolved :: "dns_env \<Rightarrow> dns_msg \<Rightarrow> dns_msg option" where
  "resolved env r =
     (case pack env r of
        None \<Rightarrow> None
      | Some b \<Rightarrow> (case resolver env b of Inl _ \<Rightarrow> None | Inr res \<Rightarrow> unpack env (Data res)))"

definition names_for :: "dns_env \<Rightarrow> string \<Rightarrow> dns_msg \<Rightarrow> string list" where
  "names_for env ip r =
     (case resolved env r of
        None \<Rightarrow> []
      | Some resp \<Rightarrow>
          if Question r \<noteq> [] \<and> snd (hd (Question r)) \<in> {TypeA, TypeAAAA}
          then replicate (count_list (answer_ips (ip_str env) resp) ip) (TrimSuffix (fst (hd (Question r))) ''.'')
          else [])"

lemma handleQuery_resolved:
  "handleQuery env r s =
     (case resolved env r of
        None \<Rightarrow> (SetRcode r RcodeServerFailure, s)
      | Some resp \<Rightarrow>
          (WriteMsg (resp\<lparr>Id := Id r\<rparr>),
           if Question r \<noteq> [] \<and> snd (hd (Question r)) \<in> {TypeA, TypeAAAA}
           then fold (\<lambda>ip. push_domain ip (TrimSuffix (fst (hd (Question r))) ''.''))
                  (answer_ips (ip_str env) resp) s
           else s))"
  by (auto simp: handleQuery_def resolved_def Let_def answer_ips_def hd_conv_nth split: option.splits sum.splits)

lemma queue_of_handleQuery:
  "queue_of (snd (handleQuery env r s)) ip = queue_of s ip @ names_for env ip r"
  by (simp add: handleQuery_resolved names_for_def names.view_pushes split: option.split)

lemma queue_of_queries:
  "queue_of (dns_run env (map Query rs) s) ip = queue_of s ip @ concat (map (names_for env ip) rs)"
  by (induction rs arbitrary: s) (simp_all add: dns_run_def dns_step_def queue_of_handleQuery)

definition no_empty_queue :: "ip_queue \<Rightarrow> bool" where
  "no_empty_queue s \<longleftrightarrow> (\<forall>ip. s ip \<noteq> Some [])"

lemma no_empty_push: "no_empty_queue s \<Longrightarrow> no_empty_queue (push_domain ip d s)"
  by (simp add: no_empty_queue_def push_domain_def)

lemma no_empty_pushes: "no_empty_queue s \<Longrightarrow> no_empty_queue (fold (\<lambda>ip. push_domain ip d) ips s)"
  by (induction ips arbitrary: s) (simp_all add: no_empty_push)

lemma no_empty_pop: "no_empty_queue s \<Longrightarrow> no_empty_queue (snd (PopDomain ip s))"
  by (cases "queue_of s ip") (auto simp: no_empty_queue_def PopDomain_def Let_def)

lemma no_empty_step: "no_empty_queue s \<Longrightarrow> no_empty_queue (dns_step env o1 s)"
  by (cases o1) (auto simp: dns_step_def handleQuery_resolved no_empty_pop no_empty_pushes split: option.split)

lemma no_empty_run: "no_empty_queue s \<Longrightarrow> no_empty_queue (dns_run env ops s)"
  unfolding dns_run_def by (induction ops arbitrary: s) (simp_all add: no_empty_step)

section \<open>A concrete server\<close>

text \<open>One name, two addresses, and the same address again for a second name.\<close>

definition demo_query :: "string \<Rightarrow> dns_msg" where
  "demo_query n = \<lparr>Id = 7, Question = [(n, TypeA)], Answer = []\<rparr>"

definition demo_dns :: dns_env where
  "demo_dns = \<lparr>pack = (\<lambda>_. Some []),
     unpack = (\<lambda>_. Some \<lparr>Id = 0, Question = [], Answer = [A [1, 2, 3, 4], A [5, 6, 7, 8], OtherRR]\<rparr>),
     resolver = (\<lambda>_. Inr \<lparr>Data = [], Via = []\<rparr>), ip_str = (\<lambda>i. map (\<lambda>b. char_of (unat b)) i)\<rparr>"

section \<open>Properties\<close>

text \<open>
  The names recorded for an address are handed out in the order in which the server
  answered with that address, one per answer record: after any sequence of queries on a
  fresh server, \<open>PopDomain\<close> returns them first in, first out.
\<close>

theorem PopDomain_fifo:
  assumes "n \<le> length (concat (map (names_for env ip) rs))"
  shows "PopDomains ip n (dns_run env (map Query rs) Map.empty) =
    take n (concat (map (names_for env ip) rs))"
  using assms names.pops_view [of n "dns_run env (map Query rs) Map.empty" ip]
  by (simp add: PopDomains_pops queue_of_queries) (simp add: queue_of_def)

theorem PopDomain_fifo_witness:
  "PopDomains (map char_of [1, 2, 3, 4 :: nat]) 2
     (dns_run demo_dns (map Query [demo_query ''a.example.'', demo_query ''b.example.'']) Map.empty) =
   [''a.example'', ''b.example'']"
  using PopDomain_fifo [of 2 demo_dns "map char_of [1, 2, 3, 4 :: nat]" "[demo_query ''a.example.'', demo_query ''b.example.'']"]
  by (simp add: names_for_def resolved_def demo_dns_def demo_query_def answer_ips_def TrimSuffix_def
      suffix_to_prefix)

text \<open>
  The queue map holds no empty queue, whatever mix of queries and pops it has seen: an
  address whose names have all been handed out takes no memory.
\<close>

theorem ip_queue_never_empty:
  "dns_run env ops Map.empty ip \<noteq> Some []"
  using no_empty_run [of Map.empty env ops] by (simp add: no_empty_queue_def)

text \<open>
  Every query is answered exactly once: with a server failure for the request, and then
  nothing is recorded, when packing, resolving or unpacking fails, and otherwise with the
  upstream's message under the request's identifier, and then each address answered to an A
  or AAAA question gains the question's name without its trailing dot.
\<close>

theorem handleQuery_reply:
  "handleQuery env r s =
     (case resolved env r of
        None \<Rightarrow> (SetRcode r RcodeServerFailure, s)
      | Some resp \<Rightarrow> (WriteMsg (resp\<lparr>Id := Id r\<rparr>), snd (handleQuery env r s))) \<and>
   queue_of (snd (handleQuery env r s)) ip = queue_of s ip @ names_for env ip r"
  by (simp add: queue_of_handleQuery) (simp add: handleQuery_resolved split: option.split)

lemma fallback_loop_first:
  "fallback_loop http cs query lastErr =
     (case List.find (\<lambda>r. \<not> isl r) (map (\<lambda>c. DoH_Resolve http c query) cs) of
        Some r \<Rightarrow> r
      | None \<Rightarrow> (case cs of
                    [] \<Rightarrow> fallback_loop http [] query lastErr
                  | _ \<Rightarrow> DoH_Resolve http (last cs) query))"
  by (induction cs arbitrary: lastErr) (auto split: sum.splits list.splits option.splits)

text \<open>
  The resolver built from a comma-separated list asks the upstreams in the order given and
  returns the first success; only when all fail does it fail, with the last upstream's error,
  and it never returns the empty result that a fallback over no upstream would.
\<close>

theorem NewResolver_first_success:
  "Resolve http (NewResolver mk upstreams) query =
     (let results = map (\<lambda>u. DoH_Resolve http (resolver_client mk u) query) (Split CHR '','' upstreams)
      in case List.find (\<lambda>r. \<not> isl r) results of Some r \<Rightarrow> r | None \<Rightarrow> last results)"
proof -
  obtain u us where u: "Split CHR '','' upstreams = u # us"
    by (cases "Split CHR '','' upstreams") auto
  show ?thesis
  proof (cases us)
    case Nil
    then show ?thesis
      by (simp add: NewResolver_def Let_def u Resolve_def)
  next
    case (Cons v vs)
    then show ?thesis
      using fallback_loop_first [of http "map (resolver_client mk) (u # us)" query None]
      by (auto simp: NewResolver_def Let_def u Resolve_def comp_def last_map split: option.splits)
  qed
qed

end
