(* ===== verification/Go_Ip.thy ===== *)
theory Go_Ip
  imports Go_Net Go_Strings
begin

text \<open>
  Addresses in text: \<open>net.ParseIP\<close> of Go's standard library (dotted decimal and IPv6 with its
  ellipsis and its trailing IPv4 part; a zone is refused), the printed form of an IPv4
  address, and the two classes of addresses the program asks about.
\<close>

section \<open>Classes of addresses\<close>

definition IsLoopback :: "ip \<Rightarrow> bool" where
  "IsLoopback p = (case To4 p of Some q \<Rightarrow> q ! 0 = 127 | None \<Rightarrow> p = replicate 15 0 @ [1])"

definition IsLinkLocalUnicast :: "ip \<Rightarrow> bool" where
  "IsLinkLocalUnicast p =
     (case To4 p of
        Some q \<Rightarrow> q ! 0 = 169 \<and> q ! 1 = 254
      | None \<Rightarrow> length p = 16 \<and> p ! 0 = 0xfe \<and> and (p ! 1) 0xc0 = 0x80)"

section \<open>IPv4\<close>

definition hex_value :: "char \<Rightarrow> nat option" where
  "hex_value c =
     (let n = of_char c :: nat in
      if 48 \<le> n \<and> n \<le> 57 then Some (n - 48)
      else if 97 \<le> n \<and> n \<le> 102 then Some (n - 87)
      else if 65 \<le> n \<and> n \<le> 70 then Some (n - 55)
      else None)"

definition digit_value :: "char \<Rightarrow> nat option" where
  "digit_value c = (let n = of_char c :: nat in if 48 \<le> n \<and> n \<le> 57 then Some (n - 48) else None)"

fun decimal :: "nat \<Rightarrow> string \<Rightarrow> nat option" where
  "decimal v [] = Some v"
| "decimal v (c # cs) = (case digit_value c of None \<Rightarrow> None | Some d \<Rightarrow> decimal (10 * v + d) cs)"

text \<open>A field of a dotted address: digits, no leading zero, at most 255.\<close>

definition parse_octet :: "string \<Rightarrow> u8 option" where
  "parse_octet s =
     (if s = [] \<or> (length s > 1 \<and> hd s = CHR ''0'') then None
      else (case decimal 0 s of
              None \<Rightarrow> None
            | Some v \<Rightarrow> if v > 255 then None else Some (of_nat v)))"

definition parse_ipv4 :: "string \<Rightarrow> bytes option" where
  "parse_ipv4 s =
     (case map parse_octet (Split CHR ''.'' s) of
        [Some a, Some b, Some c, Some d] \<Rightarrow> Some [a, b, c, d]
      | _ \<Rightarrow> None)"

section \<open>IPv6\<close>

definition is_hex :: "char \<Rightarrow> bool" where
  "is_hex c \<longleftrightarrow> hex_value c \<noteq> None"

definition hex_number :: "string \<Rightarrow> nat" where
  "hex_number s = foldl (\<lambda>v c. 16 * v + (case hex_value c of Some d \<Rightarrow> d | None \<Rightarrow> 0)) 0 s"

text \<open>
  The loop over the groups: how many may still come, the rest of the text, the bytes so far
  and the place of the ellipsis.
\<close>

fun v6_groups :: "nat \<Rightarrow> string \<Rightarrow> bytes \<Rightarrow> nat option \<Rightarrow> (bytes \<times> nat option) option" where
  "v6_groups 0 s ip e = (if s = [] then Some (ip, e) else None)"
| "v6_groups (Suc k) s ip e =
     (let h = takeWhile is_hex s; r = dropWhile is_hex s in
      if h = [] \<or> length h > 4 then None
      else if r \<noteq> [] \<and> hd r = CHR ''.'' then
        if e = None \<and> length ip \<noteq> 12 then None
        else if length ip + 4 > 16 then None
        else map_option (\<lambda>q. (ip @ q, e)) (parse_ipv4 s)
      else
        let ip = ip @ be16 (of_nat (hex_number h)) in
        if r = [] then Some (ip, e)
        else if hd r \<noteq> CHR '':'' \<or> length r = 1 then None
        else
          let s = tl r in
          if hd s = CHR '':'' then
            if e \<noteq> None then None
            else if tl s = [] then Some (ip, Some (length ip))
            else v6_groups k (tl s) ip (Some (length ip))
          else v6_groups k s ip e)"

definition parse_ipv6 :: "string \<Rightarrow> bytes option" where
  "parse_ipv6 s =
     (let leading = prefix ''::'' s; s = (if leading then drop 2 s else s) in
      if leading \<and> s = [] then Some (replicate 16 0)
      else (case v6_groups 8 s [] (if leading then Some 0 else None) of
              None \<Rightarrow> None
            | Some (ip, e) \<Rightarrow>
                if length ip < 16 then
                  map_option (\<lambda>p. take p ip @ replicate (16 - length ip) 0 @ drop p ip) e
                else if e \<noteq> None then None
                else Some ip))"

section \<open>net.ParseIP\<close>

definition ParseIP :: "string \<Rightarrow> ip option" where
  "ParseIP s =
     (case dropWhile (\<lambda>c. c \<notin> {CHR ''.'', CHR '':'', CHR ''%''}) s of
        [] \<Rightarrow> None
      | c # _ \<Rightarrow>
          if c = CHR ''.'' then map_option ((@) v4_in_v6_prefix) (parse_ipv4 s)
          else if c = CHR '':'' \<and> CHR ''%'' \<notin> set s then parse_ipv6 s
          else None)"

text \<open>\<open>IP.String\<close> of an IPv4 address.\<close>

definition digit_char :: "nat \<Rightarrow> char" where
  "digit_char n = char_of (48 + n)"

definition print_octet :: "u8 \<Rightarrow> string" where
  "print_octet b =
     (let n = unat b in
      if n < 10 then [digit_char n]
      else if n < 100 then [digit_char (n div 10), digit_char (n mod 10)]
      else [digit_char (n div 100), digit_char (n div 10 mod 10), digit_char (n mod 10)])"

definition print_ipv4 :: "bytes \<Rightarrow> string" where
  "print_ipv4 q = Join (map print_octet q) ''.''"

section \<open>Round trip\<close>

lemma digit_value_char [simp]: "n < 10 \<Longrightarrow> digit_value (digit_char n) = Some n"
  by (simp add: digit_value_def digit_char_def)

lemma unat_u8: "unat (b :: u8) < 256"
  using unsigned_less [of b, where ?'a = nat] by simp

lemma digit_char_zero: "n < 10 \<Longrightarrow> digit_char n = CHR ''0'' \<longleftrightarrow> n = 0"
proof
  have z: "digit_char 0 = CHR ''0''" by code_simp
  then show "n = 0 \<Longrightarrow> digit_char n = CHR ''0''" by simp
  assume "n < 10" "digit_char n = CHR ''0''"
  then show "n = 0" using digit_value_char [of n] digit_value_char [of 0] z by simp
qed

definition print_decimal :: "nat \<Rightarrow> string" where
  "print_decimal n =
     (if n < 10 then [digit_char n]
      else if n < 100 then [digit_char (n div 10), digit_char (n mod 10)]
      else [digit_char (n div 100), digit_char (n div 10 mod 10), digit_char (n mod 10)])"

text \<open>\<open>%d\<close> of any number that is not negative, and what reads it back.\<close>

fun print_nat :: "nat \<Rightarrow> string" where
  "print_nat n = (if n < 10 then [digit_char n] else print_nat (n div 10) @ [digit_char (n mod 10)])"

declare print_nat.simps [simp del]

lemma digit_chars:
  "digit_char 0 = CHR ''0''" "digit_char 1 = CHR ''1''" "digit_char 2 = CHR ''2''" "digit_char 3 = CHR ''3''" "digit_char 4 = CHR ''4''" 
  "digit_char 5 = CHR ''5''" "digit_char 6 = CHR ''6''" "digit_char 7 = CHR ''7''" "digit_char 8 = CHR ''8''" "digit_char 9 = CHR ''9''"
  by code_simp+

lemma digit_value_some: "digit_value c = Some d \<Longrightarrow> d < 10 \<and> digit_char d = c"
  by (auto simp: digit_value_def digit_char_def Let_def split: if_splits)

lemma decimal_snoc:
  "decimal a (s @ [c]) = (case decimal a s of None \<Rightarrow> None | Some v \<Rightarrow> map_option (\<lambda>d. 10 * v + d) (digit_value c))"
  by (induction s arbitrary: a) (auto split: option.split)

lemma print_nat_digits:
  "s \<noteq> [] \<Longrightarrow> hd s \<noteq> CHR ''0'' \<Longrightarrow> \<forall>c \<in> set s. digit_value c \<noteq> None \<Longrightarrow>
   \<exists>v > 0. decimal 0 s = Some v \<and> print_nat v = s"
proof (induction s rule: rev_induct)
  case (snoc c s)
  from snoc.prems(3) obtain d where "digit_value c = Some d" by auto
  then have d: "digit_value c = Some d" "d < 10" "digit_char d = c" using digit_value_some by blast+
  show ?case
  proof (cases "s = []")
    case True
    with snoc.prems(2) d digit_char_zero [OF d(2)] show ?thesis by (simp add: print_nat.simps)
  next
    case False
    with snoc obtain v where v: "v > 0" "decimal 0 s = Some v" "print_nat v = s" by auto
    have "print_nat (10 * v + d) = s @ [c]" using v(1,3) d(2,3) by (simp add: print_nat.simps [of "10 * v + d"])
    with v d show ?thesis by (intro exI [of _ "10 * v + d"]) (simp add: decimal_snoc)
  qed
qed simp

lemma decimal_print_nat: "decimal 0 (print_nat n) = Some n"
proof (induction n rule: print_nat.induct)
  case (1 n)
  show ?case
  proof (cases "n < 10")
    case True
    then show ?thesis by (simp add: print_nat.simps)
  next
    case False
    with 1 show ?thesis by (subst print_nat.simps) (simp add: decimal_snoc)
  qed
qed

lemma print_nat_shape:
  "print_nat n \<noteq> []" "\<forall>c \<in> set (print_nat n). digit_value c \<noteq> None" "n > 0 \<Longrightarrow> hd (print_nat n) \<noteq> CHR ''0''"
proof (induction n rule: print_nat.induct)
  case (1 n)
  {
    case 1
    show ?case by (subst print_nat.simps) simp
  next
    case 2
    show ?case
    proof (cases "n < 10")
      case False
      with "1.IH"(2) show ?thesis by (subst print_nat.simps) auto
    qed (simp add: print_nat.simps)
  next
    case 3
    show ?case
    proof (cases "n < 10")
      case True
      with 3 show ?thesis by (simp add: print_nat.simps digit_char_zero)
    next
      case False
      with "1.IH"(1,3) show ?thesis by (subst print_nat.simps) simp
    qed
  }
qed

lemma print_octet_decimal: "print_octet b = print_decimal (unat b)"
  by (simp add: print_octet_def print_decimal_def Let_def)

lemma parse_octet_digits:
  "x < 10 \<Longrightarrow> parse_octet [digit_char x] = Some (of_nat x)"
  "x < 10 \<Longrightarrow> x \<noteq> 0 \<Longrightarrow> y < 10 \<Longrightarrow> parse_octet [digit_char x, digit_char y] = Some (of_nat (10 * x + y))"
  "x < 10 \<Longrightarrow> x \<noteq> 0 \<Longrightarrow> y < 10 \<Longrightarrow> z < 10 \<Longrightarrow> 10 * (10 * x + y) + z < 256 \<Longrightarrow>
    parse_octet [digit_char x, digit_char y, digit_char z] = Some (of_nat (10 * (10 * x + y) + z))"
  by (simp_all add: parse_octet_def digit_char_zero del: of_nat_add of_nat_mult)

lemma parse_print_decimal:
  assumes "n < 256"
  shows "parse_octet (print_decimal n) = Some (of_nat n)"
proof -
  from assms consider "n < 10" | "10 \<le> n" "n < 100" | "100 \<le> n" by linarith
  then show ?thesis
  proof cases
    case 1
    then show ?thesis by (simp add: print_decimal_def parse_octet_digits)
  next
    case 2
    then have "n div 10 < 10" "n div 10 \<noteq> 0" "n mod 10 < 10" by auto
    from parse_octet_digits(2) [OF this] 2 show ?thesis by (simp only: mult_div_mod_eq) (simp add: print_decimal_def)
  next
    case 3
    have n: "10 * (10 * (n div 100) + n div 10 mod 10) + n mod 10 = n"
    proof -
      have "n div 100 = n div 10 div 10" by (simp add: div_mult2_eq [symmetric])
      then show ?thesis by (simp only: mult_div_mod_eq)
    qed
    have "n div 100 < 10" "n div 100 \<noteq> 0" "n div 10 mod 10 < 10" "n mod 10 < 10"
      using 3 assms by linarith+
    from parse_octet_digits(3) [OF this, unfolded n, OF assms] have parsed: "parse_octet [digit_char (n div 100), digit_char (n div 10 mod 10), digit_char (n mod 10)] = Some (of_nat n)" .
    have "\<not> n < 10" "\<not> n < 100" using 3 by linarith+
    then have "print_decimal n = [digit_char (n div 100), digit_char (n div 10 mod 10), digit_char (n mod 10)]"
      by (simp only: print_decimal_def if_False)
    with parsed show ?thesis by (simp only:)
  qed
qed

lemma parse_print_octet: "parse_octet (print_octet b) = Some b"
  using parse_print_decimal [OF unat_u8 [of b]] by (simp add: print_octet_decimal)

lemma print_octet_chars: "set (print_octet b) \<subseteq> digit_char ` {..<10}"
proof -
  have "unat b < 256" by (rule unat_u8)
  then have "unat b div 10 < 10 \<or> unat b \<ge> 100" "unat b div 100 < 10" by auto
  then show ?thesis by (auto simp: print_octet_def Let_def)
qed

lemma digit_char_plain: "n < 10 \<Longrightarrow> digit_char n \<notin> {CHR ''.'', CHR '':'', CHR ''%''}"
  using digit_value_char [of n] by (auto simp: digit_value_def)

lemma print_octet_plain: "c \<in> {CHR ''.'', CHR '':'', CHR ''%''} \<Longrightarrow> c \<notin> set (print_octet b)"
  using print_octet_chars [of b] digit_char_plain by (smt (verit) imageE lessThan_iff subsetD)

lemma ParseIP_print:
  assumes "length q = 4"
  shows "ParseIP (print_ipv4 q) = Some (v4_in_v6_prefix @ q)"
proof -
  obtain a b c d where q: "q = [a, b, c, d]" using assms by (auto simp: numeral_eq_Suc length_Suc_conv)
  let ?p = "print_octet"
  have s: "print_ipv4 q = ?p a @ CHR ''.'' # ?p b @ CHR ''.'' # ?p c @ CHR ''.'' # ?p d"
    by (simp add: print_ipv4_def q)
  have n: "CHR ''.'' \<notin> set (?p x)" for x using print_octet_plain by blast
  have "Split CHR ''.'' (print_ipv4 q) = [?p a, ?p b, ?p c, ?p d]"
    unfolding s using n by (simp add: Split_append Split_single)
  then have "parse_ipv4 (print_ipv4 q) = Some q" by (simp add: parse_ipv4_def parse_print_octet q)
  moreover have "dropWhile (\<lambda>c. c \<notin> {CHR ''.'', CHR '':'', CHR ''%''}) (print_ipv4 q) =
      CHR ''.'' # ?p b @ CHR ''.'' # ?p c @ CHR ''.'' # ?p d"
    unfolding s using print_octet_plain by (subst dropWhile_append2) auto
  ultimately show ?thesis by (simp add: ParseIP_def)
qed

end
