(* ===== verification/Go_Url.thy ===== *)
theory Go_Url
  imports Go_Strings
begin

text \<open>
  The part of Go's \<open>net/url\<close> (Go 1.26) the program uses, on URLs of plain characters:
  \<open>Parse\<close>, \<open>Hostname\<close>, \<open>Port\<close>, \<open>String\<close> of a URL with a host, and \<open>net.JoinHostPort\<close>.  A plain
  URL has no query, fragment, user, bracketed address or escaped character; on a string with
  one of these the definitions say nothing about Go.
\<close>

section \<open>Characters\<close>

definition is_alpha :: "char \<Rightarrow> bool" where
  "is_alpha c \<longleftrightarrow> (let n = of_char (lower c) :: nat in 97 \<le> n \<and> n \<le> 122)"

definition is_digit :: "char \<Rightarrow> bool" where
  "is_digit c \<longleftrightarrow> (let n = of_char c :: nat in 48 \<le> n \<and> n \<le> 57)"

definition plain_char :: "char \<Rightarrow> bool" where
  "plain_char c \<longleftrightarrow> is_alpha c \<or> is_digit c \<or> c \<in> set ''-._~:/''"

definition plain :: "string \<Rightarrow> bool" where
  "plain = list_all plain_char"

section \<open>Parse\<close>

record url =
  Scheme :: string
  Opaque :: string
  Host :: string
  Path :: string

definition scheme_char :: "char \<Rightarrow> bool" where
  "scheme_char c \<longleftrightarrow> is_alpha c \<or> is_digit c \<or> c \<in> set ''+-.''"

text \<open>The scheme and the rest; \<open>None\<close> is the error of a URL that begins with a colon.\<close>

definition getScheme :: "string \<Rightarrow> (string \<times> string) option" where
  "getScheme raw =
     (case dropWhile scheme_char raw of
        [] \<Rightarrow> Some ([], raw)
      | c # rest \<Rightarrow>
          let s = takeWhile scheme_char raw in
          if c \<noteq> CHR '':'' then Some ([], raw)
          else if s = [] then None
          else if is_alpha (hd s) then Some (s, rest)
          else Some ([], raw))"

text \<open>What follows the first colon of a host is its port: digits, if anything.\<close>

definition host_name :: "string \<Rightarrow> string" where
  "host_name h = takeWhile (\<lambda>c. c \<noteq> CHR '':'') h"

definition host_port :: "string \<Rightarrow> string" where
  "host_port h = drop 1 (dropWhile (\<lambda>c. c \<noteq> CHR '':'') h)"

definition url_Parse :: "string \<Rightarrow> url option" where
  "url_Parse raw =
     (case getScheme raw of
        None \<Rightarrow> None
      | Some (scheme, rest) \<Rightarrow>
          let scheme = map lower scheme in
          if \<not> prefix ''/'' rest \<and> scheme \<noteq> [] then
            Some \<lparr>Scheme = scheme, Opaque = rest, Host = [], Path = []\<rparr>
          else if \<not> prefix ''/'' rest \<and> CHR '':'' \<in> set (takeWhile (\<lambda>c. c \<noteq> CHR ''/'') rest) then None
          else if (scheme \<noteq> [] \<or> \<not> prefix ''///'' rest) \<and> prefix ''//'' rest then
            let authority = takeWhile (\<lambda>c. c \<noteq> CHR ''/'') (drop 2 rest);
                path = dropWhile (\<lambda>c. c \<noteq> CHR ''/'') (drop 2 rest)
            in if list_all is_digit (host_port authority)
               then Some \<lparr>Scheme = scheme, Opaque = [], Host = authority, Path = path\<rparr>
               else None
          else Some \<lparr>Scheme = scheme, Opaque = [], Host = [], Path = rest\<rparr>)"

definition Hostname :: "url \<Rightarrow> string" where
  "Hostname u = host_name (Host u)"

definition Port :: "url \<Rightarrow> string" where
  "Port u = host_port (Host u)"

section \<open>Printing\<close>

definition JoinHostPort :: "string \<Rightarrow> string \<Rightarrow> string" where
  "JoinHostPort host port =
     (if CHR '':'' \<in> set host then ''['' @ host @ '']:'' @ port
      else host @ '':'' @ port)"

text \<open>\<open>String\<close> of a URL whose host is not empty.\<close>

definition url_String :: "url \<Rightarrow> string" where
  "url_String u =
     (if Scheme u \<noteq> [] then Scheme u @ '':'' else []) @
     (if Opaque u \<noteq> [] then Opaque u
      else ''//'' @ Host u @ (if Path u \<noteq> [] \<and> hd (Path u) \<noteq> CHR ''/'' then ''/'' else []) @ Path u)"

section \<open>A URL with another host\<close>

lemma cut_at [simp]:
  "c \<notin> set s \<Longrightarrow> takeWhile (\<lambda>x. x \<noteq> c) (s @ c # t) = s"
  "c \<notin> set s \<Longrightarrow> dropWhile (\<lambda>x. x \<noteq> c) (s @ c # t) = c # t"
  by (induction s) auto

lemma lower_lower [simp]: "lower (lower c) = lower c"
proof -
  have "of_char (char_of n :: char) = n" if "n < 256" for n :: nat using that by simp
  then show ?thesis by (auto simp: lower_def)
qed

lemma is_alpha_lower [simp]: "is_alpha (lower c) = is_alpha c"
  by (simp add: is_alpha_def)

lemma scheme_char_lower [simp]: "scheme_char c \<Longrightarrow> scheme_char (lower c)"
  by (cases "is_alpha c") (auto simp: scheme_char_def is_alpha_def is_digit_def lower_def)

lemma not_scheme_char [simp]: "\<not> scheme_char CHR '':''" "\<not> scheme_char CHR ''/''"
  by code_simp+

text \<open>The scheme of a parsed URL: empty, or letters first and only scheme characters.\<close>

definition good_scheme :: "string \<Rightarrow> bool" where
  "good_scheme s \<longleftrightarrow> s = [] \<or> (is_alpha (hd s) \<and> list_all scheme_char s)"

lemma getScheme_good: "getScheme raw = Some (s, rest) \<Longrightarrow> good_scheme s"
  by (auto simp: getScheme_def good_scheme_def list_all_iff Let_def dest: set_takeWhileD
      split: list.splits if_splits)

lemma good_scheme_lower: "good_scheme s \<Longrightarrow> good_scheme (map lower s)"
  by (cases s) (auto simp: good_scheme_def list_all_iff)

lemma getScheme_print:
  assumes "good_scheme s"
  shows "getScheme ((if s \<noteq> [] then s @ '':'' else []) @ CHR ''/'' # t) = Some (s, CHR ''/'' # t)"
proof (cases "s = []")
  case True
  then show ?thesis by (simp add: getScheme_def)
next
  case False
  with assms have a: "is_alpha (hd s)" "\<forall>c \<in> set s. scheme_char c"
    by (auto simp: good_scheme_def list_all_iff)
  have "takeWhile scheme_char (s @ CHR '':'' # CHR ''/'' # t) = s"
    "dropWhile scheme_char (s @ CHR '':'' # CHR ''/'' # t) = CHR '':'' # CHR ''/'' # t"
    using a(2) by (simp_all add: takeWhile_append2 dropWhile_append2)
  with False a(1) show ?thesis by (simp add: getScheme_def)
qed

lemma parse_cases:
  assumes "(if A then Some p1 else if B then None else if C then (if D then Some p2 else None) else Some p3) = Some p"
    and "p = p1 \<Longrightarrow> R" and "D \<Longrightarrow> p = p2 \<Longrightarrow> R" and "p = p3 \<Longrightarrow> R"
  shows R
  using assms by (auto split: if_splits)

text \<open>A URL with a host came from an authority: it has no opaque part and its path is rooted.\<close>

lemma url_Parse_host:
  assumes "url_Parse raw = Some p" and "Host p \<noteq> []"
  shows "good_scheme (Scheme p)" and "map lower (Scheme p) = Scheme p" and "Opaque p = []"
    and "Path p = [] \<or> hd (Path p) = CHR ''/''" and "list_all is_digit (Port p)"
proof -
  obtain s rest where g: "getScheme raw = Some (s, rest)"
    using assms(1) by (auto simp: url_Parse_def split: option.splits)
  let ?a = "takeWhile (\<lambda>c. c \<noteq> CHR ''/'') (drop 2 rest)" and ?q = "dropWhile (\<lambda>c. c \<noteq> CHR ''/'') (drop 2 rest)"
  have p: "p = \<lparr>Scheme = map lower s, Opaque = [], Host = ?a, Path = ?q\<rparr> \<and> list_all is_digit (host_port ?a)"
    using assms(1) unfolding url_Parse_def g option.case prod.case Let_def
    by (rule parse_cases) (use assms(2) in simp_all)
  show "good_scheme (Scheme p)" using getScheme_good [OF g] good_scheme_lower p by simp
  show "map lower (Scheme p) = Scheme p" "Opaque p = []" using p by simp_all
  have "?q = [] \<or> hd ?q = CHR ''/''" using hd_dropWhile [of "\<lambda>c. c \<noteq> CHR ''/''" "drop 2 rest"] by blast
  with p show "Path p = [] \<or> hd (Path p) = CHR ''/''" by simp
  show "list_all is_digit (Port p)" using p by (simp add: Port_def)
qed

lemma url_Parse_String:
  assumes "url_Parse raw = Some p" and "Host p \<noteq> []"
    and "h \<noteq> []" and "CHR ''/'' \<notin> set h" and "list_all is_digit (host_port h)"
  shows "url_Parse (url_String (p\<lparr>Host := h\<rparr>)) = Some (p\<lparr>Host := h\<rparr>)"
proof -
  note u = url_Parse_host [OF assms(1,2)]
  let ?t = "CHR ''/'' # h @ Path p"
  have str: "url_String (p\<lparr>Host := h\<rparr>) = (if Scheme p \<noteq> [] then Scheme p @ '':'' else []) @ CHR ''/'' # ?t"
    using u(3,4) by (auto simp: url_String_def)
  obtain t where "Path p = [] \<or> Path p = CHR ''/'' # t" using u(4) by (cases "Path p") auto
  then have h: "takeWhile (\<lambda>c. c \<noteq> CHR ''/'') (h @ Path p) = h" "dropWhile (\<lambda>c. c \<noteq> CHR ''/'') (h @ Path p) = Path p"
    using assms(4) by (auto simp: takeWhile_eq_all_conv dropWhile_eq_Nil_conv)
  have hd: "\<not> prefix ''///'' (CHR ''/'' # ?t)" using assms(3,4) by (cases h) auto
  have "getScheme (url_String (p\<lparr>Host := h\<rparr>)) = Some (Scheme p, CHR ''/'' # ?t)"
    unfolding str by (rule getScheme_print [OF u(1)])
  then have "url_Parse (url_String (p\<lparr>Host := h\<rparr>)) = Some \<lparr>Scheme = Scheme p, Opaque = [], Host = h, Path = Path p\<rparr>"
    using hd u(2) assms(5) h by (simp add: url_Parse_def)
  with u(3) show ?thesis by (cases p) simp
qed

lemma host_of_JoinHostPort:
  assumes "CHR '':'' \<notin> set host"
  shows "host_name (JoinHostPort host port) = host" and "host_port (JoinHostPort host port) = port"
  using assms by (simp_all add: JoinHostPort_def host_name_def host_port_def)

end
