(* ===== verification/Sockops_Tracking.thy ===== *)
theory Sockops_Tracking
  imports Sockops
begin

text \<open>
  Byte counting and MSS restoration of \<open>sockops.bpf.c\<close>: an invariant of the connection map,
  the abstract counter each tracked socket implements, and the simulation between them.
\<close>

section \<open>The invariant of the connection map\<close>

text \<open>
  An entry is deleted in the invocation that restores its MSS, so no entry is ever left
  with the flag set, and no entry's counter is above the limit.
\<close>

definition tracking_inv :: "u32 \<Rightarrow> (u64 \<rightharpoonup> conn_state) \<Rightarrow> bool" where
  "tracking_inv limit m \<longleftrightarrow>
     (\<forall>c s. m c = Some s \<longrightarrow> mss_restored s = 0 \<and> bytes_sent s \<le> limit)"

lemma tracking_invI [intro?]:
  "(\<And>c s. m c = Some s \<Longrightarrow> mss_restored s = 0 \<and> bytes_sent s \<le> limit) \<Longrightarrow> tracking_inv limit m"
  by (simp add: tracking_inv_def)

lemma tracking_invD:
  "tracking_inv limit m \<Longrightarrow> m c = Some s \<Longrightarrow> mss_restored s = 0 \<and> bytes_sent s \<le> limit"
  by (simp add: tracking_inv_def)

lemma tracking_inv_upd:
  "tracking_inv limit m \<Longrightarrow> mss_restored s = 0 \<Longrightarrow> bytes_sent s \<le> limit \<Longrightarrow>
   tracking_inv limit (m(c \<mapsto> s))"
  by (simp add: tracking_inv_def)

lemma tracking_inv_submap: "tracking_inv limit m \<Longrightarrow> m' \<subseteq>\<^sub>m m \<Longrightarrow> tracking_inv limit m'"
  by (fastforce simp: tracking_inv_def map_le_def dom_def)

lemma tracking_inv_lru:
  assumes "lru_insert_spec lru" and "tracking_inv limit m"
  shows "tracking_inv limit (lru m c \<lparr>bytes_sent = 0, mss_restored = 0\<rparr>)"
proof -
  from assms(2) have "tracking_inv limit (m(c \<mapsto> \<lparr>bytes_sent = 0, mss_restored = 0\<rparr>))"
    by (rule tracking_inv_upd) simp_all
  with assms show ?thesis
    unfolding lru_insert_spec_def by (metis tracking_inv_submap)
qed

text \<open>The operation of an invocation, as a case rule.\<close>

lemma invocation_cases:
  obtains (inactive) "\<nexists>cfg. active_config st cfg"
  | (established) cfg where "active_config st cfg"
      "op (skops i) = BPF_SOCK_OPS_ACTIVE_ESTABLISHED_CB"
  | (hdr_opt_len) cfg where "active_config st cfg"
      "op (skops i) = BPF_SOCK_OPS_HDR_OPT_LEN_CB"
  | (untracked) "op (skops i) = BPF_SOCK_OPS_WRITE_HDR_OPT_CB" "connections st (cookie i) = None"
  | (tracked) cfg s where "active_config st cfg" "op (skops i) = BPF_SOCK_OPS_WRITE_HDR_OPT_CB"
      "connections st (cookie i) = Some s"
  | (other) "op (skops i) \<notin> {BPF_SOCK_OPS_ACTIVE_ESTABLISHED_CB, BPF_SOCK_OPS_HDR_OPT_LEN_CB,
                             BPF_SOCK_OPS_WRITE_HDR_OPT_CB}"
  by (cases "connections st (cookie i)") blast+

lemma sockops_tracking_inv:
  assumes "lru_insert_spec lru"
    and "\<forall>cfg. active_config st cfg \<longrightarrow> restore_after_bytes cfg = limit"
    and "tracking_inv limit (connections st)"
  shows "tracking_inv limit (connections (fst (gecit_sockops lru i st)))"
proof (cases rule: invocation_cases [where st = st and i = i])
  case inactive
  with assms(3) show ?thesis by (simp add: sockops_inactive)
next
  case (established cfg)
  with assms show ?thesis by (simp add: sockops_established tracking_inv_lru)
next
  case (hdr_opt_len cfg)
  with assms(3) show ?thesis by (simp add: sockops_hdr_opt_len)
next
  case untracked
  with assms(3) show ?thesis by (simp add: sockops_write_untracked)
next
  case (tracked cfg s)
  with assms(3) have s: "mss_restored s = 0" "bytes_sent s \<le> limit"
    by (auto dest: tracking_invD)
  have "tracking_inv limit ((connections st)(cookie i := None))"
    by (rule tracking_inv_submap [OF assms(3)]) (simp add: map_le_def)
  moreover from s assms(2) tracked have
    "\<not> restore_after_bytes cfg < bytes_sent s + skb_len (skops i) \<Longrightarrow>
     tracking_inv limit ((connections st)(cookie i \<mapsto> s\<lparr>bytes_sent := bytes_sent s + skb_len (skops i)\<rparr>))"
    by (intro tracking_inv_upd assms(3)) auto
  ultimately show ?thesis
    using tracked s by (simp add: sockops_write_hdr_opt Let_def)
next
  case other
  with assms(3) show ?thesis by (simp add: sockops_other_op)
qed

lemma sockops_run_tracking_inv:
  assumes "lru_insert_spec lru"
  shows "\<forall>cfg. active_config st cfg \<longrightarrow> restore_after_bytes cfg = limit \<Longrightarrow>
    tracking_inv limit (connections st) \<Longrightarrow>
    tracking_inv limit (connections (sockops_run lru st is))"
proof (induction "is" arbitrary: st)
  case Nil
  then show ?case by simp
next
  case (Cons i "is")
  have "\<forall>cfg. active_config (fst (gecit_sockops lru i st)) cfg \<longrightarrow> restore_after_bytes cfg = limit"
    using Cons.prems(1) by (simp add: active_config_def)
  moreover have "tracking_inv limit (connections (fst (gecit_sockops lru i st)))"
    by (rule sockops_tracking_inv [OF assms Cons.prems])
  ultimately show ?case
    using Cons.IH by simp
qed

section \<open>The abstract counter\<close>

text \<open>
  What the program promises for one socket: count the bytes of its segments in a
  natural number, and when the count passes the limit restore the MSS once and stop.
\<close>

datatype phase = Idle | Counting nat

fun count_segment :: "nat \<Rightarrow> nat \<Rightarrow> phase \<Rightarrow> phase \<times> bool" where
  "count_segment limit len Idle = (Idle, False)"
| "count_segment limit len (Counting n) =
     (if n + len > limit then (Idle, True) else (Counting (n + len), False))"

fun count_segments :: "nat \<Rightarrow> nat list \<Rightarrow> phase \<Rightarrow> phase \<times> nat" where
  "count_segments limit [] p = (p, 0)"
| "count_segments limit (l # ls) p =
     (let (p1, b) = count_segment limit l p; (p2, k) = count_segments limit ls p1
      in (p2, (if b then 1 else 0) + k))"

lemma count_segments_Idle [simp]: "count_segments limit ls Idle = (Idle, 0)"
  by (induction ls) simp_all

lemma count_segments_Counting:
  "n \<le> limit \<Longrightarrow> count_segments limit ls (Counting n) =
     (if n + sum_list ls > limit then (Idle, 1) else (Counting (n + sum_list ls), 0))"
  by (induction ls arbitrary: n) (auto simp: add.assoc)

section \<open>Simulation\<close>

definition phase_of :: "kstate \<Rightarrow> u64 \<Rightarrow> phase" where
  "phase_of st c = (case connections st c of None \<Rightarrow> Idle | Some s \<Rightarrow> Counting (unat (bytes_sent s)))"

text \<open>The \<open>TCP_MAXSEG\<close> values set on a socket, in order.\<close>

fun maxseg_of :: "u64 \<Rightarrow> u64 \<times> helper_call \<Rightarrow> u32 list" where
  "maxseg_of c (c', Bpf_setsockopt l n v) = (if c' = c \<and> l = IPPROTO_TCP \<and> n = TCP_MAXSEG then [v] else [])"
| "maxseg_of c _ = []"

definition maxseg_calls :: "u64 \<Rightarrow> kstate \<Rightarrow> u32 list" where
  "maxseg_calls c st = concat (map (maxseg_of c) (calls st))"

text \<open>The helper calls an invocation adds.\<close>

definition new_calls :: "lru_insert \<Rightarrow> invocation \<Rightarrow> kstate \<Rightarrow> (u64 \<times> helper_call) list" where
  "new_calls lru i st = drop (length (calls st)) (calls (fst (gecit_sockops lru i st)))"

text \<open>An LRU map that does not evict the entry of socket \<open>c\<close>.\<close>

definition lru_keeps :: "lru_insert \<Rightarrow> u64 \<Rightarrow> bool" where
  "lru_keeps lru c \<longleftrightarrow> (\<forall>m k v. k \<noteq> c \<longrightarrow> lru m k v c = m c)"

lemma maxseg_calls_other:
  assumes "cookie i \<noteq> c"
  shows "maxseg_calls c (fst (gecit_sockops lru i st)) = maxseg_calls c st"
  using assms by (simp add: gecit_sockops_def handler_defs maxseg_calls_def split: option.split)

lemma phase_of_other:
  assumes "cookie i \<noteq> c" and "lru_keeps lru c"
  shows "phase_of (fst (gecit_sockops lru i st)) c = phase_of st c"
  using assms
  by (simp add: gecit_sockops_def handler_defs phase_of_def lru_keeps_def split: option.split)

text \<open>
  One segment of a tracked socket simulates one step of the counter, as long as the 32-bit
  addition cannot wrap.
\<close>

lemma segment_simulates:
  assumes "active_config st cfg" and "op (skops i) = BPF_SOCK_OPS_WRITE_HDR_OPT_CB"
    and "tracking_inv (restore_after_bytes cfg) (connections st)"
    and "unat (restore_after_bytes cfg) + unat (skb_len (skops i)) < 2 ^ 32"
    and "step = count_segment (unat (restore_after_bytes cfg)) (unat (skb_len (skops i)))
                  (phase_of st (cookie i))"
  shows "phase_of (fst (gecit_sockops lru i st)) (cookie i) = fst step \<and>
    maxseg_calls (cookie i) (fst (gecit_sockops lru i st)) =
      maxseg_calls (cookie i) st @ (if snd step then [restored_mss cfg] else [])"
proof (cases "connections st (cookie i)")
  case None
  then show ?thesis by (simp add: sockops_write_untracked assms(2,5) phase_of_def)
next
  case (Some s)
  have s: "mss_restored s = 0" "bytes_sent s \<le> restore_after_bytes cfg"
    using tracking_invD [OF assms(3) Some] by auto
  then have "unat (bytes_sent s) + unat (skb_len (skops i)) < 2 ^ 32"
    using assms(4) by (simp add: word_le_nat_alt)
  then have sum: "unat (bytes_sent s + skb_len (skops i)) = unat (bytes_sent s) + unat (skb_len (skops i))"
    by (simp add: unat_word_ariths)
  show ?thesis
    using assms(1,2) Some s(1)
    by (simp add: sockops_write_hdr_opt Let_def phase_of_def sum word_less_nat_alt
        maxseg_calls_def assms(5))
qed

text \<open>An invocation for the socket that is neither an establishment nor a segment.\<close>

lemma other_op_simulates:
  assumes "op (skops i) \<noteq> BPF_SOCK_OPS_ACTIVE_ESTABLISHED_CB"
    and "op (skops i) \<noteq> BPF_SOCK_OPS_WRITE_HDR_OPT_CB"
  shows "phase_of (fst (gecit_sockops lru i st)) c = phase_of st c \<and>
    maxseg_calls c (fst (gecit_sockops lru i st)) = maxseg_calls c st"
  using assms
  by (simp add: gecit_sockops_def handler_defs phase_of_def maxseg_calls_def split: option.split)

text \<open>The segment lengths of one socket in a sequence of invocations.\<close>

definition segment_lengths :: "u64 \<Rightarrow> invocation list \<Rightarrow> nat list" where
  "segment_lengths c is = map (\<lambda>i. unat (skb_len (skops i)))
     (filter (\<lambda>i. cookie i = c \<and> op (skops i) = BPF_SOCK_OPS_WRITE_HDR_OPT_CB) is)"

lemma segment_lengths_Cons:
  "segment_lengths c (i # is) =
     (if cookie i = c \<and> op (skops i) = BPF_SOCK_OPS_WRITE_HDR_OPT_CB
      then unat (skb_len (skops i)) # segment_lengths c is else segment_lengths c is)"
  by (simp add: segment_lengths_def)

text \<open>
  A run implements the counter, whatever the invocations for other sockets in between:
  socket \<open>c\<close> is not established again, and the LRU map keeps its entry.
\<close>

lemma run_simulates:
  assumes "lru_insert_spec lru" and "lru_keeps lru c"
    and "\<forall>i \<in> set is. cookie i = c \<longrightarrow> op (skops i) \<noteq> BPF_SOCK_OPS_ACTIVE_ESTABLISHED_CB"
    and "\<forall>l \<in> set (segment_lengths c is). unat (restore_after_bytes cfg) + l < 2 ^ 32"
    and "active_config st cfg" and "tracking_inv (restore_after_bytes cfg) (connections st)"
  shows "phase_of (sockops_run lru st is) c =
      fst (count_segments (unat (restore_after_bytes cfg)) (segment_lengths c is) (phase_of st c)) \<and>
    maxseg_calls c (sockops_run lru st is) = maxseg_calls c st @
      replicate (snd (count_segments (unat (restore_after_bytes cfg)) (segment_lengths c is) (phase_of st c)))
        (restored_mss cfg)"
  using assms(3-)
proof (induction "is" arbitrary: st)
  case Nil
  then show ?case by (simp add: segment_lengths_def)
next
  case (Cons i "is")
  let ?st = "fst (gecit_sockops lru i st)" and ?lim = "unat (restore_after_bytes cfg)"
  have active: "active_config ?st cfg"
    using Cons.prems(3) by (simp add: active_config_def)
  have inv: "tracking_inv (restore_after_bytes cfg) (connections ?st)"
    using Cons.prems(3,4) by (intro sockops_tracking_inv assms(1)) (auto simp: active_config_def)
  have IH: "phase_of (sockops_run lru ?st is) c =
      fst (count_segments ?lim (segment_lengths c is) (phase_of ?st c)) \<and>
    maxseg_calls c (sockops_run lru ?st is) = maxseg_calls c ?st @
      replicate (snd (count_segments ?lim (segment_lengths c is) (phase_of ?st c))) (restored_mss cfg)"
    using Cons.prems(1,2) by (intro Cons.IH active inv) (auto simp: segment_lengths_Cons)
  consider (other) "cookie i \<noteq> c"
    | (segment) "cookie i = c" "op (skops i) = BPF_SOCK_OPS_WRITE_HDR_OPT_CB"
    | (quiet) "cookie i = c" "op (skops i) \<noteq> BPF_SOCK_OPS_WRITE_HDR_OPT_CB"
    by blast
  then show ?case
  proof cases
    case other
    with IH assms(2) show ?thesis
      by (simp add: segment_lengths_Cons maxseg_calls_other phase_of_other)
  next
    case segment
    let ?step = "count_segment ?lim (unat (skb_len (skops i))) (phase_of st c)"
    have "?lim + unat (skb_len (skops i)) < 2 ^ 32"
      using Cons.prems(2) segment by (simp add: segment_lengths_Cons)
    then have "phase_of ?st c = fst ?step \<and>
      maxseg_calls c ?st = maxseg_calls c st @ (if snd ?step then [restored_mss cfg] else [])"
      using segment_simulates [OF Cons.prems(3) segment(2) Cons.prems(4)] segment(1) by blast
    with IH segment show ?thesis
      by (simp add: segment_lengths_Cons Let_def split: prod.splits)
  next
    case quiet
    with Cons.prems(1) have "op (skops i) \<noteq> BPF_SOCK_OPS_ACTIVE_ESTABLISHED_CB" by simp
    with quiet IH other_op_simulates [of i] show ?thesis
      by (simp add: segment_lengths_Cons)
  qed
qed

section \<open>Perf events\<close>

lemma perf_event_calls:
  "(c, Bpf_perf_event_output f e) \<in> set (new_calls lru i st) \<longleftrightarrow>
   c = cookie i \<and> f = BPF_F_CURRENT_CPU \<and>
   (\<exists>cfg. gecit_config st 0 = Some cfg \<and> enabled cfg \<noteq> 0) \<and>
   op (skops i) = BPF_SOCK_OPS_ACTIVE_ESTABLISHED_CB \<and>
   exclude_ips st (remote_ip4 (skops i)) = None \<and>
   target_ports st (ucast (bpf_ntohl False (remote_port (skops i)))) \<noteq> None \<and>
   e = \<lparr>src_ip = local_ip4 (skops i), dst_ip = remote_ip4 (skops i),
        src_port = ucast (local_port (skops i)),
        dst_port = ucast (bpf_ntohl False (remote_port (skops i))),
        seq = snd_nxt (skops i), ack = rcv_nxt (skops i)\<rparr>"
proof (cases rule: invocation_cases [where st = st and i = i])
  case (established cfg)
  then show ?thesis
    by (cases "intercepts st (skops i)")
      (auto simp: sockops_established new_calls_def intercept_defs)
next
  case (tracked cfg s)
  then show ?thesis
    by (cases "mss_restored s = 0")
      (auto simp: sockops_write_hdr_opt sockops_write_untracked new_calls_def Let_def)
qed (auto simp: sockops_inactive sockops_hdr_opt_len sockops_write_untracked sockops_other_op
      new_calls_def active_config_def)

lemma perf_event_content:
  "(c, Bpf_perf_event_output f e) \<in> set (new_calls lru i st) \<Longrightarrow> e = event_of (skops i)"
  by (simp add: perf_event_calls event_of_def dst_port_of_def)

section \<open>A concrete run\<close>

text \<open>
  The default configuration, target port 443, and an LRU map with room; one connection is
  established and sends two segments, of 500 and 200 bytes.
\<close>

definition demo_lru :: lru_insert where
  "demo_lru m k v = m(k \<mapsto> v)"

definition demo_config :: gecit_config_t where
  "demo_config = \<lparr>mss = 40, restore_mss = 0, restore_after_bytes = 600, enabled = 1\<rparr>"

definition demo_state :: kstate where
  "demo_state = \<lparr>gecit_config = [0 \<mapsto> demo_config], target_ports = [443 \<mapsto> 1],
     exclude_ips = Map.empty, connections = Map.empty, calls = []\<rparr>"

definition demo_skops :: "u32 \<Rightarrow> u32 \<Rightarrow> bpf_sock_ops" where
  "demo_skops p len = \<lparr>op = p, remote_ip4 = 0x22D8B85D, local_ip4 = 0x0100000A,
     remote_port = 0xBB010000, local_port = 51234, bpf_sock_ops_cb_flags = 0,
     rcv_nxt = 77, snd_nxt = 1000, skb_len = len\<rparr>"

definition demo_established :: invocation where
  "demo_established = \<lparr>skops = demo_skops 4 0, cookie = 9\<rparr>"

definition demo_segments :: "invocation list" where
  "demo_segments = [\<lparr>skops = demo_skops 15 500, cookie = 9\<rparr>, \<lparr>skops = demo_skops 15 200, cookie = 9\<rparr>]"

lemmas demo_defs = demo_lru_def demo_config_def demo_state_def demo_skops_def demo_established_def
  demo_segments_def

lemma demo_lru_spec: "lru_insert_spec demo_lru" and demo_lru_keeps: "lru_keeps demo_lru c"
  by (simp_all add: lru_insert_spec_def lru_keeps_def demo_lru_def)

lemma demo_skops_sel [simp]: "op (demo_skops p len) = p" "skb_len (demo_skops p len) = len"
  by (simp_all add: demo_skops_def)

lemma demo_active: "active_config demo_state demo_config"
  by (simp add: demo_defs active_config_def)

lemma demo_port: "dst_port_of (demo_skops p len) = 443"
  by (simp add: dst_port_of_def demo_skops_def conversion_defs builtin_bswap32_def le32_def be32_def)

lemma demo_intercepts: "intercepts demo_state (demo_skops p len)"
  by (simp add: intercepts_def demo_port) (simp add: demo_defs)

section \<open>Properties\<close>

text \<open>
  C2: Invariant.  Under any sequence of kernel callbacks, starting from an empty connection
  map, no tracked connection is ever left with its restored flag set, and no byte counter
  ever exceeds \<open>restore_after_bytes\<close>: the entry is gone in the same invocation that passes
  the limit.
\<close>

theorem connections_invariant:
  assumes "lru_insert_spec lru"
    and "gecit_config st 0 = Some cfg" and "connections st = Map.empty"
    and "connections (sockops_run lru st is) c = Some s"
  shows "mss_restored s = 0 \<and> bytes_sent s \<le> restore_after_bytes cfg"
proof -
  have "tracking_inv (restore_after_bytes cfg) (connections (sockops_run lru st is))"
    using assms(2,3)
    by (intro sockops_run_tracking_inv assms(1)) (auto simp: active_config_def tracking_inv_def)
  with assms(4) show ?thesis by (rule tracking_invD [rotated])
qed

theorem connections_invariant_witness:
  "connections (sockops_run demo_lru demo_state [demo_established]) 9 = Some \<lparr>bytes_sent = 0, mss_restored = 0\<rparr> \<and>
   mss_restored \<lparr>bytes_sent = 0, mss_restored = 0\<rparr> = 0 \<and>
   bytes_sent \<lparr>bytes_sent = 0, mss_restored = 0\<rparr> \<le> restore_after_bytes demo_config"
proof -
  have h: "connections (sockops_run demo_lru demo_state [demo_established]) 9 =
      Some \<lparr>bytes_sent = 0, mss_restored = 0\<rparr>"
    using demo_intercepts [of 4 0]
    by (simp add: sockops_established [OF demo_active] demo_established_def demo_lru_def)
  have "gecit_config demo_state 0 = Some demo_config" "connections demo_state = Map.empty"
    by (simp_all add: demo_state_def)
  from connections_invariant [OF demo_lru_spec this h] h show ?thesis by simp
qed

text \<open>
  C1: The small MSS is set when an intercepted connection is established and the normal MSS
  is restored exactly once, by the first segment that takes the connection past
  \<open>restore_after_bytes\<close> bytes, whatever happens to other sockets in between: after any
  sequence of callbacks the MSS values set on the socket are the small one, followed by
  the normal one if and only if the segments so far add up to more than the limit.
  The LRU map accepted the entry and does not evict it, and the 32-bit sum of the limit
  and one segment does not wrap.
\<close>

theorem mss_restored_exactly_once:
  assumes "lru_insert_spec lru" and "lru_keeps lru c"
    and "lru (connections st) c \<lparr>bytes_sent = 0, mss_restored = 0\<rparr> c = Some \<lparr>bytes_sent = 0, mss_restored = 0\<rparr>"
    and "active_config st cfg" and "connections st = Map.empty"
    and "cookie i\<^sub>0 = c" and "op (skops i\<^sub>0) = BPF_SOCK_OPS_ACTIVE_ESTABLISHED_CB"
    and "intercepts st (skops i\<^sub>0)"
    and "\<forall>i \<in> set is. cookie i = c \<longrightarrow> op (skops i) \<noteq> BPF_SOCK_OPS_ACTIVE_ESTABLISHED_CB"
    and "\<forall>l \<in> set (segment_lengths c is). unat (restore_after_bytes cfg) + l < 2 ^ 32"
  shows "maxseg_calls c (sockops_run lru st (i\<^sub>0 # is)) = maxseg_calls c st @ [ucast (mss cfg)] @
    (if sum_list (segment_lengths c is) > unat (restore_after_bytes cfg) then [restored_mss cfg] else [])"
proof -
  let ?st = "fst (gecit_sockops lru i\<^sub>0 st)"
  have st: "maxseg_calls c ?st = maxseg_calls c st @ [ucast (mss cfg)]" "phase_of ?st c = Counting 0"
    using assms(3-8) by (simp_all add: sockops_established maxseg_calls_def phase_of_def)
  have active: "active_config ?st cfg"
    using assms(4) by (simp add: active_config_def)
  have "tracking_inv (restore_after_bytes cfg) (connections ?st)"
    using assms(4,5)
    by (intro sockops_tracking_inv assms(1)) (auto simp: active_config_def tracking_inv_def)
  from run_simulates [OF assms(1,2,9,10) active this] st show ?thesis
    by (simp add: count_segments_Counting)
qed

theorem mss_restored_exactly_once_witness:
  "maxseg_calls 9 (sockops_run demo_lru demo_state (demo_established # demo_segments)) = [40, 1460]"
proof -
  have "maxseg_calls 9 (sockops_run demo_lru demo_state (demo_established # demo_segments)) =
      maxseg_calls 9 demo_state @ [ucast (mss demo_config)] @
      (if sum_list (segment_lengths 9 demo_segments) > unat (restore_after_bytes demo_config)
       then [restored_mss demo_config] else [])"
    using demo_intercepts [of 4 0]
    by (intro mss_restored_exactly_once demo_lru_spec demo_lru_keeps demo_active)
      (simp_all add: demo_defs segment_lengths_def)
  then show ?thesis
    by (simp add: demo_defs segment_lengths_def maxseg_calls_def restored_mss_def)
qed

text \<open>
  While the configuration is missing or its master switch is off, the program changes no
  map and calls no helper, whatever sequence of callbacks the kernel makes.
\<close>

theorem disabled_is_passthrough:
  assumes "gecit_config st 0 = None \<or> enabled (the (gecit_config st 0)) = 0"
  shows "sockops_run lru st is = st"
proof -
  from assms have "\<nexists>cfg. active_config st cfg" by (auto simp: active_config_def)
  then show ?thesis
    by (induction "is" arbitrary: st) (simp_all add: sockops_inactive)
qed

theorem disabled_is_passthrough_witness:
  "sockops_run demo_lru (demo_state\<lparr>gecit_config := [0 \<mapsto> demo_config\<lparr>enabled := 0\<rparr>]\<rparr>)
     (demo_established # demo_segments) =
   demo_state\<lparr>gecit_config := [0 \<mapsto> demo_config\<lparr>enabled := 0\<rparr>]\<rparr>"
  by (rule disabled_is_passthrough) simp

text \<open>
  C7: A perf event is sent to userspace exactly when an enabled program sees the
  establishment of an active connection whose address is not excluded and whose port is a
  target; the event carries the addresses, the local port, the target port in host order,
  and the sequence and acknowledgement numbers the next segment will use.
\<close>

theorem perf_event_iff:
  "(c, Bpf_perf_event_output f e) \<in> set (new_calls lru i st) \<longleftrightarrow>
   c = cookie i \<and> f = BPF_F_CURRENT_CPU \<and>
   (\<exists>cfg. gecit_config st 0 = Some cfg \<and> enabled cfg \<noteq> 0) \<and>
   op (skops i) = BPF_SOCK_OPS_ACTIVE_ESTABLISHED_CB \<and>
   exclude_ips st (remote_ip4 (skops i)) = None \<and>
   target_ports st (ucast (bpf_ntohl False (remote_port (skops i)))) \<noteq> None \<and>
   e = \<lparr>src_ip = local_ip4 (skops i), dst_ip = remote_ip4 (skops i),
        src_port = ucast (local_port (skops i)),
        dst_port = ucast (bpf_ntohl False (remote_port (skops i))),
        seq = snd_nxt (skops i), ack = rcv_nxt (skops i)\<rparr>"
  by (rule perf_event_calls)

end
