(* ===== verification/Ebpf_Userspace.thy ===== *)
theory Ebpf_Userspace
  imports Sockops_Tracking Go_Net
begin

text \<open>
  The userspace half of the Linux engine: \<open>src/pkg/ebpf/config.go\<close> (what it pushes into the
  maps) and \<open>src/pkg/ebpf/manager.go\<close> (defaults, event decoding).

  \<open>ebpf.Map.Update\<close> of the cilium/ebpf package is a parameter of each function that calls
  it; \<open>update_any_spec\<close> states what a successful call does.  \<open>has\<close> tells which maps the
  loaded collection contains.  A Go \<open>int\<close> is an \<open>int\<close> here; the conversions \<open>uint16(x)\<close> and
  \<open>uint32(x)\<close> are \<open>word_of_int\<close>, which keeps the low bits as Go does.
\<close>

section \<open>Configuration\<close>

record config =
  cfg_MSS :: int
  cfg_RestoreMSS :: int
  cfg_RestoreAfterBytes :: int
  cfg_Ports :: "u16 list"
  cfg_ExcludeIPs :: "ip list"
  cfg_CgroupPath :: string
  cfg_FakeTTL :: int

definition NewManager :: "config \<Rightarrow> config" where
  "NewManager cfg =
     (let cfg = (if cfg_MSS cfg = 0 then cfg\<lparr>cfg_MSS := 40\<rparr> else cfg);
          cfg = (if cfg_RestoreAfterBytes cfg = 0 then cfg\<lparr>cfg_RestoreAfterBytes := 600\<rparr> else cfg);
          cfg = (if cfg_CgroupPath cfg = '''' then cfg\<lparr>cfg_CgroupPath := ''/sys/fs/cgroup''\<rparr> else cfg);
          cfg = (if length (cfg_Ports cfg) = 0 then cfg\<lparr>cfg_Ports := [443]\<rparr> else cfg);
          cfg = (if cfg_FakeTTL cfg = 0 then cfg\<lparr>cfg_FakeTTL := 8\<rparr> else cfg)
      in cfg)"

section \<open>Pushing the maps\<close>

datatype error =
    MapNotFound string
  | UpdateFailed string

type_synonym ('k, 'v) map_update = "'k \<Rightarrow> 'v \<Rightarrow> ('k \<rightharpoonup> 'v) \<Rightarrow> error + ('k \<rightharpoonup> 'v)"

text \<open>\<open>Update\<close> with \<open>UpdateAny\<close>: on success the key has the value and nothing else changed.\<close>

definition update_any_spec :: "('k, 'v) map_update \<Rightarrow> bool" where
  "update_any_spec upd \<longleftrightarrow> (\<forall>k v m m'. upd k v m = Inr m' \<longrightarrow> m' = m(k \<mapsto> v))"

text \<open>The Go struct \<open>gecitConfig\<close>, with its fields' widths in order.\<close>

definition gecitConfig_widths :: "nat list" where
  "gecitConfig_widths = [2, 2, 4, 1, 7]"

definition gecitConfig :: "config \<Rightarrow> u8 \<Rightarrow> gecit_config_t" where
  "gecitConfig cfg e =
     \<lparr>mss = word_of_int (cfg_MSS cfg), restore_mss = word_of_int (cfg_RestoreMSS cfg),
      restore_after_bytes = word_of_int (cfg_RestoreAfterBytes cfg), enabled = e\<rparr>"

definition pushConfig ::
    "(string \<Rightarrow> bool) \<Rightarrow> (u32, gecit_config_t) map_update \<Rightarrow> config \<Rightarrow> bpf_maps \<Rightarrow>
     bpf_maps \<times> error option" where
  "pushConfig has upd cfg maps =
     (if \<not> has ''gecit_config'' then (maps, Some (MapNotFound ''gecit_config''))
      else case upd 0 (gecitConfig cfg 1) (gecit_config maps) of
          Inl e \<Rightarrow> (maps, Some e)
        | Inr m \<Rightarrow> (maps\<lparr>gecit_config := m\<rparr>, None))"

fun update_ports ::
    "(u16, u8) map_update \<Rightarrow> u16 list \<Rightarrow> bpf_maps \<Rightarrow> bpf_maps \<times> error option" where
  "update_ports upd [] maps = (maps, None)"
| "update_ports upd (port # ports) maps =
     (case upd port 1 (target_ports maps) of
        Inl e \<Rightarrow> (maps, Some e)
      | Inr m \<Rightarrow> update_ports upd ports (maps\<lparr>target_ports := m\<rparr>))"

definition pushTargetPorts ::
    "(string \<Rightarrow> bool) \<Rightarrow> (u16, u8) map_update \<Rightarrow> config \<Rightarrow> bpf_maps \<Rightarrow> bpf_maps \<times> error option" where
  "pushTargetPorts has upd cfg maps =
     (if \<not> has ''target_ports'' then (maps, Some (MapNotFound ''target_ports''))
      else update_ports upd (cfg_Ports cfg) maps)"

text \<open>The key of an excluded address, from the four bytes \<open>To4\<close> returns.\<close>

definition exclude_key :: "bytes \<Rightarrow> u32" where
  "exclude_key ip4 =
     ucast (ip4 ! 0) OR push_bit 8 (ucast (ip4 ! 1)) OR push_bit 16 (ucast (ip4 ! 2)) OR
     push_bit 24 (ucast (ip4 ! 3))"

fun update_exclude ::
    "(u32, u8) map_update \<Rightarrow> ip list \<Rightarrow> bpf_maps \<Rightarrow> bpf_maps \<times> error option" where
  "update_exclude upd [] maps = (maps, None)"
| "update_exclude upd (ip # ips) maps =
     (case To4 ip of
        None \<Rightarrow> update_exclude upd ips maps
      | Some ip4 \<Rightarrow>
          (case upd (exclude_key ip4) 1 (exclude_ips maps) of
             Inl e \<Rightarrow> (maps, Some e)
           | Inr m \<Rightarrow> update_exclude upd ips (maps\<lparr>exclude_ips := m\<rparr>)))"

definition pushExcludeIPs ::
    "(string \<Rightarrow> bool) \<Rightarrow> (u32, u8) map_update \<Rightarrow> config \<Rightarrow> bpf_maps \<Rightarrow> bpf_maps \<times> error option" where
  "pushExcludeIPs has upd cfg maps =
     (if \<not> has ''exclude_ips'' then (maps, None)
      else update_exclude upd (cfg_ExcludeIPs cfg) maps)"

definition UpdateEnabled ::
    "(string \<Rightarrow> bool) \<Rightarrow> (u32, gecit_config_t) map_update \<Rightarrow> config \<Rightarrow> bool \<Rightarrow> bpf_maps \<Rightarrow>
     bpf_maps \<times> error option" where
  "UpdateEnabled has upd cfg e maps =
     (if \<not> has ''gecit_config'' then (maps, Some (MapNotFound ''gecit_config''))
      else case upd 0 (gecitConfig cfg (if e then 1 else 0)) (gecit_config maps) of
          Inl err \<Rightarrow> (maps, Some err)
        | Inr m \<Rightarrow> (maps\<lparr>gecit_config := m\<rparr>, None))"

section \<open>Reading events\<close>

text \<open>
  \<open>readEvents\<close> on one record: a sample shorter than the event is skipped, a longer one
  (the perf ring pads samples) is read from its first 20 bytes.
\<close>

record connEvent =
  ev_SrcIP :: u32
  ev_DstIP :: u32
  ev_SrcPort :: u16
  ev_DstPort :: u16
  ev_Seq :: u32
  ev_Ack :: u32

definition go_slice :: "bytes \<Rightarrow> nat \<Rightarrow> nat \<Rightarrow> bytes" where
  "go_slice b i j = take (j - i) (drop i b)"

definition read_event :: "bytes \<Rightarrow> connEvent option" where
  "read_event sample =
     (if length sample < 20 then None
      else Some \<lparr>ev_SrcIP = of_le32 (go_slice sample 0 4), ev_DstIP = of_le32 (go_slice sample 4 8),
             ev_SrcPort = of_le16 (go_slice sample 8 10), ev_DstPort = of_le16 (go_slice sample 10 12),
             ev_Seq = of_le32 (go_slice sample 12 16), ev_Ack = of_le32 (go_slice sample 16 20)\<rparr>)"

definition uint32ToIP :: "u32 \<Rightarrow> ip" where
  "uint32ToIP n = le32 n"

section \<open>What the pushes establish\<close>

text \<open>The pushes of \<open>Start\<close>, in its order; the first error stops it.\<close>

definition push_maps ::
    "(string \<Rightarrow> bool) \<Rightarrow> (u32, gecit_config_t) map_update \<Rightarrow> (u16, u8) map_update \<Rightarrow>
     (u32, u8) map_update \<Rightarrow> config \<Rightarrow> bpf_maps \<Rightarrow> bpf_maps \<times> error option" where
  "push_maps has upd_c upd_p upd_x cfg maps =
     (case pushConfig has upd_c cfg maps of
        (maps, Some e) \<Rightarrow> (maps, Some e)
      | (maps, None) \<Rightarrow>
          (case pushTargetPorts has upd_p cfg maps of
             (maps, Some e) \<Rightarrow> (maps, Some e)
           | (maps, None) \<Rightarrow> pushExcludeIPs has upd_x cfg maps))"

lemma update_anyD: "update_any_spec upd \<Longrightarrow> upd k v m = Inr m' \<Longrightarrow> m' = m(k \<mapsto> v)"
  by (simp add: update_any_spec_def)

lemma update_ports_ok:
  "update_any_spec upd \<Longrightarrow> update_ports upd ports maps = (maps', None) \<Longrightarrow>
   target_ports maps' p = (if p \<in> set ports then Some 1 else target_ports maps p) \<and>
   gecit_config maps' = gecit_config maps \<and> exclude_ips maps' = exclude_ips maps"
  by (induction ports arbitrary: maps) (auto split: sum.splits dest!: update_anyD)

lemma update_exclude_ok:
  "update_any_spec upd \<Longrightarrow> update_exclude upd ips maps = (maps', None) \<Longrightarrow>
   exclude_ips maps' k =
     (if k \<in> exclude_key ` {ip4. Some ip4 \<in> To4 ` set ips} then Some 1 else exclude_ips maps k) \<and>
   gecit_config maps' = gecit_config maps \<and> target_ports maps' = target_ports maps"
proof (induction ips arbitrary: maps)
  case Nil
  then show ?case by simp
next
  case (Cons ip ips)
  show ?case
  proof (cases "To4 ip")
    case None
    with Cons show ?thesis by (simp add: image_iff)
  next
    case (Some ip4)
    with Cons.prems obtain m where m: "upd (exclude_key ip4) 1 (exclude_ips maps) = Inr m"
      and rest: "update_exclude upd ips (maps\<lparr>exclude_ips := m\<rparr>) = (maps', None)"
      by (auto split: sum.splits)
    have "m = (exclude_ips maps)(exclude_key ip4 \<mapsto> 1)"
      using update_anyD [OF Cons.prems(1) m] .
    with Cons.IH [OF Cons.prems(1) rest] show ?thesis
      by (auto simp: Some image_iff)
  qed
qed

text \<open>
  On the little-endian targets of the program the pushed key is the address read as a
  native integer, which is what the kernel puts in \<open>remote_ip4\<close>.
\<close>

lemma exclude_key_le32: "length ip4 = 4 \<Longrightarrow> exclude_key ip4 = of_le32 ip4"
  by (cases ip4 rule: of_be32.cases)
    (simp_all add: exclude_key_def of_le32_def nth_Cons' ac_simps)

lemma exclude_key_eq_iff: "length ip4 = 4 \<Longrightarrow> w = exclude_key ip4 \<longleftrightarrow> ip4 = le32 w"
  using LE32.enc_dec [of ip4] LE32.dec_enc [of w] by (auto simp: exclude_key_le32)

lemma exclude_key_le32_id: "exclude_key (le32 a) = a"
  by (simp add: exclude_key_le32 codec)

lemma push_maps_ok:
  assumes "update_any_spec upd_c" and "update_any_spec upd_p" and "update_any_spec upd_x"
    and "has ''exclude_ips''"
    and "push_maps has upd_c upd_p upd_x cfg maps = (maps', None)"
  shows "gecit_config maps' 0 = Some (gecitConfig cfg 1)"
    and "target_ports maps' p = (if p \<in> set (cfg_Ports cfg) then Some 1 else target_ports maps p)"
    and "exclude_ips maps' a =
      (if Some (le32 a) \<in> To4 ` set (cfg_ExcludeIPs cfg) then Some 1 else exclude_ips maps a)"
proof -
  from assms(5) obtain maps1 maps2 where
    1: "pushConfig has upd_c cfg maps = (maps1, None)" and
    2: "pushTargetPorts has upd_p cfg maps1 = (maps2, None)" and
    3: "pushExcludeIPs has upd_x cfg maps2 = (maps', None)"
    unfolding push_maps_def by (auto split: prod.splits option.splits)
  from 1 have c: "gecit_config maps1 0 = Some (gecitConfig cfg 1)"
    "target_ports maps1 = target_ports maps" "exclude_ips maps1 = exclude_ips maps"
    by (auto simp: pushConfig_def split: if_splits sum.splits dest!: update_anyD [OF assms(1)])
  from 2 have "update_ports upd_p (cfg_Ports cfg) maps1 = (maps2, None)"
    by (simp add: pushTargetPorts_def split: if_splits)
  note p = update_ports_ok [OF assms(2) this]
  from 3 assms(4) have "update_exclude upd_x (cfg_ExcludeIPs cfg) maps2 = (maps', None)"
    by (simp add: pushExcludeIPs_def)
  note x = update_exclude_ok [OF assms(3) this]
  have "a \<in> exclude_key ` {ip4. Some ip4 \<in> To4 ` set (cfg_ExcludeIPs cfg)} \<longleftrightarrow>
      Some (le32 a) \<in> To4 ` set (cfg_ExcludeIPs cfg)"
  proof
    assume "a \<in> exclude_key ` {ip4. Some ip4 \<in> To4 ` set (cfg_ExcludeIPs cfg)}"
    then obtain ip4 where ip4: "a = exclude_key ip4" "Some ip4 \<in> To4 ` set (cfg_ExcludeIPs cfg)"
      by blast
    then have "length ip4 = 4"
      by (metis (no_types, lifting) To4_length imageE)
    with ip4 show "Some (le32 a) \<in> To4 ` set (cfg_ExcludeIPs cfg)"
      by (simp add: exclude_key_eq_iff)
  next
    assume "Some (le32 a) \<in> To4 ` set (cfg_ExcludeIPs cfg)"
    then show "a \<in> exclude_key ` {ip4. Some ip4 \<in> To4 ` set (cfg_ExcludeIPs cfg)}"
      by (metis (mono_tags, lifting) exclude_key_le32_id image_eqI mem_Collect_eq)
  qed
  with c p x show "gecit_config maps' 0 = Some (gecitConfig cfg 1)"
    and "target_ports maps' p = (if p \<in> set (cfg_Ports cfg) then Some 1 else target_ports maps p)"
    and "exclude_ips maps' a =
      (if Some (le32 a) \<in> To4 ` set (cfg_ExcludeIPs cfg) then Some 1 else exclude_ips maps a)"
    by simp_all
qed

lemma conn_event_roundtrip:
  "read_event (conn_event_mem e @ pad) =
     Some \<lparr>ev_SrcIP = src_ip e, ev_DstIP = dst_ip e, ev_SrcPort = src_port e,
           ev_DstPort = dst_port e, ev_Seq = seq e, ev_Ack = ack e\<rparr>"
  by (simp add: read_event_def conn_event_mem_def go_slice_def codec of_le32_take of_le16_take)

section \<open>A concrete push\<close>

definition demo_update :: "('k, 'v) map_update" where
  "demo_update k v m = Inr (m(k \<mapsto> v))"

definition demo_cfg :: config where
  "demo_cfg = NewManager \<lparr>cfg_MSS = 0, cfg_RestoreMSS = 0, cfg_RestoreAfterBytes = 0, cfg_Ports = [],
     cfg_ExcludeIPs = [[1, 2, 3, 4]], cfg_CgroupPath = [], cfg_FakeTTL = 0\<rparr>"

definition demo_maps :: bpf_maps where
  "demo_maps = \<lparr>gecit_config = Map.empty, target_ports = Map.empty, exclude_ips = Map.empty,
     connections = Map.empty\<rparr>"

definition demo_pushed :: bpf_maps where
  "demo_pushed = \<lparr>gecit_config = [0 \<mapsto> demo_config], target_ports = [443 \<mapsto> 1],
     exclude_ips = [0x04030201 \<mapsto> 1], connections = Map.empty\<rparr>"

lemma demo_update_spec: "update_any_spec demo_update"
  by (simp add: update_any_spec_def demo_update_def)

lemmas push_defs = push_maps_def pushConfig_def pushTargetPorts_def pushExcludeIPs_def

lemma demo_cfg_eq: "demo_cfg = \<lparr>cfg_MSS = 40, cfg_RestoreMSS = 0, cfg_RestoreAfterBytes = 600,
   cfg_Ports = [443], cfg_ExcludeIPs = [[1, 2, 3, 4]], cfg_CgroupPath = ''/sys/fs/cgroup'', cfg_FakeTTL = 8\<rparr>"
  by (simp add: demo_cfg_def NewManager_def)

lemma demo_push: "push_maps (\<lambda>_. True) demo_update demo_update demo_update demo_cfg demo_maps = (demo_pushed, None)"
  by (simp add: push_defs demo_cfg_eq demo_maps_def demo_pushed_def demo_update_def gecitConfig_def
      demo_config_def exclude_key_def)

section \<open>Properties\<close>

text \<open>The kernel state right after \<open>Start\<close> attaches the program.\<close>

definition attached :: "bpf_maps \<Rightarrow> kstate" where
  "attached maps = bpf_maps.extend maps \<lparr>calls = []\<rparr>"

lemma attached_sel [simp]:
  "gecit_config (attached maps) = gecit_config maps"
  "target_ports (attached maps) = target_ports maps"
  "exclude_ips (attached maps) = exclude_ips maps"
  "connections (attached maps) = connections maps"
  "calls (attached maps) = []"
  by (simp_all add: attached_def bpf_maps.extend_def)

text \<open>
  C4: After a successful push into fresh maps, the kernel program reports an established
  connection to userspace exactly when its port is one of the configured ports and its
  address is not the IPv4 form of an excluded address: the key arithmetic of
  \<open>pushExcludeIPs\<close> and the byte order of \<open>remote_ip4\<close> and \<open>remote_port\<close> agree.
\<close>

theorem pushed_config_decides:
  assumes "update_any_spec upd_c" and "update_any_spec upd_p" and "update_any_spec upd_x"
    and "has ''exclude_ips''"
    and "target_ports maps = Map.empty" and "exclude_ips maps = Map.empty"
    and "push_maps has upd_c upd_p upd_x cfg maps = (maps', None)"
    and "op (skops i) = BPF_SOCK_OPS_ACTIVE_ESTABLISHED_CB"
    and "remote_port (skops i) = bpf_htonl c (ucast port)"
  shows "(\<exists>e. (cookie i, Bpf_perf_event_output BPF_F_CURRENT_CPU e) \<in> set (new_calls lru i (attached maps')))
    \<longleftrightarrow> port \<in> set (cfg_Ports cfg) \<and> Some (le32 (remote_ip4 (skops i))) \<notin> To4 ` set (cfg_ExcludeIPs cfg)"
proof -
  note pushed = push_maps_ok [OF assms(1-4,7)]
  have active: "active_config (attached maps') (gecitConfig cfg 1)"
    using pushed(1) by (simp add: active_config_def gecitConfig_def)
  have "dst_port_of (skops i) = port"
    by (simp add: dst_port_of_def assms(9) bpf_ntohl_bswap bpf_htonl_bswap builtin_bswap32_twice)
  then have "intercepts (attached maps') (skops i) \<longleftrightarrow>
      port \<in> set (cfg_Ports cfg) \<and> Some (le32 (remote_ip4 (skops i))) \<notin> To4 ` set (cfg_ExcludeIPs cfg)"
    using pushed(2,3) assms(5,6) by (simp add: intercepts_def)
  moreover have "(\<exists>e. (cookie i, Bpf_perf_event_output BPF_F_CURRENT_CPU e) \<in> set (new_calls lru i (attached maps')))
      \<longleftrightarrow> intercepts (attached maps') (skops i)"
    by (auto simp: new_calls_def sockops_established [OF active assms(8)])
  ultimately show ?thesis by simp
qed

theorem pushed_config_decides_witness:
  "\<exists>e. (9, Bpf_perf_event_output BPF_F_CURRENT_CPU e) \<in> set (new_calls demo_lru demo_established (attached demo_pushed))"
proof -
  have "remote_port (skops demo_established) = bpf_htonl False (ucast (443 :: u16))"
    by (simp add: demo_established_def demo_skops_def conversion_defs builtin_bswap32_def le32_def be32_def)
  from pushed_config_decides [where lru = demo_lru and i = demo_established and c = False and port = 443,
      OF demo_update_spec demo_update_spec demo_update_spec TrueI _ _ demo_push _ this]
  show ?thesis
    by (simp add: demo_maps_def demo_cfg_eq demo_established_def demo_skops_def le32_def be32_def)
qed

text \<open>
  The master switch works at run time: after \<open>UpdateEnabled(false)\<close> succeeds the kernel
  program passes every callback through without touching a map or calling a helper.
\<close>

theorem UpdateEnabled_false_stops:
  assumes "update_any_spec upd" and "UpdateEnabled has upd cfg False maps = (maps', None)"
  shows "sockops_run lru (attached maps') is = attached maps'"
proof -
  have "gecit_config maps' 0 = Some (gecitConfig cfg 0)"
    using assms(2)
    by (auto simp: UpdateEnabled_def split: if_splits sum.splits dest!: update_anyD [OF assms(1)])
  then have "\<nexists>c. active_config (attached maps') c"
    by (simp add: active_config_def gecitConfig_def)
  then show ?thesis
    by (induction "is") (simp_all add: sockops_inactive)
qed

theorem UpdateEnabled_false_stops_witness:
  "UpdateEnabled (\<lambda>_. True) demo_update demo_cfg False demo_pushed =
     (demo_pushed\<lparr>gecit_config := [0 \<mapsto> demo_config\<lparr>enabled := 0\<rparr>]\<rparr>, None) \<and>
   sockops_run demo_lru (attached (demo_pushed\<lparr>gecit_config := [0 \<mapsto> demo_config\<lparr>enabled := 0\<rparr>]\<rparr>))
     [demo_established] = attached (demo_pushed\<lparr>gecit_config := [0 \<mapsto> demo_config\<lparr>enabled := 0\<rparr>]\<rparr>)"
proof -
  have u: "UpdateEnabled (\<lambda>_. True) demo_update demo_cfg False demo_pushed =
     (demo_pushed\<lparr>gecit_config := [0 \<mapsto> demo_config\<lparr>enabled := 0\<rparr>]\<rparr>, None)"
    by (simp add: UpdateEnabled_def demo_update_def demo_cfg_eq demo_pushed_def gecitConfig_def demo_config_def)
  from u UpdateEnabled_false_stops [OF demo_update_spec u] show ?thesis by blast
qed

text \<open>
  A connection event survives the trip through the perf ring: the bytes the kernel
  program emits, with whatever padding the ring appends, decode to the same fields, and
  every shorter sample is skipped.
\<close>

theorem read_event_of_conn_event:
  "read_event (conn_event_mem e @ pad) =
     Some \<lparr>ev_SrcIP = src_ip e, ev_DstIP = dst_ip e, ev_SrcPort = src_port e,
           ev_DstPort = dst_port e, ev_Seq = seq e, ev_Ack = ack e\<rparr> \<and>
   (\<forall>n. read_event (take n (conn_event_mem e)) = None \<longleftrightarrow> n < ctype_size conn_event_ctype)"
proof -
  have "length (conn_event_mem e) = 20"
    by (simp add: conn_event_ctype_def round_up_def)
  then show ?thesis
    by (auto simp: conn_event_roundtrip)
      (auto simp: read_event_def conn_event_ctype_def round_up_def split: if_splits)
qed

text \<open>
  The Go mirror of \<open>struct gecit_config_t\<close> has the C struct's layout: the same field
  widths in the same order, and the C struct has no padding, so writing the Go fields one
  after the other fills exactly the C value.  The event decoder's 20 bytes are the size of
  the C event.
\<close>

theorem config_layout_agrees:
  "gecitConfig_widths = map (\<lambda>(_, _, w). w) (member_offsets 0 (struct_members gecit_config_ctype)) \<and>
   no_padding gecit_config_ctype \<and> sum_list gecitConfig_widths = ctype_size (value_type gecit_config_map) \<and>
   no_padding conn_event_ctype \<and> ctype_size conn_event_ctype = 20"
  using gecit_config_no_padding conn_event_no_padding
  by (simp add: gecitConfig_widths_def gecit_config_ctype_def gecit_config_map_def conn_event_ctype_def round_up_def)

end
