(* ===== verification/Inet_Checksum.thy ===== *)
theory Inet_Checksum
  imports Gecit_Prelude
begin

text \<open>
  The Internet checksum of \<open>src/pkg/rawsock/rawsock.go\<close> (RFC 1071): the 32-bit accumulation of
  big-endian words, the loop that folds the carries, a closed form for both, and the fact
  that a buffer whose checksum field has been filled in sums to zero.
\<close>

section \<open>The routine\<close>

text \<open>The accumulation loop and the odd byte after it, in the code's 32-bit arithmetic.\<close>

fun checksum_sum :: "bytes \<Rightarrow> u32 \<Rightarrow> u32" where
  "checksum_sum (a # b # rest) s = checksum_sum rest (s + (push_bit 8 (ucast a) OR ucast b))"
| "checksum_sum [a] s = s + push_bit 8 (ucast a)"
| "checksum_sum [] s = s"

lemma unat_lt2p: "unat (w :: 'a::len word) < 2 ^ LENGTH('a)"
  by (rule unsigned_less)

lemma unat_drop_bit_div: "unat (drop_bit n (w :: 'a::len word)) = unat w div 2 ^ n"
  by (subst unat_drop_bit_eq) (rule drop_bit_eq_div)

lemma fold_step:
  fixes s :: u32
  shows "unat ((s AND 0xFFFF) + drop_bit 16 s) = unat s mod 65536 + unat s div 65536"
proof -
  have m: "unat (s AND 0xFFFF) = unat s mod 65536"
  proof -
    have "s AND 0xFFFF = take_bit 16 s"
      by (simp only: take_bit_eq_mask) (simp add: mask_eq_exp_minus_1)
    then have "unat (s AND 0xFFFF) = take_bit 16 (unat s)"
      by (simp only: unsigned_take_bit_eq)
    then show ?thesis
      by (simp only: take_bit_eq_mod) simp
  qed
  note d = unat_drop_bit_div [of 16 s, simplified]
  have "unat s < 2 ^ 32" using unat_lt2p [of s] by simp
  then have "unat s div 65536 < 65536" by (simp add: less_mult_imp_div_less)
  then have "unat (s AND 0xFFFF) + unat (drop_bit 16 s) < 2 ^ 32"
    using mod_less_divisor [of 65536 "unat s"] by (simp only: m d) simp
  then show ?thesis by (simp add: unat_word_ariths m d)
qed

lemma drop_bit_16_nonzero:
  fixes s :: u32
  shows "drop_bit 16 s \<noteq> 0 \<longleftrightarrow> 65536 \<le> unat s"
proof -
  have "drop_bit 16 s = 0 \<longleftrightarrow> unat (drop_bit 16 s) = 0"
    by (simp add: unsigned_eq_0_iff)
  also have "\<dots> \<longleftrightarrow> unat s div 65536 = 0"
    by (simp only: unat_drop_bit_div) simp
  finally show ?thesis by (simp add: div_eq_0_iff not_less)
qed

function checksum_fold :: "u32 \<Rightarrow> u32" where
  "checksum_fold s =
     (if drop_bit 16 s \<noteq> 0 then checksum_fold ((s AND 0xFFFF) + drop_bit 16 s) else s)"
  by pat_completeness auto
termination
proof (relation "measure unat")
  show "wf (measure (unat :: u32 \<Rightarrow> nat))" by simp
next
  fix s :: u32
  assume "drop_bit 16 s \<noteq> 0"
  then have "65536 \<le> unat s" by (simp add: drop_bit_16_nonzero)
  then have "unat s mod 65536 + unat s div 65536 < unat s"
    using div_mult_mod_eq [of "unat s" 65536] div_greater_zero_iff [of "unat s" 65536] by linarith
  then show "((s AND 0xFFFF) + drop_bit 16 s, s) \<in> measure unat"
    by (simp add: fold_step)
qed

declare checksum_fold.simps [simp del]

definition Checksum :: "bytes \<Rightarrow> u16" where
  "Checksum data = NOT (ucast (checksum_fold (checksum_sum data 0)))"

section \<open>Closed forms\<close>

text \<open>The sum of the big-endian words of a buffer, an odd byte being the high half of a word.\<close>

fun word_sum :: "bytes \<Rightarrow> nat" where
  "word_sum (a # b # rest) = 256 * unat a + unat b + word_sum rest"
| "word_sum [a] = 256 * unat a"
| "word_sum [] = 0"

text \<open>Folding the carries of \<open>n\<close> gives its representative modulo 65535 in 1 .. 65535.\<close>

definition fold_nat :: "nat \<Rightarrow> nat" where
  "fold_nat n = (if n = 0 then 0 else (n - 1) mod 65535 + 1)"

lemma unat_u8_le: "unat (b :: u8) \<le> 255"
  using unat_lt2p [of b] by simp

lemma word_sum_le: "word_sum bs \<le> 65535 * ((length bs + 1) div 2)"
proof (induction bs rule: word_sum.induct)
  case (1 a b rest)
  then show ?case using unat_u8_le [of a] unat_u8_le [of b] by simp
next
  case (2 a)
  then show ?case using unat_u8_le [of a] by simp
qed simp

lemma word_sum_append: "even (length xs) \<Longrightarrow> word_sum (xs @ ys) = word_sum xs + word_sum ys"
  by (induction xs rule: word_sum.induct) simp_all

lemma word_sum_be16 [simp]: "word_sum (be16 w @ ys) = unat w + word_sum ys"
proof -
  have "unat (ucast (drop_bit 8 w) :: u8) = unat w div 256"
    using unat_lt2p [of w] unat_drop_bit_div [of 8 w]
    by (simp add: unsigned_ucast_eq take_bit_eq_mod less_mult_imp_div_less)
  moreover have "unat (ucast w :: u8) = unat w mod 256"
    by (simp add: unsigned_ucast_eq take_bit_eq_mod)
  ultimately show ?thesis by (simp add: be16_def)
qed

lemma unat_be_word: "unat (push_bit 8 (ucast (a :: u8)) OR ucast (b :: u8) :: u32) = 256 * unat a + unat b"
proof -
  have "(push_bit 8 (ucast a) OR ucast b :: u32) = push_bit 8 (ucast a) + ucast b"
    by (rule disjunctive_add [symmetric]) (auto simp: bit_simps)
  moreover have "unat (push_bit 8 (ucast a) :: u32) = 256 * unat a"
    using unat_u8_le [of a]
    by (simp add: push_bit_eq_mult unat_word_ariths unsigned_ucast_eq take_bit_eq_mod)
  moreover have "unat (ucast b :: u32) = unat b"
    using unat_u8_le [of b] by (simp add: unsigned_ucast_eq take_bit_eq_mod)
  ultimately show ?thesis
    using unat_u8_le [of a] unat_u8_le [of b] by (simp add: unat_word_ariths)
qed

lemma checksum_sum_word_sum:
  "unat s + word_sum bs < 2 ^ 32 \<Longrightarrow> unat (checksum_sum bs s) = unat s + word_sum bs"
proof (induction bs s rule: checksum_sum.induct)
  case (1 a b rest s)
  then have "unat (s + (push_bit 8 (ucast a) OR ucast b)) = unat s + (256 * unat a + unat b)"
    by (simp add: unat_word_ariths unat_be_word)
  with 1 show ?case by simp
next
  case (2 a s)
  have "unat (push_bit 8 (ucast a) :: u32) = 256 * unat a"
    using unat_be_word [of a 0] by simp
  with 2 show ?case by (simp add: unat_word_ariths)
qed simp

lemma fold_nat_small: "n < 65536 \<Longrightarrow> fold_nat n = n"
  by (auto simp: fold_nat_def)

lemma fold_nat_step:
  assumes "65536 \<le> n"
  shows "fold_nat (n mod 65536 + n div 65536) = fold_nat n"
proof -
  define q r where "q = n div 65536" and "r = n mod 65536"
  have n: "n = 65536 * q + r" by (simp add: q_def r_def)
  have "0 < q" using assms by (simp add: q_def div_greater_zero_iff)
  then have "n - 1 = 65535 * q + (r + q - 1)" using n by simp
  then have "(n - 1) mod 65535 = (r + q - 1) mod 65535" by simp
  with \<open>0 < q\<close> assms show ?thesis
    by (simp add: fold_nat_def flip: q_def r_def)
qed

lemma checksum_fold_nat: "unat (checksum_fold s) = fold_nat (unat s)"
proof (induction s rule: checksum_fold.induct)
  case (1 s)
  show ?case
  proof (cases "drop_bit 16 s = 0")
    case True
    then have "unat s < 65536" using drop_bit_16_nonzero [of s] by simp
    with True show ?thesis by (simp add: checksum_fold.simps [of s] fold_nat_small)
  next
    case False
    then have "65536 \<le> unat s" using drop_bit_16_nonzero [of s] by simp
    with 1 False show ?thesis
      by (simp add: checksum_fold.simps [of s] fold_step fold_nat_step)
  qed
qed

lemma fold_nat_le: "fold_nat n \<le> 65535"
  unfolding fold_nat_def using mod_less_divisor [of 65535 "n - 1"] by auto

lemma unat_Checksum:
  assumes "word_sum data < 2 ^ 32"
  shows "unat (Checksum data) = 65535 - fold_nat (word_sum data)"
proof -
  let ?f = "checksum_fold (checksum_sum data 0)"
  have f: "unat ?f = fold_nat (word_sum data)"
    using assms by (simp add: checksum_fold_nat checksum_sum_word_sum)
  then have "unat (ucast ?f :: u16) = fold_nat (word_sum data)"
    using fold_nat_le [of "word_sum data"] by (simp add: unsigned_ucast_eq take_bit_eq_mod)
  moreover have "NOT w = - 1 - w" for w :: u16
    by (simp add: not_eq_complement)
  ultimately show ?thesis
    by (simp add: Checksum_def unat_sub unsigned_minus_1_eq_mask mask_eq_exp_minus_1)
qed

section \<open>A filled-in checksum verifies\<close>

lemma fold_nat_complement:
  shows "fold_nat (n + (65535 - fold_nat n)) = 65535"
proof (cases "n = 0")
  case True
  then show ?thesis by (simp add: fold_nat_def)
next
  case False
  define q r where "q = (n - 1) div 65535" and "r = (n - 1) mod 65535"
  have n: "n = 65535 * q + r + 1" using False by (simp add: q_def r_def)
  have "r < 65535" by (simp add: r_def)
  have "fold_nat n = r + 1" using False by (simp add: fold_nat_def r_def)
  then have "n + (65535 - fold_nat n) - 1 = 65534 + 65535 * q"
    using n \<open>r < 65535\<close> by simp
  moreover have "(65534 + 65535 * q) mod 65535 = (65534 :: nat)" by simp
  ultimately show ?thesis using False by (simp add: fold_nat_def)
qed

lemma Checksum_filled:
  assumes "even (length xs)" and "length xs + length ys < 131000"
  shows "Checksum (xs @ be16 (Checksum (xs @ be16 0 @ ys)) @ ys) = 0"
proof -
  let ?n = "word_sum xs + word_sum ys"
  have "word_sum xs \<le> 65535 * ((length xs + 1) div 2)" "word_sum ys \<le> 65535 * ((length ys + 1) div 2)"
    by (rule word_sum_le)+
  moreover have "(length xs + 1) div 2 + (length ys + 1) div 2 \<le> 65501"
    using assms(2) by simp
  ultimately have n: "?n < 65535 * 65502" by (simp add: algebra_simps)
  have "word_sum (xs @ be16 0 @ ys) = ?n"
    using assms(1) by (simp add: word_sum_append)
  with n have c: "unat (Checksum (xs @ be16 0 @ ys)) = 65535 - fold_nat ?n"
    using unat_Checksum [of "xs @ be16 0 @ ys"] by simp
  have "word_sum (xs @ be16 (Checksum (xs @ be16 0 @ ys)) @ ys) = ?n + (65535 - fold_nat ?n)"
    using assms(1) by (simp add: word_sum_append c)
  moreover have "?n + (65535 - fold_nat ?n) < 2 ^ 32" using n by simp
  ultimately have "unat (Checksum (xs @ be16 (Checksum (xs @ be16 0 @ ys)) @ ys)) = 65535 - 65535"
    by (simp only: unat_Checksum fold_nat_complement)
  then show ?thesis by (simp add: unsigned_eq_0_iff)
qed

text \<open>A checksum of zero is a sum of words divisible by 65535: what a receiver checks.\<close>

lemma Checksum_zero_sum:
  assumes "Checksum data = 0" and "word_sum data < 2 ^ 32"
  shows "word_sum data mod 65535 = 0"
proof -
  have "fold_nat (word_sum data) = 65535" using unat_Checksum [OF assms(2)] fold_nat_le [of "word_sum data"] assms(1) by simp
  then have "word_sum data \<noteq> 0" "(word_sum data - 1) mod 65535 = 65534" by (auto simp: fold_nat_def split: if_splits)
  then have "Suc (word_sum data - 1) mod 65535 = 0" by (subst mod_Suc) simp
  with \<open>word_sum data \<noteq> 0\<close> show ?thesis by simp
qed

section \<open>Property\<close>

text \<open>
  The checksum routine computes the ones' complement of the ones'-complement sum of the
  buffer's big-endian words for every buffer up to 128 KiB: the 32-bit accumulator does not
  overflow, and the carry loop, which terminates on every accumulator value, leaves the
  sum's representative modulo 65535.
\<close>

theorem Checksum_is_ones_complement_sum:
  assumes "length data \<le> 131072"
  shows "unat (Checksum data) =
    65535 - (if word_sum data = 0 then 0 else (word_sum data - 1) mod 65535 + 1)"
proof -
  have "word_sum data \<le> 65535 * ((length data + 1) div 2)" by (rule word_sum_le)
  also have "\<dots> \<le> 65535 * 65536" using assms by simp
  finally show ?thesis by (simp add: unat_Checksum fold_nat_def)
qed

theorem Checksum_is_ones_complement_sum_witness:
  "unat (Checksum [0x45, 0, 0x99]) = 65535 - ((0x4500 + 0x9900 - 1) mod 65535 + 1)"
  using Checksum_is_ones_complement_sum [of "[0x45, 0, 0x99]"] by simp

end
