(* ===== verification/Rawsock.thy ===== *)
theory Rawsock
  imports Inet_Checksum Go_Net
begin

text \<open>
  Packet construction of \<open>src/pkg/rawsock\<close>: the IPv4, IPv6 and TCP headers, the
  pseudo-headers, \<open>BuildPacket\<close>, the Ethernet frame, and what \<open>SendFake\<close> hands to the
  operating system on each platform.

  A header is built as in the code: a zeroed slice into which fields are written.
  \<open>put hdr i bs\<close> is a \<open>PutUint\<close> at a constant slice; \<open>copy\<close> is \<open>go_copy\<close>.
\<close>

section \<open>Connections and header fields\<close>

record ConnInfo =
  SrcIP :: ip
  DstIP :: ip
  SrcPort :: u16
  DstPort :: u16
  Seq :: u32
  Ack :: u32
  HopLimit :: u8

definition IPPROTO_TCP_byte :: u8 where
  "IPPROTO_TCP_byte = 6"

definition put :: "bytes \<Rightarrow> nat \<Rightarrow> bytes \<Rightarrow> bytes" where
  "put hdr i bs = take i hdr @ bs @ drop (i + length bs) hdr"

text \<open>
  The byte order the kernel expects in the IPv4 length and identification fields, one
  function per platform in the source.
\<close>

datatype goos = Linux | Darwin | Windows

definition ipHeaderPutUint16_darwin :: "u16 \<Rightarrow> bytes" where
  "ipHeaderPutUint16_darwin v = le16 v"

definition ipHeaderPutUint16_linux :: "u16 \<Rightarrow> bytes" where
  "ipHeaderPutUint16_linux v = be16 v"

definition ipHeaderPutUint16_windows :: "u16 \<Rightarrow> bytes" where
  "ipHeaderPutUint16_windows v = be16 v"

fun ipHeaderPutUint16 :: "goos \<Rightarrow> u16 \<Rightarrow> bytes" where
  "ipHeaderPutUint16 Darwin v = ipHeaderPutUint16_darwin v"
| "ipHeaderPutUint16 Linux v = ipHeaderPutUint16_linux v"
| "ipHeaderPutUint16 Windows v = ipHeaderPutUint16_windows v"

section \<open>Headers\<close>

definition buildIPv4Header :: "goos \<Rightarrow> ConnInfo \<Rightarrow> int \<Rightarrow> nat \<Rightarrow> bytes" where
  "buildIPv4Header os conn ttl payloadLen =
     (let totalLen = 20 + payloadLen;
          hdr = replicate 20 0;
          hdr = hdr[0 := 0x45];
          hdr = put hdr 2 (ipHeaderPutUint16 os (of_nat totalLen));
          hdr = put hdr 4 (ipHeaderPutUint16 os 0x1234);
          hdr = hdr[8 := word_of_int ttl];
          hdr = hdr[9 := IPPROTO_TCP_byte];
          hdr = go_copy hdr 12 16 (nil_bytes (To4 (SrcIP conn)));
          hdr = go_copy hdr 16 20 (nil_bytes (To4 (DstIP conn)));
          cs = Checksum hdr;
          hdr = hdr[10 := ucast (drop_bit 8 cs)];
          hdr = hdr[11 := ucast cs]
      in hdr)"

definition buildIPv6Header :: "ConnInfo \<Rightarrow> int \<Rightarrow> nat \<Rightarrow> bytes" where
  "buildIPv6Header conn hopLimit payloadLen =
     (let hdr = replicate 40 0;
          hdr = hdr[0 := 0x60];
          hdr = put hdr 4 (be16 (of_nat payloadLen));
          hdr = hdr[6 := IPPROTO_TCP_byte];
          hdr = hdr[7 := word_of_int hopLimit];
          hdr = go_copy hdr 8 24 (nil_bytes (To16 (SrcIP conn)));
          hdr = go_copy hdr 24 40 (nil_bytes (To16 (DstIP conn)))
      in hdr)"

definition ipv4PseudoHeader :: "bytes \<Rightarrow> bytes \<Rightarrow> nat \<Rightarrow> bytes" where
  "ipv4PseudoHeader src dst segmentLen =
     src @ dst @ [0, IPPROTO_TCP_byte] @ be16 (of_nat segmentLen)"

definition ipv6PseudoHeader :: "ConnInfo \<Rightarrow> nat \<Rightarrow> bytes" where
  "ipv6PseudoHeader conn segmentLen =
     nil_bytes (To16 (SrcIP conn)) @ nil_bytes (To16 (DstIP conn)) @
     be32 (of_nat segmentLen) @ [0, 0, 0, IPPROTO_TCP_byte]"

definition buildTCPHeader :: "ConnInfo \<Rightarrow> bytes" where
  "buildTCPHeader conn =
     (let hdr = replicate 20 0;
          hdr = put hdr 0 (be16 (SrcPort conn));
          hdr = put hdr 2 (be16 (DstPort conn));
          hdr = put hdr 4 (be32 (Seq conn));
          hdr = put hdr 8 (be32 (Ack conn));
          hdr = hdr[12 := 0x50];
          hdr = hdr[13 := 0x18];
          hdr = put hdr 14 (be16 502)
      in hdr)"

definition BuildPacket :: "goos \<Rightarrow> ConnInfo \<Rightarrow> bytes \<Rightarrow> int \<Rightarrow> bytes" where
  "BuildPacket os conn payload ttl =
     (let tcpHdr = buildTCPHeader conn;
          segment = tcpHdr @ payload;
          (ipHdr, pseudoHdr) =
            (case To4 (SrcIP conn) of
               Some src4 \<Rightarrow>
                 (buildIPv4Header os conn ttl (length segment),
                  ipv4PseudoHeader src4 (nil_bytes (To4 (DstIP conn))) (length segment))
             | None \<Rightarrow>
                 (buildIPv6Header conn ttl (length segment),
                  ipv6PseudoHeader conn (length segment)));
          pkt = ipHdr @ segment;
          cs = Checksum (pseudoHdr @ segment);
          tcpChecksumOffset = length ipHdr + 16;
          pkt = pkt[tcpChecksumOffset := ucast (drop_bit 8 cs)];
          pkt = pkt[tcpChecksumOffset + 1 := ucast cs]
      in pkt)"

definition etherTypeIPv4 :: u16 where "etherTypeIPv4 = 0x0800"
definition etherTypeIPv6 :: u16 where "etherTypeIPv6 = 0x86dd"
definition etherHeaderLen :: nat where "etherHeaderLen = 14"

definition BuildEthernetFrame :: "bytes \<Rightarrow> bytes \<Rightarrow> bytes \<Rightarrow> bytes" where
  "BuildEthernetFrame srcMAC dstMAC ipPacket =
     (let frame = replicate (etherHeaderLen + length ipPacket) 0;
          frame = go_copy frame 0 6 dstMAC;
          frame = go_copy frame 6 12 srcMAC;
          etherType = (if 0 < length ipPacket \<and> drop_bit 4 (ipPacket ! 0) = 6
                       then etherTypeIPv6 else etherTypeIPv4);
          frame = put frame 12 (be16 etherType);
          frame = go_copy frame etherHeaderLen (length frame) ipPacket
      in frame)"

section \<open>SendFake\<close>

text \<open>
  What a platform's \<open>SendFake\<close> asks the operating system to transmit: a raw datagram to an
  IPv4 socket address, or a link-layer frame.  The injector's hardware addresses are those
  of its last \<open>resolve\<close>, whose failure is \<open>None\<close>.
\<close>

datatype transmission =
    Sendto bytes bytes
  | WritePacketData bytes

definition SendFake_linux :: "ConnInfo \<Rightarrow> bytes \<Rightarrow> int \<Rightarrow> transmission" where
  "SendFake_linux conn payload ttl =
     Sendto (BuildPacket Linux conn payload ttl)
       (go_copy (replicate 4 0) 0 4 (nil_bytes (To4 (DstIP conn))))"

definition injector_send :: "(bytes \<times> bytes) option \<Rightarrow> ConnInfo \<Rightarrow> bytes \<Rightarrow> int \<Rightarrow> transmission option" where
  "injector_send macs conn payload ttl =
     (case macs of
        None \<Rightarrow> None
      | Some (srcMAC, dstMAC) \<Rightarrow>
          Some (WritePacketData (BuildEthernetFrame srcMAC dstMAC (BuildPacket Darwin conn payload ttl))))"

definition SendFake_darwin ::
    "(bytes \<times> bytes) option \<Rightarrow> ConnInfo \<Rightarrow> bytes \<Rightarrow> int \<Rightarrow> transmission option" where
  "SendFake_darwin macs conn payload ttl =
     (if To4 (DstIP conn) = None then injector_send macs conn payload ttl
      else Some (Sendto (BuildPacket Darwin conn payload ttl)
             (go_copy (replicate 4 0) 0 4 (nil_bytes (To4 (DstIP conn))))))"

definition SendFake_windows :: "bytes \<Rightarrow> bytes \<Rightarrow> ConnInfo \<Rightarrow> bytes \<Rightarrow> int \<Rightarrow> transmission" where
  "SendFake_windows srcMAC dstMAC conn payload ttl =
     (let ipTcp = BuildPacket Windows conn payload ttl;
          frame = replicate (14 + length ipTcp) 0;
          frame = go_copy frame 0 6 dstMAC;
          frame = go_copy frame 6 12 srcMAC;
          frame = frame[12 := 0x08];
          frame = frame[13 := 0x00];
          frame = go_copy frame 14 (length frame) ipTcp
      in WritePacketData frame)"

section \<open>Headers written out\<close>

text \<open>Lists of known length as explicit lists, so that writing a field computes.\<close>

lemma length_2_conv: "length xs = 2 \<longleftrightarrow> (\<exists>a b. xs = [a, b])"
  by (auto simp: length_Suc_conv numeral_eq_Suc)

lemma length_4_conv: "length xs = 4 \<longleftrightarrow> (\<exists>a b c d. xs = [a, b, c, d])"
  by (auto simp: length_Suc_conv numeral_eq_Suc)

lemma replicate_20: "replicate 20 x = [x, x, x, x, x, x, x, x, x, x, x, x, x, x, x, x, x, x, x, x]"
  by (simp add: numeral_eq_Suc)

lemma length_ipHeaderPutUint16 [simp]: "length (ipHeaderPutUint16 os v) = 2"
  by (cases os)
    (simp_all add: ipHeaderPutUint16_darwin_def ipHeaderPutUint16_linux_def ipHeaderPutUint16_windows_def)

lemma length_put [simp]: "i + length bs \<le> length hdr \<Longrightarrow> length (put hdr i bs) = length hdr"
  by (simp add: put_def)

lemma length_buildTCPHeader [simp]: "length (buildTCPHeader conn) = 20"
  by (simp add: buildTCPHeader_def Let_def)

lemma length_buildIPv4Header [simp]: "length (buildIPv4Header os conn ttl n) = 20"
  by (simp add: buildIPv4Header_def Let_def)

lemma length_buildIPv6Header [simp]: "length (buildIPv6Header conn ttl n) = 40"
  by (simp add: buildIPv6Header_def Let_def)

lemma buildTCPHeader_eq:
  "buildTCPHeader conn = be16 (SrcPort conn) @ be16 (DstPort conn) @ be32 (Seq conn) @
     be32 (Ack conn) @ [0x50, 0x18] @ be16 502 @ be16 0 @ [0, 0]"
  by (simp add: buildTCPHeader_def Let_def put_def replicate_20 be16_def be32_def)

text \<open>The IPv4 header before its checksum is filled in is the header with checksum zero.\<close>

definition ipv4_header_with :: "goos \<Rightarrow> u16 \<Rightarrow> bytes \<Rightarrow> bytes \<Rightarrow> int \<Rightarrow> nat \<Rightarrow> bytes" where
  "ipv4_header_with os cs s d ttl n =
     ([0x45, 0] @ ipHeaderPutUint16 os (of_nat (20 + n)) @ ipHeaderPutUint16 os 0x1234 @ [0, 0] @
      [word_of_int ttl, 6]) @ be16 cs @ s @ d"

lemma buildIPv4Header_eq:
  assumes "To4 (SrcIP conn) = Some s" and "To4 (DstIP conn) = Some d"
  shows "buildIPv4Header os conn ttl n =
    ipv4_header_with os (Checksum (ipv4_header_with os 0 s d ttl n)) s d ttl n"
proof -
  obtain s0 s1 s2 s3 where s: "s = [s0, s1, s2, s3]"
    using To4_length [OF assms(1)] by (auto simp: length_4_conv)
  obtain d0 d1 d2 d3 where d: "d = [d0, d1, d2, d3]"
    using To4_length [OF assms(2)] by (auto simp: length_4_conv)
  obtain l0 l1 where l: "ipHeaderPutUint16 os (of_nat (20 + n)) = [l0, l1]"
    using length_ipHeaderPutUint16 [of os] by (meson length_2_conv)
  obtain i0 i1 where i: "ipHeaderPutUint16 os 0x1234 = [i0, i1]"
    using length_ipHeaderPutUint16 [of os] by (meson length_2_conv)
  show ?thesis
    unfolding buildIPv4Header_def Let_def ipv4_header_with_def assms l i
    by (simp add: put_def go_copy_def replicate_20 s d be16_def IPPROTO_TCP_byte_def)
qed

lemma ipv4_header_checksum:
  assumes "To4 (SrcIP conn) = Some s" and "To4 (DstIP conn) = Some d"
  shows "Checksum (buildIPv4Header os conn ttl n) = 0"
  unfolding buildIPv4Header_eq [OF assms] ipv4_header_with_def
  using To4_length [OF assms(1)] To4_length [OF assms(2)] by (intro Checksum_filled) simp_all

lemma buildIPv6Header_eq:
  assumes "To16 (SrcIP conn) = Some s" and "To16 (DstIP conn) = Some d"
  shows "buildIPv6Header conn ttl n =
    [0x60, 0, 0, 0] @ be16 (of_nat n) @ [6, word_of_int ttl] @ s @ d"
proof -
  have "length s = 16" "length d = 16"
    using To16_length [OF assms(1)] To16_length [OF assms(2)] by simp_all
  have r: "replicate 40 (0 :: u8) = [0, 0, 0, 0, 0, 0, 0, 0] @ replicate 16 0 @ replicate 16 0"
    by (simp add: numeral_eq_Suc)
  show ?thesis
    using \<open>length s = 16\<close> \<open>length d = 16\<close>
    unfolding buildIPv6Header_def Let_def assms r
    by (simp add: put_def go_copy_def be16_def IPPROTO_TCP_byte_def)
qed

section \<open>Packets written out\<close>

text \<open>The segment with a given checksum field.\<close>

definition tcp_head :: "ConnInfo \<Rightarrow> bytes" where
  "tcp_head conn = be16 (SrcPort conn) @ be16 (DstPort conn) @ be32 (Seq conn) @ be32 (Ack conn) @
     [0x50, 0x18] @ be16 502"

definition tcp_segment :: "ConnInfo \<Rightarrow> u16 \<Rightarrow> bytes \<Rightarrow> bytes" where
  "tcp_segment conn cs payload = tcp_head conn @ be16 cs @ [0, 0] @ payload"

lemma length_tcp_head [simp]: "length (tcp_head conn) = 16"
  by (simp add: tcp_head_def)

lemma length_tcp_segment [simp]: "length (tcp_segment conn cs payload) = 20 + length payload"
  by (simp add: tcp_segment_def)

lemma unfilled_segment: "buildTCPHeader conn @ payload = tcp_segment conn 0 payload"
  by (simp add: buildTCPHeader_eq tcp_segment_def tcp_head_def)

lemma fill_checksum:
  "(ip @ tcp_segment conn 0 payload)[length ip + 16 := ucast (drop_bit 8 cs), length ip + 17 := ucast cs] =
   ip @ tcp_segment conn cs payload"
  by (simp add: tcp_segment_def list_update_append be16_def)

lemma BuildPacket_v4:
  assumes "To4 (SrcIP conn) = Some s" and "To4 (DstIP conn) = Some d"
  shows "BuildPacket os conn payload ttl =
    buildIPv4Header os conn ttl (20 + length payload) @
    tcp_segment conn (Checksum (ipv4PseudoHeader s d (20 + length payload) @ tcp_segment conn 0 payload)) payload"
  using fill_checksum [of "buildIPv4Header os conn ttl (20 + length payload)" conn payload]
  by (simp add: BuildPacket_def Let_def assms unfilled_segment)

lemma BuildPacket_v6:
  assumes "To4 (SrcIP conn) = None"
  shows "BuildPacket os conn payload ttl =
    buildIPv6Header conn ttl (20 + length payload) @
    tcp_segment conn (Checksum (ipv6PseudoHeader conn (20 + length payload) @ tcp_segment conn 0 payload)) payload"
  using fill_checksum [of "buildIPv6Header conn ttl (20 + length payload)" conn payload]
  by (simp add: BuildPacket_def Let_def assms unfilled_segment)

lemma segment_checksum:
  assumes "even (length pseudo)" and "length pseudo \<le> 40" and "length payload \<le> 65535"
  shows "Checksum (pseudo @ tcp_segment conn (Checksum (pseudo @ tcp_segment conn 0 payload)) payload) = 0"
  using Checksum_filled [of "pseudo @ tcp_head conn" "[0, 0] @ payload"] assms
  by (simp add: tcp_segment_def)

section \<open>Reading a packet\<close>

text \<open>The segment part of a packet read the way a receiver does.\<close>

definition segment_fields :: "bytes \<Rightarrow> (u16 \<times> u16 \<times> u32 \<times> u32 \<times> u8 \<times> bytes)" where
  "segment_fields seg =
     (of_be16 seg, of_be16 (drop 2 seg), of_be32 (drop 4 seg), of_be32 (drop 8 seg), seg ! 13,
      drop (4 * unat (drop_bit 4 (seg ! 12))) seg)"

lemma segment_fields_tcp_segment:
  "segment_fields (tcp_segment conn cs payload) =
     (SrcPort conn, DstPort conn, Seq conn, Ack conn, 0x18, payload)"
  by (simp add: segment_fields_def tcp_segment_def tcp_head_def codec nth_append drop_bit_eq_div)

section \<open>Concrete connections\<close>

definition demo_conn4 :: ConnInfo where
  "demo_conn4 = \<lparr>SrcIP = [10, 0, 0, 1], DstIP = [93, 184, 216, 34], SrcPort = 51234, DstPort = 443,
     Seq = 1000, Ack = 77, HopLimit = 0\<rparr>"

definition demo_conn6 :: ConnInfo where
  "demo_conn6 = \<lparr>SrcIP = [0x20, 1] @ replicate 13 0 @ [1], DstIP = [0x20, 1] @ replicate 13 0 @ [2],
     SrcPort = 51234, DstPort = 443, Seq = 1000, Ack = 77, HopLimit = 0\<rparr>"

lemma demo_conn4_To4:
  "To4 (SrcIP demo_conn4) = Some [10, 0, 0, 1]" "To4 (DstIP demo_conn4) = Some [93, 184, 216, 34]"
  by (simp_all add: demo_conn4_def)

lemma demo_conn6_To16:
  "To4 (SrcIP demo_conn6) = None"
  "To16 (SrcIP demo_conn6) = Some (SrcIP demo_conn6)" "To16 (DstIP demo_conn6) = Some (DstIP demo_conn6)"
  by (simp_all add: demo_conn6_def To4_def To16_def v4_in_v6_prefix_def numeral_eq_Suc)

lemma length_of_word_sum: "length data \<le> 131072 \<Longrightarrow> word_sum data < 2 ^ 32"
  using word_sum_le [of data] by (simp add: div_le_mono order.strict_trans1 [OF _ less_le_trans])

text \<open>
  The TCP checksum the way a receiver checks it: the words of both addresses, the protocol
  number, the length of the segment and the words of the segment add up to a multiple of 65535.
\<close>

definition tcp_sum :: "bytes \<Rightarrow> bytes \<Rightarrow> bytes \<Rightarrow> nat" where
  "tcp_sum s d segment = word_sum s + word_sum d + 6 + length segment + word_sum segment"

lemma word_sum_be32_small:
  assumes "n < 65536"
  shows "word_sum (be32 (of_nat n) @ ys) = n + word_sum ys"
proof -
  have u: "unat (of_nat n :: u32) = n" using assms by (simp add: unsigned_of_nat take_bit_eq_mod)
  have "n div 256 < 256" using assms by (simp add: less_mult_imp_div_less)
  with assms show ?thesis
    by (simp add: be32_def unsigned_ucast_eq take_bit_eq_mod u unat_drop_bit_div div_eq_0_iff less_mult_imp_div_less)
qed

lemma v6_pseudo_sum:
  assumes "To16 (SrcIP conn) = Some s" and "To16 (DstIP conn) = Some d" and "n < 65536"
  shows "word_sum (ipv6PseudoHeader conn n @ ys) = word_sum s + word_sum d + 6 + n + word_sum ys"
proof -
  have "even (length s)" "even (length d)" using To16_length [OF assms(1)] To16_length [OF assms(2)] by simp_all
  then show ?thesis
    using assms by (simp add: ipv6PseudoHeader_def IPPROTO_TCP_byte_def word_sum_append word_sum_be32_small [of n "[]", simplified])
qed

lemma v4_pseudo_sum:
  assumes "length s = 4" and "length d = 4" and "n < 65536"
  shows "word_sum (ipv4PseudoHeader s d n @ ys) = word_sum s + word_sum d + 6 + n + word_sum ys"
  using assms by (simp add: ipv4PseudoHeader_def IPPROTO_TCP_byte_def word_sum_append unsigned_of_nat take_bit_eq_mod)

text \<open>
  A 16-bit field of the IPv4 header as the platform's kernel takes it from a raw socket:
  little-endian on macOS, big-endian elsewhere.
\<close>

definition ip_field :: "goos \<Rightarrow> bytes \<Rightarrow> nat \<Rightarrow> nat" where
  "ip_field os pkt i =
     (if os = Darwin then unat (pkt ! i) + 256 * unat (pkt ! (i + 1))
      else 256 * unat (pkt ! i) + unat (pkt ! (i + 1)))"

lemma ip_field_put:
  assumes "pkt = xs @ ipHeaderPutUint16 os w @ ys" and "length xs = i"
  shows "ip_field os pkt i = unat w"
proof -
  have "unat (ucast (drop_bit 8 w) :: u8) = unat w div 256"
    using unat_lt2p [of w] unat_drop_bit_div [of 8 w]
    by (simp add: unsigned_ucast_eq take_bit_eq_mod less_mult_imp_div_less)
  moreover have "unat (ucast w :: u8) = unat w mod 256" by (simp add: unsigned_ucast_eq take_bit_eq_mod)
  ultimately show ?thesis using assms
    by (cases os) (simp_all add: ip_field_def nth_append ipHeaderPutUint16_darwin_def ipHeaderPutUint16_linux_def
        ipHeaderPutUint16_windows_def be16_def le16_def)
qed

lemma v4_packet_facts:
  assumes "To4 (SrcIP conn) = Some s" and "To4 (DstIP conn) = Some d"
    and "length payload \<le> 65495" and "pkt = BuildPacket os conn payload ttl"
  shows "length pkt = 40 + length payload \<and>
    take 2 pkt = [0x45, 0] \<and> ip_field os pkt 2 = length pkt \<and> ip_field os pkt 4 = 0x1234 \<and>
    take 2 (drop 6 pkt) = [0, 0] \<and> pkt ! 8 = word_of_int ttl \<and> pkt ! 9 = 6 \<and>
    take 4 (drop 12 pkt) = s \<and> take 4 (drop 16 pkt) = d \<and>
    segment_fields (drop 20 pkt) = (SrcPort conn, DstPort conn, Seq conn, Ack conn, 0x18, payload) \<and>
    word_sum (take 20 pkt) mod 65535 = 0 \<and> tcp_sum s d (drop 20 pkt) mod 65535 = 0"
proof (intro conjI)
  note pkt = BuildPacket_v4 [OF assms(1,2), of os payload ttl, folded assms(4)]
  note lens = To4_length [OF assms(1)] To4_length [OF assms(2)]
  show len: "length pkt = 40 + length payload" by (simp add: pkt)
  have hdr: "take 20 pkt = buildIPv4Header os conn ttl (20 + length payload)" by (simp add: pkt)
  from Checksum_zero_sum [OF ipv4_header_checksum [OF assms(1,2)] length_of_word_sum]
  show "word_sum (take 20 pkt) mod 65535 = 0" by (simp add: hdr)
  show "segment_fields (drop 20 pkt) = (SrcPort conn, DstPort conn, Seq conn, Ack conn, 0x18, payload)"
    by (simp add: pkt segment_fields_tcp_segment)
  let ?pseudo = "ipv4PseudoHeader s d (20 + length payload)"
  have "even (length ?pseudo)" "length ?pseudo \<le> 40" by (simp_all add: ipv4PseudoHeader_def lens)
  from segment_checksum [OF this] assms(3) have "Checksum (?pseudo @ drop 20 pkt) = 0" by (simp add: pkt)
  from Checksum_zero_sum [OF this length_of_word_sum] assms(3)
  have "word_sum (?pseudo @ drop 20 pkt) mod 65535 = 0" by (simp add: ipv4PseudoHeader_def lens len)
  then show "tcp_sum s d (drop 20 pkt) mod 65535 = 0" using assms(3) by (simp add: v4_pseudo_sum lens tcp_sum_def len)
  obtain cs rest where pkt': "pkt = [0x45, 0] @ ipHeaderPutUint16 os (of_nat (40 + length payload)) @
      ipHeaderPutUint16 os 0x1234 @ [0, 0] @ [word_of_int ttl, 6] @ be16 cs @ s @ d @ rest"
    using pkt by (simp add: buildIPv4Header_eq [OF assms(1,2)] ipv4_header_with_def)
  have "ip_field os pkt 2 = unat (of_nat (40 + length payload) :: u16)" by (rule ip_field_put [OF pkt']) simp
  with assms(3) show "ip_field os pkt 2 = length pkt"
    unfolding len by (simp add: unsigned_of_nat take_bit_eq_mod del: of_nat_add of_nat_numeral)
  have "ip_field os pkt 4 = unat (0x1234 :: u16)"
    by (rule ip_field_put [of pkt "[0x45, 0] @ ipHeaderPutUint16 os (of_nat (40 + length payload))"])
      (simp_all only: pkt' append_assoc length_append length_ipHeaderPutUint16, simp)
  then show "ip_field os pkt 4 = 0x1234" by simp
  from pkt' show "take 2 pkt = [0x45, 0]" "take 2 (drop 6 pkt) = [0, 0]" "pkt ! 8 = word_of_int ttl" "pkt ! 9 = 6"
    "take 4 (drop 12 pkt) = s" "take 4 (drop 16 pkt) = d"
    by (simp_all add: nth_append lens)
qed

section \<open>Properties\<close>

text \<open>
  C25: An IPv4 fake packet is well formed on every platform: its header is version 4 with five
  words, carries the total length and the identification 0x1234 in the platform's byte order, no
  fragmentation, the given TTL, protocol number 6 and both addresses; the segment carries the
  connection's ports, sequence and acknowledgement numbers, PSH+ACK, and the payload untouched.
  Both checksums verify the way a receiver verifies them, stated without the code's routine and
  pseudo-header: the big-endian words of the header add up to a multiple of 65535, and so do
  those of the addresses, the protocol number 6, the segment length and the words of the segment.
\<close>

theorem BuildPacket_v4_wellformed:
  assumes "To4 (SrcIP conn) = Some s" and "To4 (DstIP conn) = Some d"
    and "length payload \<le> 65495" and "pkt = BuildPacket os conn payload ttl"
  shows "length pkt = 40 + length payload \<and>
    take 2 pkt = [0x45, 0] \<and> ip_field os pkt 2 = length pkt \<and> ip_field os pkt 4 = 0x1234 \<and>
    take 2 (drop 6 pkt) = [0, 0] \<and> pkt ! 8 = word_of_int ttl \<and> pkt ! 9 = 6 \<and>
    take 4 (drop 12 pkt) = s \<and> take 4 (drop 16 pkt) = d \<and>
    segment_fields (drop 20 pkt) = (SrcPort conn, DstPort conn, Seq conn, Ack conn, 0x18, payload) \<and>
    word_sum (take 20 pkt) mod 65535 = 0 \<and>
    (word_sum s + word_sum d + 6 + length (drop 20 pkt) + word_sum (drop 20 pkt)) mod 65535 = 0"
  using v4_packet_facts [OF assms] by (simp only: tcp_sum_def)

theorem BuildPacket_v4_wellformed_witness:
  "length (BuildPacket Linux demo_conn4 [1, 2, 3] 8) = 43 \<and>
   BuildPacket Linux demo_conn4 [1, 2, 3] 8 ! 8 = 8 \<and>
   take 4 (drop 16 (BuildPacket Linux demo_conn4 [1, 2, 3] 8)) = [93, 184, 216, 34] \<and>
   word_sum (take 20 (BuildPacket Linux demo_conn4 [1, 2, 3] 8)) mod 65535 = 0"
  using BuildPacket_v4_wellformed [OF demo_conn4_To4 _ refl, of "[1, 2, 3]" Linux 8] by simp

text \<open>
  C26: An IPv6 fake packet is well formed: a fixed header of version 6 with the payload length,
  next header 6, the given hop limit and both addresses, then the segment as for IPv4, whose TCP
  checksum verifies the way a receiver verifies it: the words of both addresses, the segment
  length, the next header 6 and the words of the segment add up to a multiple of 65535.
\<close>

theorem BuildPacket_v6_wellformed:
  assumes "To4 (SrcIP conn) = None" and "To16 (SrcIP conn) = Some s" and "To16 (DstIP conn) = Some d"
    and "length payload \<le> 65515" and "pkt = BuildPacket os conn payload ttl"
  shows "length pkt = 60 + length payload \<and>
    take 4 pkt = [0x60, 0, 0, 0] \<and> unat (of_be16 (drop 4 pkt)) = length pkt - 40 \<and>
    pkt ! 6 = 6 \<and> pkt ! 7 = word_of_int ttl \<and>
    take 16 (drop 8 pkt) = s \<and> take 16 (drop 24 pkt) = d \<and>
    segment_fields (drop 40 pkt) = (SrcPort conn, DstPort conn, Seq conn, Ack conn, 0x18, payload) \<and>
    (word_sum s + word_sum d + length (drop 40 pkt) + 6 + word_sum (drop 40 pkt)) mod 65535 = 0"
proof (intro conjI)
  note pkt = BuildPacket_v6 [OF assms(1), of os payload ttl, folded assms(5)]
  note lens = To16_length [OF assms(2)] To16_length [OF assms(3)]
  show len: "length pkt = 60 + length payload" by (simp add: pkt)
  show "segment_fields (drop 40 pkt) = (SrcPort conn, DstPort conn, Seq conn, Ack conn, 0x18, payload)"
    by (simp add: pkt segment_fields_tcp_segment)
  let ?pseudo = "ipv6PseudoHeader conn (20 + length payload)"
  have p: "length ?pseudo = 40" by (simp add: ipv6PseudoHeader_def assms(2,3) lens)
  with segment_checksum [of ?pseudo payload conn] assms(4) have "Checksum (?pseudo @ drop 40 pkt) = 0" by (simp add: pkt)
  from Checksum_zero_sum [OF this length_of_word_sum] assms(4)
  have "word_sum (?pseudo @ drop 40 pkt) mod 65535 = 0" by (simp add: p len)
  then show "(word_sum s + word_sum d + length (drop 40 pkt) + 6 + word_sum (drop 40 pkt)) mod 65535 = 0"
    using assms(4) by (simp add: v6_pseudo_sum [OF assms(2,3)] len ac_simps)
  obtain rest where pkt': "pkt = [0x60, 0, 0, 0] @ be16 (of_nat (20 + length payload)) @
      [6, word_of_int ttl] @ s @ d @ rest"
    using pkt by (simp add: buildIPv6Header_eq [OF assms(2,3)])
  then have "of_be16 (drop 4 pkt) = of_nat (20 + length payload)"
    by (simp add: codec)
  with assms(4) show "unat (of_be16 (drop 4 pkt)) = length pkt - 40"
    by (simp add: len unsigned_of_nat take_bit_eq_mod flip: of_nat_add)
  from pkt' show "take 4 pkt = [0x60, 0, 0, 0]" "pkt ! 6 = 6" "pkt ! 7 = word_of_int ttl"
    "take 16 (drop 8 pkt) = s" "take 16 (drop 24 pkt) = d"
    by (simp_all add: nth_append lens)
qed

theorem BuildPacket_v6_wellformed_witness:
  "length (BuildPacket Darwin demo_conn6 [1, 2, 3] 8) = 63 \<and>
   take 16 (drop 24 (BuildPacket Darwin demo_conn6 [1, 2, 3] 8)) = DstIP demo_conn6"
  using BuildPacket_v6_wellformed [OF demo_conn6_To16 _ refl, of "[1, 2, 3]" Darwin 8] by simp

lemma BuildEthernetFrame_eq:
  assumes "length srcMAC = 6" and "length dstMAC = 6"
  shows "BuildEthernetFrame srcMAC dstMAC p = dstMAC @ srcMAC @
    be16 (if p \<noteq> [] \<and> drop_bit 4 (hd p) = 6 then 0x86dd else 0x0800) @ p"
proof -
  have r: "replicate (14 + length p) (0 :: u8) =
      replicate 6 0 @ replicate 6 0 @ [0, 0] @ replicate (length p) 0"
    by (simp add: numeral_eq_Suc)
  show ?thesis
    using assms unfolding BuildEthernetFrame_def Let_def etherHeaderLen_def r
    by (cases p) (simp_all add: go_copy_def put_def etherTypeIPv4_def etherTypeIPv6_def)
qed

text \<open>
  The Ethernet frame around a fake packet carries the packet unchanged after a 14-byte
  header: destination and source hardware addresses, and the ether type of the packet's IP
  version, which is the version of the connection's source address.
\<close>

theorem ethernet_frame_of_packet:
  assumes "length srcMAC = 6" and "length dstMAC = 6"
    and "To4 (SrcIP conn) = None \<longrightarrow> To16 (SrcIP conn) \<noteq> None \<and> To16 (DstIP conn) \<noteq> None"
    and "To4 (SrcIP conn) \<noteq> None \<longrightarrow> To4 (DstIP conn) \<noteq> None"
  shows "BuildEthernetFrame srcMAC dstMAC (BuildPacket os conn payload ttl) =
    dstMAC @ srcMAC @ be16 (if To4 (SrcIP conn) = None then 0x86dd else 0x0800) @
    BuildPacket os conn payload ttl"
proof (cases "To4 (SrcIP conn)")
  case None
  with assms(3) obtain s d where "To16 (SrcIP conn) = Some s" "To16 (DstIP conn) = Some d" by auto
  then show ?thesis
    using None
    by (simp add: BuildEthernetFrame_eq [OF assms(1,2)] BuildPacket_v6 buildIPv6Header_eq drop_bit_eq_div)
next
  case (Some s)
  with assms(4) obtain d where "To4 (DstIP conn) = Some d" by auto
  then show ?thesis
    using Some
    by (simp add: BuildEthernetFrame_eq [OF assms(1,2)] BuildPacket_v4 buildIPv4Header_eq
        ipv4_header_with_def drop_bit_eq_div)
qed

theorem ethernet_frame_of_packet_witness:
  "BuildEthernetFrame [1, 2, 3, 4, 5, 6] [7, 8, 9, 10, 11, 12] (BuildPacket Darwin demo_conn6 [1] 8) =
   [7, 8, 9, 10, 11, 12, 1, 2, 3, 4, 5, 6, 0x86, 0xdd] @ BuildPacket Darwin demo_conn6 [1] 8"
  using ethernet_frame_of_packet [of "[1, 2, 3, 4, 5, 6]" "[7, 8, 9, 10, 11, 12]" demo_conn6 Darwin "[1]" 8]
  by (simp add: demo_conn6_To16 be16_def)

end
