(* ===== verification/Fake_Hello.thy ===== *)
theory Fake_Hello
  imports Gecit_Prelude "HOL-Library.Sublist" "HOL-Library.Monad_Syntax"
begin

text \<open>
  The fake TLS ClientHello of \<open>src/pkg/fake/clienthello.go\<close> and the parser of
  \<open>src/pkg/fake/sni.go\<close> that reads the server name out of a real one.

  Indexing and slicing are checked: \<open>None\<close> is the panic of an index or slice out of
  range (taking the slice's length as its capacity, the stricter of the two bounds).  A Go
  string is its bytes.
\<close>

section \<open>Checked slices\<close>

definition idx :: "bytes \<Rightarrow> nat \<Rightarrow> u8 option" where
  "idx b i = (if i < length b then Some (b ! i) else None)"

definition slice_at :: "bytes \<Rightarrow> nat \<Rightarrow> nat \<Rightarrow> bytes option" where
  "slice_at b i j = (if i \<le> j \<and> j \<le> length b then Some (take (j - i) (drop i b)) else None)"

text \<open>\<open>int(b[i])<<8 | int(b[i+1])\<close>.\<close>

definition u16_at :: "bytes \<Rightarrow> nat \<Rightarrow> nat option" where
  "u16_at b i = do { x \<leftarrow> idx b i; y \<leftarrow> idx b (i + 1); Some (push_bit 8 (unat x) OR unat y) }"

lemma idx_Some [simp]: "i < length b \<Longrightarrow> idx b i = Some (b ! i)"
  by (simp add: idx_def)

lemma slice_at_Some [simp]: "i \<le> j \<Longrightarrow> j \<le> length b \<Longrightarrow> slice_at b i j = Some (take (j - i) (drop i b))"
  by (simp add: slice_at_def)

lemma sublist_slice_at: "slice_at b i j = Some s \<Longrightarrow> sublist s b"
  by (auto simp: slice_at_def split: if_splits)
    (meson sublist_drop sublist_order.order_trans sublist_take)

lemma length_slice_at: "slice_at b i j = Some s \<Longrightarrow> length s = j - i"
  by (auto simp: slice_at_def split: if_splits)

section \<open>The parser\<close>

text \<open>The loop over the entries of a server_name list.\<close>

function sni_entries :: "bytes \<Rightarrow> bytes option" where
  "sni_entries entries =
     (if length entries < 3 then Some []
      else do {
        nameType \<leftarrow> idx entries 0;
        nameLen \<leftarrow> u16_at entries 1;
        if 3 + nameLen > length entries then Some []
        else if nameType = 0 then slice_at entries 3 (3 + nameLen)
        else do { entries' \<leftarrow> slice_at entries (3 + nameLen) (length entries); sni_entries entries' } })"
  by pat_completeness auto
termination
  by (relation "measure length") (auto dest: length_slice_at)

definition parseSNIExtension :: "bytes \<Rightarrow> bytes option" where
  "parseSNIExtension data =
     (if length data < 2 then Some []
      else do {
        listLen \<leftarrow> u16_at data 0;
        if 2 + listLen > length data then Some []
        else do { entries \<leftarrow> slice_at data 2 (2 + listLen); sni_entries entries } })"

text \<open>The loop over the extensions.\<close>

function extensions :: "bytes \<Rightarrow> bytes option" where
  "extensions exts =
     (if length exts < 4 then Some []
      else do {
        extType \<leftarrow> u16_at exts 0;
        extDataLen \<leftarrow> u16_at exts 2;
        if 4 + extDataLen > length exts then Some []
        else if extType = 0 then do { d \<leftarrow> slice_at exts 4 (4 + extDataLen); parseSNIExtension d }
        else do { exts' \<leftarrow> slice_at exts (4 + extDataLen) (length exts); extensions exts' } })"
  by pat_completeness auto
termination
  by (relation "measure length") (auto dest: length_slice_at)

declare sni_entries.simps [simp del] and extensions.simps [simp del]

text \<open>The body of the ClientHello after the handshake header.\<close>

definition parse_body :: "bytes \<Rightarrow> bytes option" where
  "parse_body body =
     (if length body < 34 then Some [] else
      let pos = 34 in
      if pos \<ge> length body then Some [] else do {
      sidLen \<leftarrow> idx body pos;
      let pos = pos + (1 + unat sidLen);
      if pos + 2 > length body then Some [] else do {
      csLen \<leftarrow> u16_at body pos;
      let pos = pos + (2 + csLen);
      if pos \<ge> length body then Some [] else do {
      cmLen \<leftarrow> idx body pos;
      let pos = pos + (1 + unat cmLen);
      if pos + 2 > length body then Some [] else do {
      extLen \<leftarrow> u16_at body pos;
      let pos = pos + 2;
      if pos + extLen > length body then Some [] else do {
      exts \<leftarrow> slice_at body pos (pos + extLen);
      extensions exts }}}}})"

definition ParseSNI :: "bytes \<Rightarrow> bytes option" where
  "ParseSNI data =
     (if length data < 5 then Some [] else do {
      t \<leftarrow> idx data 0;
      if t \<noteq> 0x16 then Some [] else do {
      recordLen \<leftarrow> u16_at data 3;
      if length data < 5 + recordLen then Some [] else do {
      hs \<leftarrow> slice_at data 5 (5 + recordLen);
      if length hs < 4 then Some [] else do {
      h \<leftarrow> idx hs 0;
      if h \<noteq> 0x01 then Some [] else do {
      b1 \<leftarrow> idx hs 1; b2 \<leftarrow> idx hs 2; b3 \<leftarrow> idx hs 3;
      let hsLen = push_bit 16 (unat b1) OR push_bit 8 (unat b2) OR unat b3;
      if length hs < 4 + hsLen then Some [] else do {
      body \<leftarrow> slice_at hs 4 (4 + hsLen);
      parse_body body }}}}}})"

section \<open>The fake ClientHello\<close>

text \<open>\<open>byte(n>>8), byte(n)\<close>; the source builds the message for one name, here it is a parameter.\<close>

definition len16 :: "nat \<Rightarrow> bytes" where
  "len16 n = [of_nat (drop_bit 8 n), of_nat n]"

definition client_hello :: "bytes \<Rightarrow> bytes" where
  "client_hello sni =
     (let sniLen = length sni;
          sniExt = [0x00, 0x00];
          sniPayload = [0x00];
          sniPayload = sniPayload @ len16 sniLen;
          sniPayload = sniPayload @ sni;
          sniListLen = length sniPayload;
          sniExtData = len16 sniListLen;
          sniExtData = sniExtData @ sniPayload;
          sniExt = sniExt @ len16 (length sniExtData);
          sniExt = sniExt @ sniExtData;
          body = [0x03, 0x03];
          body = body @ replicate 32 0;
          body = body @ [0x00];
          body = body @ [0x00, 0x02, 0x13, 0x01];
          body = body @ [0x01, 0x00];
          body = body @ len16 (length sniExt);
          body = body @ sniExt;
          handshake = [0x01, 0x00] @ len16 (length body);
          handshake = handshake @ body;
          rec = [0x16, 0x03, 0x01] @ len16 (length handshake);
          rec = rec @ handshake
      in rec)"

definition TLSClientHello :: bytes where
  "TLSClientHello = client_hello (bytes_of_string ''www.google.com'')"

section \<open>No panic, and only bytes of the input\<close>

definition reads_from :: "bytes \<Rightarrow> bytes option \<Rightarrow> bool" where
  "reads_from data r \<longleftrightarrow> (\<exists>s. r = Some s \<and> sublist s data)"

lemma reads_from_empty [simp, intro]: "reads_from data (Some [])"
  by (simp add: reads_from_def)

lemma reads_from_sublist: "sublist part data \<Longrightarrow> reads_from part r \<Longrightarrow> reads_from data r"
  by (auto simp: reads_from_def intro: sublist_order.order_trans)

lemma reads_from_slice_at:
  "i \<le> j \<Longrightarrow> j \<le> length data \<Longrightarrow> (\<And>part. sublist part data \<Longrightarrow> length part = j - i \<Longrightarrow> reads_from part (f part)) \<Longrightarrow>
   reads_from data (slice_at data i j \<bind> f)"
proof -
  assume ij: "i \<le> j" "j \<le> length data"
    and f: "\<And>part. sublist part data \<Longrightarrow> length part = j - i \<Longrightarrow> reads_from part (f part)"
  from ij have s: "slice_at data i j = Some (take (j - i) (drop i data))" by simp
  from f [OF sublist_slice_at [OF s] length_slice_at [OF s]] show ?thesis
    by (simp add: s reads_from_sublist [OF sublist_slice_at [OF s]])
qed

lemma u16_at_Some: "i + 1 < length b \<Longrightarrow> \<exists>n. u16_at b i = Some n"
  by (simp add: u16_at_def)

lemma sni_entries_reads: "reads_from entries (sni_entries entries)"
proof (induction entries rule: sni_entries.induct)
  case (1 entries)
  show ?case
  proof (cases "length entries < 3")
    case True
    then show ?thesis by (simp add: sni_entries.simps [of entries])
  next
    case False
    then obtain n where n: "u16_at entries 1 = Some n" using u16_at_Some [of 1 entries] by auto
    from False have "entries \<noteq> []" by auto
    have "reads_from entries (slice_at entries (3 + n) (length entries) \<bind> sni_entries)"
      if "3 + n \<le> length entries" "entries ! 0 \<noteq> 0"
    proof -
      have "slice_at entries (3 + n) (length entries) = Some (drop (3 + n) entries)" using that by simp
      moreover from this have "reads_from (drop (3 + n) entries) (sni_entries (drop (3 + n) entries))"
        using 1 [OF False idx_Some n] \<open>entries \<noteq> []\<close> that by simp
      ultimately show ?thesis by (simp add: reads_from_sublist [OF sublist_drop])
    qed
    moreover have "reads_from entries (slice_at entries 3 (3 + n))" if "3 + n \<le> length entries"
      using that by (metis le_add1 reads_from_def slice_at_Some sublist_slice_at)
    ultimately show ?thesis
      using False n \<open>entries \<noteq> []\<close> by (auto simp: sni_entries.simps [of entries])
  qed
qed

lemma parseSNIExtension_reads: "reads_from data (parseSNIExtension data)"
proof (cases "length data < 2")
  case False
  then obtain n where "u16_at data 0 = Some n" using u16_at_Some [of 0 data] by auto
  with False show ?thesis
    by (auto simp: parseSNIExtension_def intro!: reads_from_slice_at sni_entries_reads simp del: slice_at_Some)
qed (auto simp: parseSNIExtension_def)

lemma extensions_reads: "reads_from exts (extensions exts)"
proof (induction exts rule: extensions.induct)
  case (1 exts)
  show ?case
  proof (cases "length exts < 4")
    case True
    then show ?thesis by (simp add: extensions.simps [of exts])
  next
    case False
    then obtain t n where t: "u16_at exts 0 = Some t" and n: "u16_at exts 2 = Some n"
      using u16_at_Some [of 0 exts] u16_at_Some [of 2 exts] by auto
    have "reads_from exts (slice_at exts (4 + n) (length exts) \<bind> extensions)"
      if "4 + n \<le> length exts" "t \<noteq> 0"
    proof -
      have "slice_at exts (4 + n) (length exts) = Some (drop (4 + n) exts)" using that by simp
      moreover from this have "reads_from (drop (4 + n) exts) (extensions (drop (4 + n) exts))"
        using 1 [OF False t n] that by simp
      ultimately show ?thesis by (simp add: reads_from_sublist [OF sublist_drop])
    qed
    moreover have "reads_from exts (slice_at exts 4 (4 + n) \<bind> parseSNIExtension)" if "4 + n \<le> length exts"
      using that by (intro reads_from_slice_at parseSNIExtension_reads) auto
    ultimately show ?thesis
      using False t n by (auto simp: extensions.simps [of exts])
  qed
qed

lemma reads_from_bind_u16:
  "i + 1 < length b \<Longrightarrow> (\<And>n. reads_from data (f n)) \<Longrightarrow> reads_from data (u16_at b i \<bind> f)"
  using u16_at_Some [of i b] by auto

lemma reads_from_bind_idx:
  "i < length b \<Longrightarrow> (\<And>x. reads_from data (f x)) \<Longrightarrow> reads_from data (idx b i \<bind> f)"
  by simp

lemmas reads_from_binds = reads_from_bind_u16 reads_from_bind_idx reads_from_slice_at

lemma parse_body_reads: "reads_from body (parse_body body)"
  unfolding parse_body_def Let_def
  by (auto intro!: reads_from_binds extensions_reads simp del: slice_at_Some idx_Some)

lemma ParseSNI_reads: "reads_from data (ParseSNI data)"
  unfolding ParseSNI_def Let_def
  by (auto intro!: reads_from_binds parse_body_reads simp del: slice_at_Some idx_Some)

section \<open>Round trip\<close>

lemma u16_at_nat: "i + 1 < length b \<Longrightarrow> u16_at b i = Some (256 * unat (b ! i) + unat (b ! (i + 1)))"
proof -
  have "push_bit 8 x OR unat (y :: u8) = 256 * x + unat y" for x y
  proof -
    have "push_bit 8 x OR unat y = push_bit 8 x + unat y"
      by (rule disjunctive_add [symmetric]) (auto simp: bit_simps)
    then show ?thesis by (simp add: push_bit_eq_mult)
  qed
  then show "i + 1 < length b \<Longrightarrow> ?thesis" by (simp add: u16_at_def)
qed

lemma u16_at_len16:
  assumes "length pre = i" and "n < 65536"
  shows "u16_at (pre @ len16 n @ rest) i = Some n"
proof -
  have "unat (of_nat (drop_bit 8 n) :: u8) = n div 256"
    using assms(2) by (simp add: unsigned_of_nat take_bit_eq_mod drop_bit_eq_div less_mult_imp_div_less)
  moreover have "unat (of_nat n :: u8) = n mod 256"
    by (simp add: unsigned_of_nat take_bit_eq_mod)
  ultimately show ?thesis
    using assms by (simp add: u16_at_nat nth_append len16_def)
qed

lemma length_len16 [simp]: "length (len16 n) = 2"
  by (simp add: len16_def)

lemmas u16_at_len16_front = u16_at_len16 [of "[]" 0, simplified]

lemma sni_entries_single:
  assumes "length sni < 65536"
  shows "sni_entries (0 # len16 (length sni) @ sni) = Some sni"
  using u16_at_len16 [of "[0]" 1 "length sni" sni] assms
  by (simp add: sni_entries.simps [of "0 # _"])

lemma parseSNIExtension_list:
  assumes "length entries < 65536"
  shows "parseSNIExtension (len16 (length entries) @ entries) = sni_entries entries"
  using u16_at_len16_front [OF assms, of entries] by (simp add: parseSNIExtension_def)

lemma extensions_single:
  assumes "length d < 65536"
  shows "extensions (0 # 0 # len16 (length d) @ d) = parseSNIExtension d"
proof -
  have "u16_at (0 # 0 # len16 (length d) @ d) 0 = Some 0"
    by (simp add: u16_at_nat)
  moreover have "u16_at (0 # 0 # len16 (length d) @ d) 2 = Some (length d)"
    using u16_at_len16 [of "[0, 0]" 2, OF _ assms] by simp
  ultimately show ?thesis
    by (simp add: extensions.simps [of "0 # _"])
qed

definition hello_body :: "bytes \<Rightarrow> bytes" where
  "hello_body exts = [3, 3] @ replicate 32 0 @ [0, 0, 2, 0x13, 1, 1, 0] @ len16 (length exts) @ exts"

lemma parse_body_hello:
  assumes "length exts < 65536"
  shows "parse_body (hello_body exts) = extensions exts"
proof -
  let ?b = "hello_body exts"
  have "length ?b = 43 + length exts" by (simp add: hello_body_def)
  moreover have "?b ! 34 = 0" "?b ! 39 = 1" "?b ! 35 = 0" "?b ! 36 = 2"
    by (simp_all add: hello_body_def nth_append)
  moreover have "u16_at ?b 35 = Some 2"
    using calculation by (simp add: u16_at_nat)
  moreover have "u16_at ?b 41 = Some (length exts)"
    using u16_at_len16 [of "[3, 3] @ replicate 32 0 @ [0, 0, 2, 0x13, 1, 1, 0]" 41, OF _ assms]
    by (simp add: hello_body_def)
  moreover have "drop 43 ?b = exts" by (simp add: hello_body_def)
  ultimately show ?thesis by (simp add: parse_body_def Let_def)
qed

lemma ParseSNI_record:
  assumes "length body < 65000"
  shows "ParseSNI ([0x16, 3, 1] @ len16 (4 + length body) @ [1, 0] @ len16 (length body) @ body) =
    parse_body body"
proof -
  let ?hs = "[1, 0] @ len16 (length body) @ body"
  let ?d = "[0x16, 3, 1] @ len16 (4 + length body) @ ?hs"
  have r: "u16_at ?d 3 = Some (4 + length body)"
    using u16_at_len16 [of "[0x16, 3, 1]" 3 "4 + length body" ?hs] assms by simp
  have h: "u16_at ?hs 2 = Some (length body)"
    using u16_at_len16 [of "[1, 0]" 2 "length body" body] assms by simp
  have "push_bit 8 (unat (?hs ! 2)) OR unat (?hs ! 3) = length body"
    using h by (simp add: u16_at_def)
  then show ?thesis
    using r by (simp add: ParseSNI_def Let_def)
qed

definition sni_exts :: "bytes \<Rightarrow> bytes" where
  "sni_exts sni =
     (let entry = 0 # len16 (length sni) @ sni; d = len16 (length entry) @ entry
      in 0 # 0 # len16 (length d) @ d)"

lemma client_hello_eq:
  "client_hello sni =
     (let body = hello_body (sni_exts sni)
      in [0x16, 3, 1] @ len16 (4 + length body) @ [1, 0] @ len16 (length body) @ body)"
  by (simp add: client_hello_def hello_body_def sni_exts_def Let_def)

lemma length_hello_body: "length (hello_body (sni_exts sni)) = 52 + length sni"
  by (simp add: hello_body_def sni_exts_def Let_def)

lemma client_hello_shape:
  assumes "length sni < 64000"
  shows "length (client_hello sni) = 61 + length sni" and "take 3 (client_hello sni) = [0x16, 3, 1]"
    and "u16_at (client_hello sni) 3 = Some (56 + length sni)"
    and "take 2 (drop 5 (client_hello sni)) = [1, 0]"
    and "u16_at (client_hello sni) 7 = Some (52 + length sni)"
proof -
  let ?body = "hello_body (sni_exts sni)"
  show "length (client_hello sni) = 61 + length sni" "take 3 (client_hello sni) = [0x16, 3, 1]"
    "take 2 (drop 5 (client_hello sni)) = [1, 0]"
    by (simp_all add: client_hello_eq Let_def length_hello_body)
  show "u16_at (client_hello sni) 3 = Some (56 + length sni)"
    using u16_at_len16 [of "[0x16, 3, 1]" 3 "56 + length sni" "[1, 0] @ len16 (52 + length sni) @ ?body"] assms
    by (simp add: client_hello_eq Let_def length_hello_body)
  show "u16_at (client_hello sni) 7 = Some (52 + length sni)"
    using u16_at_len16 [of "[0x16, 3, 1] @ len16 (56 + length sni) @ [1, 0]" 7 "52 + length sni" ?body] assms
    by (simp add: client_hello_eq Let_def length_hello_body)
qed

section \<open>Properties\<close>

text \<open>
  C32: \<open>ParseSNI\<close> is safe on every input, however malformed: it terminates without an index or
  slice out of range, and the name it returns is a contiguous part of the input.
\<close>

theorem ParseSNI_total:
  "\<exists>s. ParseSNI data = Some s \<and> sublist s data"
  using ParseSNI_reads [of data] by (simp add: reads_from_def)

text \<open>
  C33: The parser reads back the name a ClientHello was built for, for every name that fits the
  record; in particular it reads \<open>www.google.com\<close> out of the fake the engine sends.
\<close>

theorem ParseSNI_client_hello:
  assumes "length sni < 64000"
  shows "ParseSNI (client_hello sni) = Some sni \<and>
    ParseSNI TLSClientHello = Some (bytes_of_string ''www.google.com'')"
proof -
  have rt: "ParseSNI (client_hello sni) = Some sni" if "length sni < 64000" for sni
  proof -
    define entry where "entry = 0 # len16 (length sni) @ sni"
    define d where "d = len16 (length entry) @ entry"
    define exts where "exts = 0 # 0 # len16 (length d) @ d"
    have exts: "sni_exts sni = exts" by (simp add: sni_exts_def exts_def d_def entry_def Let_def)
    have "ParseSNI (client_hello sni) = parse_body (hello_body exts)"
      using that ParseSNI_record [of "hello_body exts"] length_hello_body [of sni]
      by (simp add: client_hello_eq Let_def exts)
    also have "\<dots> = extensions exts"
      using that by (intro parse_body_hello) (simp add: exts_def d_def entry_def)
    also have "\<dots> = sni_entries entry"
    proof -
      have "extensions exts = parseSNIExtension d"
        unfolding exts_def using that by (intro extensions_single) (simp add: d_def entry_def)
      also have "\<dots> = sni_entries entry"
        unfolding d_def using that by (intro parseSNIExtension_list) (simp add: entry_def)
      finally show ?thesis .
    qed
    also have "\<dots> = Some sni"
      using that by (simp add: entry_def sni_entries_single)
    finally show ?thesis .
  qed
  from rt [OF assms] rt [of "bytes_of_string ''www.google.com''"] show ?thesis
    by (simp add: TLSClientHello_def)
qed

theorem ParseSNI_client_hello_witness:
  "ParseSNI (client_hello [97, 46, 98]) = Some [97, 46, 98]"
  using ParseSNI_client_hello [of "[97, 46, 98]"] by simp

text \<open>
  The fake is one complete TLS record: a handshake record whose length field counts the
  bytes that follow, holding one ClientHello message whose length field does the same; with
  14 bytes of name it is 75 bytes, so it fits any path's segment.
\<close>

theorem TLSClientHello_shape:
  "length TLSClientHello = 75 \<and> take 3 TLSClientHello = [0x16, 3, 1] \<and>
   u16_at TLSClientHello 3 = Some (length TLSClientHello - 5) \<and>
   take 2 (drop 5 TLSClientHello) = [1, 0] \<and>
   u16_at TLSClientHello 7 = Some (length TLSClientHello - 9)"
  using client_hello_shape [of "bytes_of_string ''www.google.com''"] by (simp add: TLSClientHello_def)

end
