(* ===== verification/Resolv_Conf.thy ===== *)
theory Resolv_Conf
  imports Go_Strings
begin

text \<open>
  The system resolver file on Linux (\<open>src/pkg/dns/system_linux.go\<close>): \<open>SetSystemDNS\<close> makes
  gecit's own server the only nameserver and keeps the others in comments,
  \<open>RestoreSystemDNS\<close> brings them back.  The file is its contents, \<open>None\<close> when it cannot be
  read; \<open>write\<close> is \<open>os.WriteFile\<close>: the file afterwards, and whether it succeeded.
\<close>

section \<open>The two operations\<close>

text \<open>The marker line, with the dash it contains as its three UTF-8 bytes.\<close>

definition marker :: string where
  "marker = ''# gecit: DoH DNS active '' @ [CHR 0xE2, CHR 0x80, CHR 0x94] @
     '' original lines commented below''"

definition local_nameserver :: string where
  "local_nameserver = ''nameserver 127.0.0.1''"

definition saved_prefix :: string where
  "saved_prefix = ''# gecit-saved: ''"

text \<open>What the loop of \<open>SetSystemDNS\<close> appends for a line, if anything.\<close>

definition set_line :: "string \<Rightarrow> string option" where
  "set_line line =
     (let trimmed = TrimSpace line in
      if trimmed = '''' \<or> prefix ''# gecit'' trimmed then None
      else if prefix ''nameserver'' trimmed then Some (saved_prefix @ trimmed)
      else Some line)"

definition set_content :: "string \<Rightarrow> string" where
  "set_content orig =
     Join ([marker, local_nameserver] @ List.map_filter set_line (Split newline orig)) [newline] @ [newline]"

definition restore_line :: "string \<Rightarrow> string option" where
  "restore_line line =
     (let trimmed = TrimSpace line in
      if prefix saved_prefix trimmed then Some (TrimPrefix trimmed saved_prefix)
      else if prefix ''# gecit'' trimmed then None
      else if trimmed = ''nameserver 127.0.0.1'' then None
      else if trimmed \<noteq> '''' then Some line
      else None)"

definition restore_content :: "string \<Rightarrow> string" where
  "restore_content data =
     (let lines = List.map_filter restore_line (Split newline data);
          lines = (if length lines = 0 then [''nameserver 8.8.8.8''] else lines)
      in Join lines [newline] @ [newline])"

datatype file_error = ReadError | WriteError

type_synonym file_write = "string \<Rightarrow> string option \<Rightarrow> string option \<times> bool"

definition SetSystemDNS :: "file_write \<Rightarrow> string option \<Rightarrow> string option \<times> file_error option" where
  "SetSystemDNS write file =
     (case file of
        None \<Rightarrow> (file, Some ReadError)
      | Some orig \<Rightarrow>
          (case write (set_content orig) file of (file', ok) \<Rightarrow> (file', if ok then None else Some WriteError)))"

definition RestoreSystemDNS :: "file_write \<Rightarrow> string option \<Rightarrow> string option \<times> file_error option" where
  "RestoreSystemDNS write file =
     (case file of
        None \<Rightarrow> (file, Some ReadError)
      | Some data \<Rightarrow>
          (case write (restore_content data) file of (file', ok) \<Rightarrow> (file', if ok then None else Some WriteError)))"

section \<open>Lines\<close>

text \<open>
  The non-blank lines of a file, and its nameserver lines (trimmed), which are what the C
  library's resolver acts on.
\<close>

definition content_lines :: "string \<Rightarrow> string list" where
  "content_lines c = filter (\<lambda>l. TrimSpace l \<noteq> []) (Split newline c)"

definition nameservers :: "string \<Rightarrow> string list" where
  "nameservers c = filter (prefix ''nameserver'') (map TrimSpace (Split newline c))"

lemmas line_literals = marker_def local_nameserver_def saved_prefix_def newline_def

lemma trimmed_literals [simp]:
  "TrimSpace marker = marker" "TrimSpace local_nameserver = local_nameserver"
  "TrimSpace ''nameserver 8.8.8.8'' = ''nameserver 8.8.8.8''"
  by (rule TrimSpace_id, simp add: trimmed_def line_literals is_space_def)+

lemma TrimSpace_saved:
  assumes "TrimSpace l \<noteq> []"
  shows "TrimSpace (saved_prefix @ TrimSpace l) = saved_prefix @ TrimSpace l"
  using assms TrimSpace_append [of "''# gecit-saved:''" "TrimSpace l" "'' ''"]
  by (simp add: trimmed_def [of "''# gecit-saved:''"] is_space_def saved_prefix_def)

text \<open>What a line becomes after both passes.\<close>

definition kept_line :: "string \<Rightarrow> string option" where
  "kept_line line =
     (let t = TrimSpace line in
      if t = [] \<or> prefix ''# gecit'' t then None
      else if prefix ''nameserver'' t then Some t else Some line)"

lemma prefix_hd: "prefix (a # xs) ys \<Longrightarrow> hd ys = a"
  by (cases ys) auto

lemma restore_set_line: "Option.bind (set_line l) restore_line = kept_line l"
proof -
  have hd: "prefix ''# gecit'' t \<Longrightarrow> \<not> prefix ''nameserver'' t" for t :: string
    by (auto dest!: prefix_hd)
  have sp: "prefix saved_prefix t \<Longrightarrow> prefix ''# gecit'' t" for t :: string
    by (auto simp: saved_prefix_def prefix_def)
  show ?thesis
    using sp [of "TrimSpace l"] hd [of "TrimSpace l"] TrimSpace_saved [of l]
    by (auto simp: set_line_def restore_line_def kept_line_def Let_def)
qed

lemma map_filter_append: "List.map_filter f (xs @ ys) = List.map_filter f xs @ List.map_filter f ys"
  by (simp add: List.map_filter_def)

lemma map_filter_bind:
  "List.map_filter g (List.map_filter f xs) = List.map_filter (\<lambda>x. Option.bind (f x) g) xs"
  by (induction xs) (auto split: option.split)

lemma restore_markers:
  "List.map_filter restore_line (marker # local_nameserver # ls @ [[]]) = List.map_filter restore_line ls"
proof -
  have "\<not> prefix saved_prefix marker" "prefix ''# gecit'' marker"
    "\<not> prefix saved_prefix local_nameserver" "\<not> prefix ''# gecit'' local_nameserver"
    by (simp_all add: line_literals)
  then have "restore_line marker = None" "restore_line local_nameserver = None"
    by (simp_all add: restore_line_def Let_def) (simp add: local_nameserver_def)
  moreover have "restore_line [] = None"
    by (simp add: restore_line_def TrimSpace_def saved_prefix_def)
  ultimately show ?thesis
    by (simp add: map_filter_append)
qed

lemma map_filter_set: "x \<in> set (List.map_filter f xs) \<longleftrightarrow> (\<exists>y \<in> set xs. f y = Some x)"
  by (force simp: List.map_filter_def)

lemma newline_notin:
  "newline \<notin> set marker" "newline \<notin> set local_nameserver" "newline \<notin> set saved_prefix"
  "newline \<notin> set ''nameserver 8.8.8.8''"
  by (simp_all add: line_literals)

lemma set_line_no_newline:
  "l \<in> set (Split newline c) \<Longrightarrow> set_line l = Some s \<Longrightarrow> newline \<notin> set s"
  using set_TrimSpace [of l] Split_no_sep [of l newline c]
  by (auto simp: set_line_def Let_def newline_notin split: if_splits)

lemma kept_line_no_newline:
  "l \<in> set (Split newline c) \<Longrightarrow> kept_line l = Some s \<Longrightarrow> newline \<notin> set s"
  using set_TrimSpace [of l] Split_no_sep [of l newline c]
  by (auto simp: kept_line_def Let_def split: if_splits)

lemma Split_set_content:
  "Split newline (set_content c) =
     marker # local_nameserver # List.map_filter set_line (Split newline c) @ [[]]"
proof -
  have "\<forall>s \<in> set (marker # local_nameserver # List.map_filter set_line (Split newline c)). newline \<notin> set s"
    using set_line_no_newline by (auto simp: newline_notin map_filter_set)
  from Split_Join_line [OF this] show ?thesis by (simp add: set_content_def)
qed

text \<open>Restoring what was set gives the kept lines.\<close>

lemma restore_set:
  "restore_content (set_content c) =
     (let ls = List.map_filter kept_line (Split newline c)
      in Join (if ls = [] then [''nameserver 8.8.8.8''] else ls) [newline] @ [newline])"
proof -
  have "List.map_filter restore_line (Split newline (set_content c)) =
      List.map_filter kept_line (Split newline c)"
    by (simp only: Split_set_content restore_markers map_filter_bind restore_set_line)
  then show ?thesis by (simp add: restore_content_def)
qed

lemma Split_restore_set:
  "Split newline (restore_content (set_content c)) =
     (let ls = List.map_filter kept_line (Split newline c)
      in (if ls = [] then [''nameserver 8.8.8.8''] else ls) @ [[]])"
proof -
  let ?ls = "List.map_filter kept_line (Split newline c)"
  have "\<forall>s \<in> set (if ?ls = [] then [''nameserver 8.8.8.8''] else ?ls). newline \<notin> set s"
    using kept_line_no_newline by (auto simp: newline_def map_filter_set)
  from Split_Join_line [OF this] show ?thesis
    by (simp add: restore_set Let_def)
qed

lemma nameservers_set: "nameservers (set_content c) = [local_nameserver]"
proof -
  have "filter (prefix ''nameserver'') (map TrimSpace (List.map_filter set_line ls)) = []" for ls
  proof -
    have "\<not> prefix ''nameserver'' (TrimSpace s)" if "set_line l = Some s" for l s
      using that TrimSpace_saved [of l]
      by (auto simp: set_line_def Let_def saved_prefix_def split: if_splits)
    then show ?thesis by (auto simp: filter_empty_conv map_filter_set)
  qed
  moreover have "TrimSpace [] = []" by (simp add: TrimSpace_def)
  ultimately show ?thesis
    by (simp add: nameservers_def Split_set_content) (simp add: line_literals)
qed

lemma nameserver_line: "prefix ''nameserver'' t \<Longrightarrow> t \<noteq> [] \<and> \<not> prefix ''# gecit'' t"
  by (cases t) auto

lemma trim_kept_lines:
  "map TrimSpace (List.map_filter kept_line ls) =
     filter (\<lambda>t. t \<noteq> [] \<and> \<not> prefix ''# gecit'' t) (map TrimSpace ls)"
  by (induction ls) (auto simp: kept_line_def Let_def)

lemma nameservers_restore_set:
  assumes "nameservers c \<noteq> []"
  shows "nameservers (restore_content (set_content c)) = nameservers c"
proof -
  let ?ls = "List.map_filter kept_line (Split newline c)"
  have "(t \<noteq> [] \<and> \<not> prefix ''# gecit'' t) \<and> prefix ''nameserver'' t \<longleftrightarrow> prefix ''nameserver'' t" for t
    using nameserver_line by blast
  then have k: "filter (prefix ''nameserver'') (map TrimSpace ?ls) = nameservers c"
    by (simp add: trim_kept_lines nameservers_def conj_commute)
  with assms have "?ls \<noteq> []" by auto
  moreover have "TrimSpace [] = []" by (simp add: TrimSpace_def)
  ultimately show ?thesis
    using k by (simp add: nameservers_def [of "restore_content _"] Split_restore_set)
qed

text \<open>
  A file without nameservers gets none, or, when nothing else is in it, the fallback.
\<close>

lemma nameservers_restore_set_none:
  assumes "nameservers c = []"
  shows "nameservers (restore_content (set_content c)) \<in> {[], [''nameserver 8.8.8.8'']}"
proof -
  let ?ls = "List.map_filter kept_line (Split newline c)"
  have "filter (prefix ''nameserver'') (map TrimSpace ?ls) = []"
    using assms by (auto simp: trim_kept_lines nameservers_def filter_empty_conv)
  moreover have "TrimSpace [] = []" by (simp add: TrimSpace_def)
  ultimately show ?thesis by (auto simp: nameservers_def [of "restore_content _"] Split_restore_set Let_def)
qed

section \<open>The contract of the system resolver\<close>

text \<open>
  What the engines rely on: while gecit is set up its server is the only one, and tearing
  down brings back the servers that were there.  The client lemmas follow a machine over
  sessions, and over a session that was never torn down.
\<close>

locale system_dns =
  fixes set_dns restore_dns :: "'c \<Rightarrow> 'c" and servers :: "'c \<Rightarrow> 's list" and own :: 's
  assumes servers_set: "servers (set_dns c) = [own]"
    and servers_restore: "servers c \<noteq> [] \<Longrightarrow> servers (restore_dns (set_dns c)) = servers c"
begin

lemma servers_sessions:
  "servers c \<noteq> [] \<Longrightarrow> servers (((restore_dns \<circ> set_dns) ^^ n) c) = servers c"
  by (induction n) (simp_all add: servers_restore)

lemma servers_after_crash: "servers (restore_dns (set_dns (set_dns c))) = [own]"
  using servers_restore [of "set_dns c"] by (simp add: servers_set)

end

interpretation resolv: system_dns set_content restore_content nameservers local_nameserver
  by unfold_locales (simp_all add: nameservers_set nameservers_restore_set)

section \<open>Properties\<close>

definition write_succeeds :: "file_write \<Rightarrow> bool" where
  "write_succeeds write \<longleftrightarrow> (\<forall>s f. write s f = (Some s, True))"

text \<open>A write that is refused leaves the file alone (a read-only file system, no rights).\<close>

definition write_refused :: "file_write \<Rightarrow> bool" where
  "write_refused write \<longleftrightarrow> (\<forall>s f. write s f = (f, False))"

text \<open>The file names the nameservers it named; one that named none may have got the fallback.\<close>

definition servers_kept :: "string option \<Rightarrow> string option \<Rightarrow> bool" where
  "servers_kept f f' \<longleftrightarrow>
     (case f of
        None \<Rightarrow> f' = None
      | Some c \<Rightarrow> \<exists>c'. f' = Some c' \<and>
          (nameservers c' = nameservers c \<or> nameservers c = [] \<and> nameservers c' = [''nameserver 8.8.8.8'']))"

lemma servers_kept_refl: "servers_kept f f"
  by (simp add: servers_kept_def split: option.split)

lemma servers_kept_trans: "servers_kept f f' \<Longrightarrow> servers_kept f' f'' \<Longrightarrow> servers_kept f f''"
  by (cases f) (auto simp: servers_kept_def)

lemma SetSystemDNS_failed:
  assumes "write_succeeds write \<or> write_refused write" and "SetSystemDNS write f = (f', Some e)"
  shows "servers_kept f f'"
proof -
  have "f' = f"
    using assms by (auto simp: SetSystemDNS_def write_succeeds_def write_refused_def split: option.splits prod.splits)
  then show ?thesis by (simp add: servers_kept_refl)
qed

lemma Set_Restore_kept:
  assumes "write_succeeds write \<or> write_refused write" and "SetSystemDNS write f = (f', None)"
  shows "servers_kept f (fst (RestoreSystemDNS write f'))"
proof (cases f)
  case None
  with assms(2) show ?thesis by (simp add: SetSystemDNS_def)
next
  case (Some c)
  with assms have w: "write_succeeds write" by (auto simp: SetSystemDNS_def write_refused_def split: prod.splits)
  have f': "f' = Some (set_content c)" using assms(2) Some w by (simp add: SetSystemDNS_def write_succeeds_def)
  have "nameservers (restore_content (set_content c)) = nameservers c \<or>
      nameservers c = [] \<and> nameservers (restore_content (set_content c)) = [''nameserver 8.8.8.8'']"
    using nameservers_restore_set [of c] nameservers_restore_set_none [of c] by (cases "nameservers c = []") auto
  with Some w f' show ?thesis by (simp add: servers_kept_def RestoreSystemDNS_def write_succeeds_def)
qed

text \<open>When only the second write is refused, the file goes on naming the stopped server.\<close>

lemma refused_restore_keeps_local:
  assumes "write_succeeds write" and "write_refused write'" and "SetSystemDNS write (Some c) = (f1, e1)"
  shows "\<exists>c'. fst (RestoreSystemDNS write' f1) = Some c' \<and> nameservers c' = [local_nameserver]"
  using assms nameservers_set [of c] by (auto simp: SetSystemDNS_def RestoreSystemDNS_def write_succeeds_def write_refused_def)

definition demo_write :: file_write where
  "demo_write s f = (Some s, True)"

lemma demo_write_succeeds: "write_succeeds demo_write"
  by (simp add: write_succeeds_def demo_write_def)

lemma SetSystemDNS_ok: "write_succeeds write \<Longrightarrow> SetSystemDNS write (Some c) = (Some (set_content c), None)"
  by (simp add: SetSystemDNS_def write_succeeds_def)

lemma RestoreSystemDNS_ok:
  "write_succeeds write \<Longrightarrow> RestoreSystemDNS write (Some c) = (Some (restore_content c), None)"
  by (simp add: RestoreSystemDNS_def write_succeeds_def)

definition demo_resolv :: string where
  "demo_resolv = ''search lan'' @ [newline] @ '' nameserver 192.168.1.1'' @ [newline]"

lemma demo_resolv_servers: "nameservers demo_resolv = [''nameserver 192.168.1.1'']"
  by (simp add: demo_resolv_def nameservers_def newline_def TrimSpace_def is_space_def)

text \<open>
  After \<open>SetSystemDNS\<close>, whatever the resolver file held, gecit's own server on 127.0.0.1
  is its only nameserver, so no query can bypass it; a file that cannot be read is an error
  and nothing is written.
\<close>

theorem SetSystemDNS_captures:
  assumes "write_succeeds write"
  shows "\<exists>c'. SetSystemDNS write (Some c) = (Some c', None) \<and> nameservers c' = [''nameserver 127.0.0.1''] \<and>
    SetSystemDNS write None = (None, Some ReadError)"
  using SetSystemDNS_ok [OF assms, of c] resolv.servers_set [of c]
  by (simp add: SetSystemDNS_def local_nameserver_def)

theorem SetSystemDNS_captures_witness:
  "\<exists>c'. SetSystemDNS demo_write (Some demo_resolv) = (Some c', None) \<and> nameservers c' = [''nameserver 127.0.0.1'']"
  using SetSystemDNS_captures [OF demo_write_succeeds, of demo_resolv] by blast

text \<open>
  C34: Stopping undoes starting: \<open>RestoreSystemDNS\<close> after \<open>SetSystemDNS\<close> gives a file with the
  original nameservers in their order, and its lines are the original ones except that blank
  lines and lines of earlier gecit runs are dropped and nameserver lines are trimmed.  Any
  number of such sessions in a row loses nothing.
\<close>

theorem restore_undoes_set:
  assumes "write_succeeds write" and "nameservers c \<noteq> []"
    and "SetSystemDNS write (Some c) = (f1, e1)" and "RestoreSystemDNS write f1 = (Some c', e2)"
  shows "e1 = None \<and> e2 = None \<and> nameservers c' = nameservers c \<and>
    Split newline c' = List.map_filter kept_line (Split newline c) @ [[]] \<and>
    nameservers (((restore_content \<circ> set_content) ^^ n) c) = nameservers c"
proof -
  have c': "c' = restore_content (set_content c)" "e1 = None" "e2 = None"
    using assms(3,4) SetSystemDNS_ok [OF assms(1), of c]
      RestoreSystemDNS_ok [OF assms(1), of "set_content c"] by auto
  have "nameservers c' = nameservers c" using c'(1) resolv.servers_restore [OF assms(2)] by simp
  moreover have "List.map_filter kept_line (Split newline c) \<noteq> []"
  proof
    assume "List.map_filter kept_line (Split newline c) = []"
    with trim_kept_lines [of "Split newline c"]
    have "filter (\<lambda>t. t \<noteq> [] \<and> \<not> prefix ''# gecit'' t) (map TrimSpace (Split newline c)) = []" by simp
    then have "filter (prefix ''nameserver'') (map TrimSpace (Split newline c)) = []"
      by (auto simp: filter_empty_conv dest!: nameserver_line)
    with assms(2) show False by (simp add: nameservers_def)
  qed
  ultimately show ?thesis
    using c' Split_restore_set [of c] resolv.servers_sessions [OF assms(2)] by (simp add: Let_def)
qed

theorem restore_undoes_set_witness:
  "nameservers (restore_content (set_content demo_resolv)) = [''nameserver 192.168.1.1'']"
proof -
  have "nameservers demo_resolv \<noteq> []" by (simp add: demo_resolv_servers)
  from restore_undoes_set [OF demo_write_succeeds this SetSystemDNS_ok [OF demo_write_succeeds]
      RestoreSystemDNS_ok [OF demo_write_succeeds]]
  show ?thesis by (simp add: demo_resolv_servers)
qed

text \<open>
  C35: The saved nameservers do not survive a restart after a crash: when gecit starts again on
  a file it had set up and never restored, the second \<open>SetSystemDNS\<close> drops the saved lines
  and saves its own address instead, so that after \<open>RestoreSystemDNS\<close> the only nameserver
  is 127.0.0.1, where nothing listens any more.  The comment of \<open>SetSystemDNS\<close> promises
  that the original lines survive a crash.
\<close>

theorem crash_and_restart_loses_nameservers:
  assumes "write_succeeds write" and "SetSystemDNS write (Some c) = (f1, e1)"
    and "SetSystemDNS write f1 = (f2, e2)" and "RestoreSystemDNS write f2 = (Some c', e3)"
  shows "e1 = None \<and> e2 = None \<and> e3 = None \<and> nameservers c' = [''nameserver 127.0.0.1'']"
proof -
  have "c' = restore_content (set_content (set_content c))" "e1 = None" "e2 = None" "e3 = None"
    using assms(2-4) SetSystemDNS_ok [OF assms(1)] RestoreSystemDNS_ok [OF assms(1)] by auto
  then show ?thesis using resolv.servers_after_crash [of c] by (simp add: local_nameserver_def)
qed

theorem crash_and_restart_loses_nameservers_witness:
  "nameservers demo_resolv = [''nameserver 192.168.1.1''] \<and>
   nameservers (restore_content (set_content (set_content demo_resolv))) = [''nameserver 127.0.0.1'']"
  using crash_and_restart_loses_nameservers [OF demo_write_succeeds SetSystemDNS_ok [OF demo_write_succeeds]
      SetSystemDNS_ok [OF demo_write_succeeds] RestoreSystemDNS_ok [OF demo_write_succeeds], of demo_resolv]
  by (simp add: demo_resolv_servers)

end
