(* ===== verification/Ebpf_Lifecycle.thy ===== *)
theory Ebpf_Lifecycle
  imports Ebpf_Userspace Rawsock Fake_Hello Resolv_Conf
begin

text \<open>
  Start and stop of the Linux engine: \<open>Manager.Start\<close>, \<open>Manager.Stop\<close> and \<open>injectFake\<close> of
  \<open>src/pkg/ebpf/manager.go\<close>, and the engine around them in
  \<open>src/cmd/gecit/app/run_linux.go\<close>.

  The manager's pointers are flags (true when not nil).  What is open in the kernel or
  running is a set of resources; every call that can fail takes its outcome from an
  environment.
\<close>

section \<open>The manager\<close>

datatype resource = Collection | CgroupLink | PerfReader | RawSock | ReadEvents

record manager =
  mcfg :: config
  mcollection :: bool
  mlink :: bool
  mreader :: bool
  mrawSock :: bool
  mcancel :: bool

record kernel =
  opened :: "resource set"
  kmaps :: bpf_maps

datatype start_error =
    NoSockOps | NoSockOpsSetsockopt | LoadSpec | CreateCollection | NoProgram | AttachFailed
  | PushConfig error | PushTargetPorts error | PushExcludeIPs error
  | NoEventsMap error | OpenReader | RawSocketError

record start_env =
  haveSockOps :: bool
  haveSetsockopt :: bool
  spec_ok :: bool
  collection_ok :: bool
  fresh_maps :: bpf_maps
  has_program :: bool
  attach_ok :: bool
  has_map :: "string \<Rightarrow> bool"
  upd_config :: "(u32, gecit_config_t) map_update"
  upd_ports :: "(u16, u8) map_update"
  upd_exclude :: "(u32, u8) map_update"
  reader_ok :: bool
  rawsock_ok :: bool

definition fresh_manager :: "config \<Rightarrow> manager" where
  "fresh_manager cfg = \<lparr>mcfg = NewManager cfg, mcollection = False, mlink = False, mreader = False,
     mrawSock = False, mcancel = False\<rparr>"

text \<open>
  Closing the reader makes the pending \<open>Read\<close> of the event goroutine fail, so the goroutine
  ends and \<open>wg.Wait\<close> returns.  The reader and cancel fields keep their values.
\<close>

definition Stop :: "manager \<Rightarrow> kernel \<Rightarrow> manager \<times> kernel" where
  "Stop m k =
     (let k = (if mreader m then k\<lparr>opened := opened k - {PerfReader, ReadEvents}\<rparr> else k);
          k = (if mrawSock m then k\<lparr>opened := opened k - {RawSock}\<rparr> else k);
          m = m\<lparr>mrawSock := False\<rparr>;
          k = (if mlink m then k\<lparr>opened := opened k - {CgroupLink}\<rparr> else k);
          m = m\<lparr>mlink := False\<rparr>;
          k = (if mcollection m then k\<lparr>opened := opened k - {Collection}\<rparr> else k);
          m = m\<lparr>mcollection := False\<rparr>
      in (m, k))"

definition fail_after_stop :: "start_error \<Rightarrow> manager \<Rightarrow> kernel \<Rightarrow> start_error option \<times> manager \<times> kernel" where
  "fail_after_stop e m k = (Some e, Stop m k)"

text \<open>The part of \<open>Start\<close> after the maps have been pushed.\<close>

definition Start_events :: "start_env \<Rightarrow> manager \<Rightarrow> kernel \<Rightarrow> start_error option \<times> manager \<times> kernel" where
  "Start_events env m k =
     (if \<not> has_map env ''conn_events'' then fail_after_stop (NoEventsMap (MapNotFound ''conn_events'')) m k
      else if \<not> reader_ok env then fail_after_stop OpenReader m k
      else
        let m = m\<lparr>mreader := True\<rparr>; k = k\<lparr>opened := insert PerfReader (opened k)\<rparr> in
        if \<not> rawsock_ok env then fail_after_stop RawSocketError m k
        else
          let m = m\<lparr>mrawSock := True\<rparr>; k = k\<lparr>opened := insert RawSock (opened k)\<rparr>;
              m = m\<lparr>mcancel := True\<rparr>; k = k\<lparr>opened := insert ReadEvents (opened k)\<rparr>
          in (None, m, k))"

definition Start_push :: "start_env \<Rightarrow> manager \<Rightarrow> kernel \<Rightarrow> start_error option \<times> manager \<times> kernel" where
  "Start_push env m k =
     (case pushConfig (has_map env) (upd_config env) (mcfg m) (kmaps k) of
        (maps, Some e) \<Rightarrow> fail_after_stop (PushConfig e) m (k\<lparr>kmaps := maps\<rparr>)
      | (maps, None) \<Rightarrow>
          (case pushTargetPorts (has_map env) (upd_ports env) (mcfg m) maps of
             (maps, Some e) \<Rightarrow> fail_after_stop (PushTargetPorts e) m (k\<lparr>kmaps := maps\<rparr>)
           | (maps, None) \<Rightarrow>
               (case pushExcludeIPs (has_map env) (upd_exclude env) (mcfg m) maps of
                  (maps, Some e) \<Rightarrow> fail_after_stop (PushExcludeIPs e) m (k\<lparr>kmaps := maps\<rparr>)
                | (maps, None) \<Rightarrow> Start_events env m (k\<lparr>kmaps := maps\<rparr>))))"

definition Start :: "start_env \<Rightarrow> manager \<Rightarrow> kernel \<Rightarrow> start_error option \<times> manager \<times> kernel" where
  "Start env m k =
     (if \<not> haveSockOps env then (Some NoSockOps, m, k)
      else if \<not> haveSetsockopt env then (Some NoSockOpsSetsockopt, m, k)
      else if \<not> spec_ok env then (Some LoadSpec, m, k)
      else if \<not> collection_ok env then (Some CreateCollection, m, k)
      else
        let k = k\<lparr>opened := insert Collection (opened k), kmaps := fresh_maps env\<rparr>;
            m = m\<lparr>mcollection := True\<rparr> in
        if \<not> has_program env then (Some NoProgram, m, k)
        else if \<not> attach_ok env then (Some AttachFailed, m, k\<lparr>opened := opened k - {Collection}\<rparr>)
        else
          let m = m\<lparr>mlink := True\<rparr>; k = k\<lparr>opened := insert CgroupLink (opened k)\<rparr> in
          Start_push env m k)"

section \<open>Injection\<close>

text \<open>\<open>injectFake\<close> builds the connection of an event; Linux then sends the fake once.\<close>

definition conn_of_event :: "connEvent \<Rightarrow> ConnInfo" where
  "conn_of_event evt = \<lparr>SrcIP = uint32ToIP (ev_SrcIP evt), DstIP = uint32ToIP (ev_DstIP evt),
     SrcPort = ev_SrcPort evt, DstPort = ev_DstPort evt, Seq = ev_Seq evt, Ack = ev_Ack evt, HopLimit = 0\<rparr>"

definition injectFake :: "config \<Rightarrow> connEvent \<Rightarrow> transmission" where
  "injectFake cfg evt = SendFake_linux (conn_of_event evt) TLSClientHello (cfg_FakeTTL cfg)"

text \<open>What the event loop does with one sample of the ring.\<close>

definition handle_sample :: "config \<Rightarrow> bytes \<Rightarrow> transmission option" where
  "handle_sample cfg sample = map_option (injectFake cfg) (read_event sample)"

section \<open>The engine\<close>

record host =
  resolv_file :: "string option"
  dns_running :: bool
  hmgr :: manager
  hkernel :: kernel

datatype engine_error = DnsServer | SystemDNS file_error | EngineStart start_error

record engine_env =
  doh_enabled :: bool
  dns_start_ok :: bool
  write_file :: file_write
  mgr_env :: start_env

definition ebpfEngine_Start :: "engine_env \<Rightarrow> host \<Rightarrow> engine_error option \<times> host" where
  "ebpfEngine_Start env h =
     (let start_mgr = (\<lambda>h.
            case Start (mgr_env env) (hmgr h) (hkernel h) of
              (None, m, k) \<Rightarrow> (None, h\<lparr>hmgr := m, hkernel := k\<rparr>)
            | (Some e, m, k) \<Rightarrow>
                let h = h\<lparr>hmgr := m, hkernel := k\<rparr>;
                    h = (if doh_enabled env
                         then h\<lparr>resolv_file := fst (RestoreSystemDNS (write_file env) (resolv_file h)),
                                dns_running := False\<rparr>
                         else h)
                in (Some (EngineStart e), h))
      in
      if doh_enabled env then
        if \<not> dns_start_ok env then (Some DnsServer, h)
        else
          let h = h\<lparr>dns_running := True\<rparr> in
          (case SetSystemDNS (write_file env) (resolv_file h) of
             (f, Some e) \<Rightarrow> (Some (SystemDNS e), h\<lparr>resolv_file := f, dns_running := False\<rparr>)
           | (f, None) \<Rightarrow> start_mgr (h\<lparr>resolv_file := f\<rparr>))
      else start_mgr h)"

definition ebpfEngine_Stop :: "engine_env \<Rightarrow> host \<Rightarrow> host" where
  "ebpfEngine_Stop env h =
     (let h = (if doh_enabled env
               then h\<lparr>resolv_file := fst (RestoreSystemDNS (write_file env) (resolv_file h)),
                      dns_running := False\<rparr>
               else h);
          (m, k) = Stop (hmgr h) (hkernel h)
      in h\<lparr>hmgr := m, hkernel := k\<rparr>)"

section \<open>Facts\<close>

text \<open>
  Fields and resources agree: what is open is what a field points to, and the goroutine runs
  only while the reader is open.
\<close>

fun held :: "manager \<Rightarrow> resource \<Rightarrow> bool" where
  "held m Collection = mcollection m"
| "held m CgroupLink = mlink m"
| "held m PerfReader = mreader m"
| "held m ReadEvents = mreader m"
| "held m RawSock = mrawSock m"

definition consistent :: "manager \<Rightarrow> kernel \<Rightarrow> bool" where
  "consistent m k \<longleftrightarrow> opened k \<subseteq> {r. held m r}"

lemma Stop_opened: "opened (snd (Stop m k)) = opened k - {r. held m r}"
proof (rule set_eqI)
  fix r
  show "r \<in> opened (snd (Stop m k)) \<longleftrightarrow> r \<in> opened k - {r. held m r}"
    by (cases r) (simp_all add: Stop_def Let_def)
qed

lemma Stop_releases: "consistent m k \<Longrightarrow> opened (snd (Stop m k)) = {}"
  by (auto simp: consistent_def Stop_opened)

lemma held_mono:
  "held m r \<Longrightarrow> held (m\<lparr>mcollection := True\<rparr>) r" "held m r \<Longrightarrow> held (m\<lparr>mlink := True\<rparr>) r"
  "held m r \<Longrightarrow> held (m\<lparr>mreader := True\<rparr>) r" "held m r \<Longrightarrow> held (m\<lparr>mrawSock := True\<rparr>) r"
  "held (m\<lparr>mcancel := b\<rparr>) r = held m r"
  by (cases r; simp)+

lemma Stop_fields: "mcfg (fst (Stop m k)) = mcfg m" "kmaps (snd (Stop m k)) = kmaps k"
  by (simp_all add: Stop_def Let_def)

text \<open>
  An outcome of \<open>Start\<close>: on success \<open>P\<close> holds, on an error (other than the missing program)
  nothing is left open.
\<close>

definition settles :: "(manager \<Rightarrow> kernel \<Rightarrow> bool) \<Rightarrow> start_error option \<times> manager \<times> kernel \<Rightarrow> bool" where
  "settles P r \<longleftrightarrow>
     (case r of (None, m, k) \<Rightarrow> P m k | (Some e, m, k) \<Rightarrow> e \<noteq> NoProgram \<and> opened k = {})"

lemma settles_simps [simp]:
  "settles P (None, m, k) = P m k" "settles P (Some e, m, k) = (e \<noteq> NoProgram \<and> opened k = {})"
  by (simp_all add: settles_def)

lemma settles_fail: "consistent m k \<Longrightarrow> settles P (fail_after_stop e m k) = (e \<noteq> NoProgram)"
  using Stop_releases [of m k] by (cases "Stop m k") (simp add: fail_after_stop_def)

definition running :: "kernel \<Rightarrow> manager \<Rightarrow> kernel \<Rightarrow> bool" where
  "running k m' k' \<longleftrightarrow> consistent m' k' \<and> opened k' = opened k \<union> {PerfReader, RawSock, ReadEvents}"

lemma Start_events_settles:
  assumes "consistent m k"
  shows "settles (\<lambda>m' k'. running k m' k' \<and> kmaps k' = kmaps k) (Start_events env m k)"
proof -
  have c: "consistent (m\<lparr>mreader := True\<rparr>) (k\<lparr>opened := insert PerfReader (opened k)\<rparr>)"
    using assms by (auto simp: consistent_def held_mono)
  have "consistent (m\<lparr>mreader := True, mrawSock := True, mcancel := True\<rparr>)
      (k\<lparr>opened := insert ReadEvents (insert RawSock (insert PerfReader (opened k)))\<rparr>)"
    using assms by (auto simp: consistent_def held_mono)
  then show ?thesis
    by (simp add: Start_events_def Let_def settles_fail [OF assms] settles_fail [OF c] running_def insert_commute)
qed

lemma Start_push_settles:
  assumes "consistent m k"
  shows "settles (\<lambda>m' k'. running k m' k' \<and>
      push_maps (has_map env) (upd_config env) (upd_ports env) (upd_exclude env) (mcfg m) (kmaps k) = (kmaps k', None))
    (Start_push env m k)"
proof -
  have c: "consistent m (k\<lparr>kmaps := maps\<rparr>)" for maps
    using assms by (simp add: consistent_def)
  obtain m1 e1 where 1: "pushConfig (has_map env) (upd_config env) (mcfg m) (kmaps k) = (m1, e1)" by fastforce
  obtain m2 e2 where 2: "pushTargetPorts (has_map env) (upd_ports env) (mcfg m) m1 = (m2, e2)" by fastforce
  obtain m3 e3 where 3: "pushExcludeIPs (has_map env) (upd_exclude env) (mcfg m) m2 = (m3, e3)" by fastforce
  have r: "running (k\<lparr>kmaps := m3\<rparr>) = running k" by (intro ext) (simp add: running_def)
  show ?thesis
  proof (cases "e1 = None \<and> e2 = None \<and> e3 = None")
    case True
    with 1 2 3 have p: "push_maps (has_map env) (upd_config env) (upd_ports env) (upd_exclude env) (mcfg m) (kmaps k) = (m3, None)"
      and s: "Start_push env m k = Start_events env m (k\<lparr>kmaps := m3\<rparr>)"
      by (simp_all add: push_maps_def Start_push_def)
    show ?thesis
      using Start_events_settles [OF c, of m3 env] by (auto simp: s p r settles_def split: prod.splits option.splits)
  next
    case False
    with 1 2 3 show ?thesis
      by (auto simp: Start_push_def settles_fail [OF c] split: option.splits)
  qed
qed

definition started :: "start_env \<Rightarrow> manager \<Rightarrow> manager \<Rightarrow> kernel \<Rightarrow> bool" where
  "started env m m' k' \<longleftrightarrow>
     consistent m' k' \<and> opened k' = {Collection, CgroupLink, PerfReader, RawSock, ReadEvents} \<and>
     push_maps (has_map env) (upd_config env) (upd_ports env) (upd_exclude env) (mcfg m) (fresh_maps env) =
       (kmaps k', None)"

lemma Start_settles:
  assumes "opened k = {}" and "has_program env"
  shows "settles (started env m) (Start env m k)"
proof -
  let ?m = "m\<lparr>mcollection := True, mlink := True\<rparr>"
  let ?k = "k\<lparr>kmaps := fresh_maps env, opened := {CgroupLink, Collection}\<rparr>"
  have c: "consistent ?m ?k" by (simp add: consistent_def)
  have "settles (started env m) (Start_push env ?m ?k)"
    using Start_push_settles [OF c, of env]
    by (auto simp: settles_def started_def running_def insert_commute split: prod.splits option.splits)
  with assms show ?thesis by (simp add: Start_def Let_def)
qed

lemma Start_no_program:
  assumes "opened k = {}" and "\<not> has_program env" and "Start env m k = (err, m', k')"
  shows "\<exists>e. err = Some e \<and> opened k' = (if e = NoProgram then {Collection} else {})"
  using assms by (auto simp: Start_def Let_def split: if_splits)

section \<open>Concrete host\<close>

definition demo_start_env :: start_env where
  "demo_start_env = \<lparr>haveSockOps = True, haveSetsockopt = True, spec_ok = True, collection_ok = True,
     fresh_maps = demo_maps, has_program = True, attach_ok = True, has_map = (\<lambda>_. True),
     upd_config = demo_update, upd_ports = demo_update, upd_exclude = demo_update,
     reader_ok = True, rawsock_ok = True\<rparr>"

definition demo_engine_env :: engine_env where
  "demo_engine_env = \<lparr>doh_enabled = True, dns_start_ok = True, write_file = demo_write, mgr_env = demo_start_env\<rparr>"

definition demo_kernel :: kernel where
  "demo_kernel = \<lparr>opened = {}, kmaps = demo_maps\<rparr>"

definition demo_manager :: manager where
  "demo_manager = fresh_manager \<lparr>cfg_MSS = 0, cfg_RestoreMSS = 0, cfg_RestoreAfterBytes = 0, cfg_Ports = [],
     cfg_ExcludeIPs = [[1, 2, 3, 4]], cfg_CgroupPath = [], cfg_FakeTTL = 0\<rparr>"

definition demo_host :: host where
  "demo_host = \<lparr>resolv_file = Some demo_resolv, dns_running = False, hmgr = demo_manager, hkernel = demo_kernel\<rparr>"

lemmas demo_host_defs = demo_host_def demo_kernel_def demo_engine_env_def demo_start_env_def

lemma demo_manager_cfg: "mcfg demo_manager = demo_cfg"
  by (simp add: demo_manager_def fresh_manager_def demo_cfg_def)

section \<open>Properties\<close>

text \<open>
  Starting the manager is all or nothing: if \<open>Start\<close> fails at any step on a fresh kernel,
  with the program in the collection, it leaves no collection, link, reader, socket or
  goroutine behind; if it succeeds, all five are there, the maps hold what the
  configuration says, and \<open>Stop\<close> releases everything.
\<close>

theorem Start_all_or_nothing:
  assumes "opened k = {}" and "has_program env" and "Start env m k = (err, m', k')"
  shows "case err of
      Some e \<Rightarrow> opened k' = {}
    | None \<Rightarrow> opened k' = {Collection, CgroupLink, PerfReader, RawSock, ReadEvents} \<and>
        push_maps (has_map env) (upd_config env) (upd_ports env) (upd_exclude env) (mcfg m) (fresh_maps env) =
          (kmaps k', None) \<and>
        opened (snd (Stop m' k')) = {}"
  using Start_settles [OF assms(1,2), of m] assms(3) Stop_releases [of m' k']
  by (auto simp: started_def split: option.split)

theorem Start_all_or_nothing_witness:
  "\<exists>m' k'. Start demo_start_env demo_manager demo_kernel = (None, m', k') \<and>
     kmaps k' = demo_pushed \<and> opened (snd (Stop m' k')) = {}"
proof -
  obtain m' k' where s: "Start demo_start_env demo_manager demo_kernel = (None, m', k')"
    by (simp add: Start_def Start_push_def Start_events_def demo_start_env_def demo_kernel_def demo_manager_cfg Let_def
        pushConfig_def pushTargetPorts_def pushExcludeIPs_def demo_cfg_eq demo_update_def)
  have "opened demo_kernel = {}" "has_program demo_start_env"
    by (simp_all add: demo_kernel_def demo_start_env_def)
  from Start_all_or_nothing [OF this s] s show ?thesis
    by (simp add: demo_start_env_def demo_manager_cfg demo_push)
qed

text \<open>
  The one exception: when the loaded object has no program of the expected name, \<open>Start\<close>
  returns an error without closing the collection it has just created, and the engine,
  which calls \<open>Stop\<close> on no failed start, leaves it open.
\<close>

theorem missing_program_leaks_collection:
  assumes "opened k = {}" and "\<not> has_program env"
    and "haveSockOps env" and "haveSetsockopt env" and "spec_ok env" and "collection_ok env"
  shows "fst (Start env m k) = Some NoProgram \<and> opened (snd (snd (Start env m k))) = {Collection}"
  using assms by (simp add: Start_def Let_def)

theorem missing_program_leaks_collection_witness:
  "opened (snd (snd (Start (demo_start_env\<lparr>has_program := False\<rparr>) demo_manager demo_kernel))) = {Collection}"
  using missing_program_leaks_collection [of demo_kernel "demo_start_env\<lparr>has_program := False\<rparr>" demo_manager]
  by (simp add: demo_kernel_def demo_start_env_def)

lemma engine_start_cases:
  assumes "write_succeeds (write_file env)" and "resolv_file h = Some c"
  shows "ebpfEngine_Start env h =
    (if doh_enabled env \<and> \<not> dns_start_ok env then (Some DnsServer, h)
     else
       case Start (mgr_env env) (hmgr h) (hkernel h) of
         (None, m, k) \<Rightarrow>
           (None, if doh_enabled env
                  then h\<lparr>resolv_file := Some (set_content c), dns_running := True, hmgr := m, hkernel := k\<rparr>
                  else h\<lparr>hmgr := m, hkernel := k\<rparr>)
       | (Some e, m, k) \<Rightarrow>
           (Some (EngineStart e),
            if doh_enabled env
            then h\<lparr>resolv_file := Some (restore_content (set_content c)), dns_running := False,
                   hmgr := m, hkernel := k\<rparr>
            else h\<lparr>hmgr := m, hkernel := k\<rparr>))"
  using assms
  by (auto simp: ebpfEngine_Start_def Let_def SetSystemDNS_ok RestoreSystemDNS_ok split: prod.split option.split)

text \<open>
  A failed engine start leaves the host as it found it: the resolver file names the same
  nameservers, the DNS server is not running, and nothing is open in the kernel.
\<close>

theorem failed_start_restores_host:
  assumes "write_succeeds (write_file env)" and "resolv_file h = Some c" and "nameservers c \<noteq> []"
    and "\<not> dns_running h" and "opened (hkernel h) = {}" and "has_program (mgr_env env)"
    and "ebpfEngine_Start env h = (Some e, h')"
  shows "\<exists>c'. resolv_file h' = Some c' \<and> nameservers c' = nameservers c \<and>
    \<not> dns_running h' \<and> opened (hkernel h') = {}"
  using assms(2,4,5,7) Start_settles [OF assms(5,6), of "hmgr h"] resolv.servers_restore [OF assms(3)]
  by (auto simp: engine_start_cases [OF assms(1,2)] split: if_splits prod.splits option.splits)

theorem failed_start_restores_host_witness:
  "fst (ebpfEngine_Start (demo_engine_env\<lparr>mgr_env := demo_start_env\<lparr>attach_ok := False\<rparr>\<rparr>) demo_host) =
     Some (EngineStart AttachFailed) \<and>
   (\<exists>c'. resolv_file (snd (ebpfEngine_Start (demo_engine_env\<lparr>mgr_env := demo_start_env\<lparr>attach_ok := False\<rparr>\<rparr>) demo_host)) =
      Some c' \<and> nameservers c' = [''nameserver 192.168.1.1''])"
proof -
  let ?env = "demo_engine_env\<lparr>mgr_env := demo_start_env\<lparr>attach_ok := False\<rparr>\<rparr>"
  have f: "fst (ebpfEngine_Start ?env demo_host) = Some (EngineStart AttachFailed)"
    using engine_start_cases [of ?env demo_host demo_resolv]
    by (simp add: demo_host_defs demo_write_succeeds Start_def Let_def)
  then obtain h' where h: "ebpfEngine_Start ?env demo_host = (Some (EngineStart AttachFailed), h')"
    by (cases "ebpfEngine_Start ?env demo_host") auto
  have "write_succeeds (write_file ?env)" "resolv_file demo_host = Some demo_resolv"
    "nameservers demo_resolv \<noteq> []" "\<not> dns_running demo_host" "opened (hkernel demo_host) = {}"
    "has_program (mgr_env ?env)"
    by (simp_all add: demo_host_defs demo_write_succeeds demo_resolv_servers)
  from failed_start_restores_host [OF this h] f h show ?thesis
    by (auto simp: demo_resolv_servers)
qed

text \<open>
  A whole session leaves the host as it found it: while the engine runs with encrypted DNS
  its own server is the only nameserver and it is up, and after \<open>Stop\<close> the original
  nameservers are back, the server is down and every kernel resource is released.
\<close>

theorem session_restores_host:
  assumes "write_succeeds (write_file env)" and "resolv_file h = Some c" and "nameservers c \<noteq> []"
    and "opened (hkernel h) = {}" and "has_program (mgr_env env)" and "doh_enabled env"
    and "ebpfEngine_Start env h = (None, h')"
  shows "\<exists>c1 c2. resolv_file h' = Some c1 \<and> nameservers c1 = [''nameserver 127.0.0.1''] \<and> dns_running h' \<and>
    resolv_file (ebpfEngine_Stop env h') = Some c2 \<and> nameservers c2 = nameservers c \<and>
    \<not> dns_running (ebpfEngine_Stop env h') \<and> opened (hkernel (ebpfEngine_Stop env h')) = {}"
proof -
  obtain m k where s: "Start (mgr_env env) (hmgr h) (hkernel h) = (None, m, k)"
    and h': "h' = h\<lparr>resolv_file := Some (set_content c), dns_running := True, hmgr := m, hkernel := k\<rparr>"
    using assms(6,7) by (auto simp: engine_start_cases [OF assms(1,2)] split: if_splits prod.splits option.splits)
  have "opened (snd (Stop m k)) = {}"
    using Start_settles [OF assms(4,5), of "hmgr h"] s by (simp add: started_def Stop_releases)
  then show ?thesis
    using resolv.servers_set [of c] resolv.servers_restore [OF assms(3)] assms(6)
    by (cases "Stop m k")
      (simp add: h' ebpfEngine_Stop_def Let_def RestoreSystemDNS_ok [OF assms(1)] local_nameserver_def)
qed

theorem session_restores_host_witness:
  "\<exists>h'. ebpfEngine_Start demo_engine_env demo_host = (None, h') \<and>
     (\<exists>c2. resolv_file (ebpfEngine_Stop demo_engine_env h') = Some c2 \<and> nameservers c2 = [''nameserver 192.168.1.1''])"
proof -
  have "\<exists>h'. ebpfEngine_Start demo_engine_env demo_host = (None, h')"
    using engine_start_cases [of demo_engine_env demo_host demo_resolv]
    by (simp add: demo_host_defs demo_write_succeeds Start_def Start_push_def Start_events_def Let_def demo_manager_cfg
        pushConfig_def pushTargetPorts_def pushExcludeIPs_def demo_cfg_eq demo_update_def)
  then obtain h' where h: "ebpfEngine_Start demo_engine_env demo_host = (None, h')" by blast
  have "write_succeeds (write_file demo_engine_env)" "resolv_file demo_host = Some demo_resolv"
    "nameservers demo_resolv \<noteq> []" "opened (hkernel demo_host) = {}"
    "has_program (mgr_env demo_engine_env)" "doh_enabled demo_engine_env"
    by (simp_all add: demo_host_defs demo_write_succeeds demo_resolv_servers)
  from session_restores_host [OF this h] h show ?thesis
    by (auto simp: demo_resolv_servers)
qed

text \<open>
  C3: End to end on Linux: the event the kernel program emits for an intercepted connection
  makes userspace send one datagram to the connection's remote address, an IPv4 TCP packet
  from the local to the remote address and from the local to the target port, with the
  socket's next sequence number and the acknowledgement it owes, the configured TTL, and the
  fake ClientHello as its payload.
\<close>

theorem event_becomes_fake_packet:
  assumes "(ck, Bpf_perf_event_output flags e) \<in> set (new_calls lru i st)"
  shows "\<exists>pkt. handle_sample cfg (conn_event_mem e @ pad) = Some (Sendto pkt (le32 (remote_ip4 (skops i)))) \<and>
    length pkt = 115 \<and> pkt ! 8 = word_of_int (cfg_FakeTTL cfg) \<and>
    take 4 (drop 12 pkt) = le32 (local_ip4 (skops i)) \<and> take 4 (drop 16 pkt) = le32 (remote_ip4 (skops i)) \<and>
    segment_fields (drop 20 pkt) =
      (ucast (local_port (skops i)), dst_port_of (skops i), snd_nxt (skops i), rcv_nxt (skops i), 0x18, TLSClientHello)"
proof -
  have e: "e = event_of (skops i)"
    using perf_event_content [OF assms] .
  let ?conn = "conn_of_event \<lparr>ev_SrcIP = src_ip e, ev_DstIP = dst_ip e, ev_SrcPort = src_port e,
    ev_DstPort = dst_port e, ev_Seq = seq e, ev_Ack = ack e\<rparr>"
  let ?pkt = "BuildPacket Linux ?conn TLSClientHello (cfg_FakeTTL cfg)"
  have to4: "To4 (SrcIP ?conn) = Some (le32 (src_ip e))" "To4 (DstIP ?conn) = Some (le32 (dst_ip e))"
    by (simp_all add: conn_of_event_def uint32ToIP_def)
  have len: "length TLSClientHello = 75"
    using client_hello_shape(1) [of "bytes_of_string ''www.google.com''"] by (simp add: TLSClientHello_def)
  have "handle_sample cfg (conn_event_mem e @ pad) = Some (Sendto ?pkt (le32 (dst_ip e)))"
    by (simp add: handle_sample_def conn_event_roundtrip injectFake_def SendFake_linux_def to4 go_copy_def)
  with v4_packet_facts [OF to4 _ refl, of TLSClientHello Linux "cfg_FakeTTL cfg"] show ?thesis
    by (intro exI [of _ ?pkt]) (simp add: len, simp add: e event_of_def conn_of_event_def)
qed

theorem event_becomes_fake_packet_witness:
  "\<exists>pkt. handle_sample demo_cfg (conn_event_mem (event_of (skops demo_established))) =
     Some (Sendto pkt (le32 (remote_ip4 (skops demo_established)))) \<and> length pkt = 115"
proof -
  have "(9, Bpf_perf_event_output BPF_F_CURRENT_CPU (event_of (skops demo_established)))
      \<in> set (new_calls demo_lru demo_established demo_state)"
    using demo_intercepts [of 4 0]
    by (simp add: new_calls_def sockops_established [OF demo_active] demo_established_def)
  from event_becomes_fake_packet [OF this, of demo_cfg "[]"] show ?thesis by auto
qed

end
