(* ===== verification/Linux_System.thy ===== *)
theory Linux_System
  imports Ebpf_Lifecycle
begin

text \<open>
  The running Linux engine as a state machine: kernel callbacks, the perf ring between the
  kernel program and userspace, the event loop, and \<open>UpdateEnabled\<close> at run time, in any
  order.  The ring may lose samples (userspace reads too slowly) and pads those it delivers.
\<close>

section \<open>States and steps\<close>

record sys =
  kst :: kstate
  ring :: "conn_event list"
  sent :: "transmission list"

text \<open>The events among helper calls.\<close>

fun perf_events :: "(u64 \<times> helper_call) list \<Rightarrow> conn_event list" where
  "perf_events [] = []"
| "perf_events ((_, Bpf_perf_event_output _ e) # hs) = e # perf_events hs"
| "perf_events (_ # hs) = perf_events hs"

definition kernel_maps :: "kstate \<Rightarrow> bpf_maps" where
  "kernel_maps st = bpf_maps.truncate st"

definition set_maps :: "kstate \<Rightarrow> bpf_maps \<Rightarrow> kstate" where
  "set_maps st maps = bpf_maps.extend maps \<lparr>calls = calls st\<rparr>"

datatype event =
    Callback invocation
  | Lose
  | Read bytes                \<comment> \<open>one sample, with the padding the ring adds\<close>
  | Enable bool

inductive sys_step ::
    "lru_insert \<Rightarrow> (u32, gecit_config_t) map_update \<Rightarrow> config \<Rightarrow> sys \<Rightarrow> event \<Rightarrow> sys \<Rightarrow> bool"
  for lru upd cfg where
  callback:
    "sys_step lru upd cfg s (Callback i)
       (s\<lparr>kst := fst (gecit_sockops lru i (kst s)), ring := ring s @ perf_events (new_calls lru i (kst s))\<rparr>)"
| lose:
    "ring s = e # es \<Longrightarrow> sys_step lru upd cfg s Lose (s\<lparr>ring := es\<rparr>)"
| read:
    "ring s = e # es \<Longrightarrow> handle_sample cfg (conn_event_mem e @ pad) = Some x \<Longrightarrow>
     sys_step lru upd cfg s (Read pad) (s\<lparr>ring := es, sent := sent s @ [x]\<rparr>)"
| enable:
    "UpdateEnabled (\<lambda>_. True) upd cfg b (kernel_maps (kst s)) = (maps, err) \<Longrightarrow>
     sys_step lru upd cfg s (Enable b) (s\<lparr>kst := set_maps (kst s) maps\<rparr>)"

inductive_simps sys_step_simps:
  "sys_step lru upd cfg s (Callback i) s'"
  "sys_step lru upd cfg s (Read pad) s'"

inductive reaches ::
    "lru_insert \<Rightarrow> (u32, gecit_config_t) map_update \<Rightarrow> config \<Rightarrow> sys \<Rightarrow> event list \<Rightarrow> sys \<Rightarrow> bool"
  for lru upd cfg where
  start: "reaches lru upd cfg s [] s"
| step: "reaches lru upd cfg s evs s' \<Longrightarrow> sys_step lru upd cfg s' ev s'' \<Longrightarrow>
    reaches lru upd cfg s (evs @ [ev]) s''"

definition boot :: "bpf_maps \<Rightarrow> sys" where
  "boot maps = \<lparr>kst = attached maps, ring = [], sent = []\<rparr>"

section \<open>What the steps keep\<close>

lemma perf_events_iff: "e \<in> set (perf_events hs) \<longleftrightarrow> (\<exists>c f. (c, Bpf_perf_event_output f e) \<in> set hs)"
  by (induction hs rule: perf_events.induct) auto

lemma set_maps_sel [simp]:
  "gecit_config (set_maps st maps) = gecit_config maps"
  "target_ports (set_maps st maps) = target_ports maps"
  "exclude_ips (set_maps st maps) = exclude_ips maps"
  "connections (set_maps st maps) = connections maps"
  by (simp_all add: set_maps_def bpf_maps.extend_def)

lemma kernel_maps_sel [simp]:
  "gecit_config (kernel_maps st) = gecit_config st"
  "target_ports (kernel_maps st) = target_ports st"
  "exclude_ips (kernel_maps st) = exclude_ips st"
  "connections (kernel_maps st) = connections st"
  by (simp_all add: kernel_maps_def bpf_maps.truncate_def)

lemma UpdateEnabled_frame:
  assumes "UpdateEnabled has upd cfg b maps = (maps', err)"
  shows "target_ports maps' = target_ports maps" and "exclude_ips maps' = exclude_ips maps"
    and "connections maps' = connections maps"
  using assms by (auto simp: UpdateEnabled_def split: if_splits sum.splits)

text \<open>
  An event is wanted when its port is a target and its address is not excluded; a datagram
  is justified when it is the fake for a wanted event.
\<close>

definition wanted :: "kstate \<Rightarrow> conn_event \<Rightarrow> bool" where
  "wanted st e \<longleftrightarrow> exclude_ips st (dst_ip e) = None \<and> target_ports st (dst_port e) \<noteq> None"

definition justified :: "config \<Rightarrow> kstate \<Rightarrow> transmission \<Rightarrow> bool" where
  "justified cfg st x \<longleftrightarrow> (\<exists>e pad. wanted st e \<and> handle_sample cfg (conn_event_mem e @ pad) = Some x)"

definition sys_inv :: "u32 \<Rightarrow> config \<Rightarrow> bpf_maps \<Rightarrow> sys \<Rightarrow> bool" where
  "sys_inv limit cfg maps s \<longleftrightarrow>
     target_ports (kst s) = target_ports maps \<and> exclude_ips (kst s) = exclude_ips maps \<and>
     (\<forall>c. gecit_config (kst s) 0 = Some c \<longrightarrow> restore_after_bytes c = limit) \<and>
     tracking_inv limit (connections (kst s)) \<and>
     (\<forall>e \<in> set (ring s). wanted (kst s) e) \<and> (\<forall>x \<in> set (sent s). justified cfg (kst s) x)"

lemma wanted_cong:
  "target_ports st = target_ports st' \<Longrightarrow> exclude_ips st = exclude_ips st' \<Longrightarrow> wanted st = wanted st'"
  by (intro ext) (simp add: wanted_def)

lemma justified_cong:
  "target_ports st = target_ports st' \<Longrightarrow> exclude_ips st = exclude_ips st' \<Longrightarrow> justified cfg st = justified cfg st'"
  using wanted_cong [of st st'] by (intro ext) (simp add: justified_def)

lemma new_event_wanted: "e \<in> set (perf_events (new_calls lru i st)) \<Longrightarrow> wanted st e"
  by (auto simp: perf_events_iff perf_event_calls wanted_def)

lemma sys_step_inv:
  assumes "lru_insert_spec lru" and "update_any_spec upd" and "limit = word_of_int (cfg_RestoreAfterBytes cfg)"
    and "sys_step lru upd cfg s ev s'" and "sys_inv limit cfg maps s"
  shows "sys_inv limit cfg maps s'"
  using assms(4)
proof (cases rule: sys_step.cases)
  case (callback i)
  let ?st = "fst (gecit_sockops lru i (kst s))"
  have f: "wanted ?st = wanted (kst s)" "justified cfg ?st = justified cfg (kst s)"
    by (rule wanted_cong justified_cong, simp_all)+
  have "tracking_inv limit (connections ?st)"
    using assms(5) by (intro sockops_tracking_inv assms(1)) (auto simp: sys_inv_def active_config_def)
  with assms(5) callback show ?thesis
    by (auto simp: sys_inv_def f dest: new_event_wanted)
next
  case (lose e es)
  with assms(5) show ?thesis by (simp add: sys_inv_def)
next
  case (read e es pad x)
  with assms(5) have "justified cfg (kst s) x" by (auto simp: sys_inv_def justified_def)
  with read assms(5) show ?thesis by (simp add: sys_inv_def)
next
  case (enable b maps' err)
  note frame = UpdateEnabled_frame [OF enable(3)]
  let ?st = "set_maps (kst s) maps'"
  have f: "wanted ?st = wanted (kst s)" "justified cfg ?st = justified cfg (kst s)"
    by (rule wanted_cong justified_cong; simp add: frame)+
  have "\<forall>c. gecit_config maps' 0 = Some c \<longrightarrow> restore_after_bytes c = limit"
    using enable(3) assms(5)
    by (auto simp: UpdateEnabled_def gecitConfig_def sys_inv_def assms(3) split: if_splits sum.splits
        dest!: update_anyD [OF assms(2)])
  with enable assms(5) show ?thesis
    by (simp add: sys_inv_def f frame)
qed

lemma reaches_inv:
  assumes "reaches lru upd cfg s evs s'"
    and "lru_insert_spec lru" and "update_any_spec upd" and "limit = word_of_int (cfg_RestoreAfterBytes cfg)"
    and "sys_inv limit cfg maps s"
  shows "sys_inv limit cfg maps s'"
  using assms
proof (induction rule: reaches.induct)
  case (step s evs s' ev s'')
  then have "sys_inv limit cfg maps s'" by blast
  from sys_step_inv [OF step.prems(1-3) step.hyps(2) this] show ?case .
qed

lemma boot_inv:
  assumes "gecit_config maps 0 = Some (gecitConfig cfg e)" and "connections maps = Map.empty"
  shows "sys_inv (word_of_int (cfg_RestoreAfterBytes cfg)) cfg maps (boot maps)"
  using assms by (simp add: sys_inv_def boot_def gecitConfig_def tracking_inv_def)

text \<open>Where a justified datagram goes.\<close>

lemma handle_sample_address:
  "handle_sample cfg (conn_event_mem e @ pad) = Some (Sendto pkt addr) \<Longrightarrow>
   addr = le32 (dst_ip e) \<and> of_be16 (drop 22 pkt) = dst_port e"
proof -
  let ?conn = "conn_of_event \<lparr>ev_SrcIP = src_ip e, ev_DstIP = dst_ip e, ev_SrcPort = src_port e,
    ev_DstPort = dst_port e, ev_Seq = seq e, ev_Ack = ack e\<rparr>"
  have to4: "To4 (SrcIP ?conn) = Some (le32 (src_ip e))" "To4 (DstIP ?conn) = Some (le32 (dst_ip e))"
    by (simp_all add: conn_of_event_def uint32ToIP_def)
  have len: "length TLSClientHello \<le> 65495"
    using client_hello_shape(1) [of "bytes_of_string ''www.google.com''"] by (simp add: TLSClientHello_def)
  assume "handle_sample cfg (conn_event_mem e @ pad) = Some (Sendto pkt addr)"
  then have pkt: "pkt = BuildPacket Linux ?conn TLSClientHello (cfg_FakeTTL cfg)" and addr: "addr = le32 (dst_ip e)"
    by (simp_all add: handle_sample_def conn_event_roundtrip injectFake_def SendFake_linux_def to4 go_copy_def)
  have "segment_fields (drop 20 pkt) = (src_port e, dst_port e, seq e, ack e, 0x18, TLSClientHello)"
    using v4_packet_facts [OF to4 len pkt] by (simp add: conn_of_event_def)
  with addr show "addr = le32 (dst_ip e) \<and> of_be16 (drop 22 pkt) = dst_port e"
    by (simp add: segment_fields_def)
qed

lemma sent_addresses:
  assumes "lru_insert_spec lru" and "update_any_spec upd_c" and "update_any_spec upd_p" and "update_any_spec upd_x"
    and "has ''exclude_ips''"
    and "target_ports maps = Map.empty" and "exclude_ips maps = Map.empty" and "connections maps' = Map.empty"
    and "push_maps has upd_c upd_p upd_x cfg maps = (maps', None)"
    and "reaches lru upd_c cfg (boot maps') evs s"
    and "Sendto pkt addr \<in> set (sent s)"
  shows "of_be16 (drop 22 pkt) \<in> set (cfg_Ports cfg) \<and> Some addr \<notin> To4 ` set (cfg_ExcludeIPs cfg)"
proof -
  note pushed = push_maps_ok [OF assms(2-5,9)]
  have "sys_inv (word_of_int (cfg_RestoreAfterBytes cfg)) cfg maps' s"
    using reaches_inv [OF assms(10,1,2) refl boot_inv [OF pushed(1) assms(8)]] .
  with assms(11) have "justified cfg (kst s) (Sendto pkt addr)"
    and st: "target_ports (kst s) = target_ports maps'" "exclude_ips (kst s) = exclude_ips maps'"
    by (auto simp: sys_inv_def)
  then obtain e where "wanted (kst s) e" "addr = le32 (dst_ip e)" "of_be16 (drop 22 pkt) = dst_port e"
    using handle_sample_address by (auto simp: justified_def)
  then show ?thesis
    using pushed(2) [of "dst_port e"] pushed(3) [of "dst_ip e"] assms(6,7)
    by (auto simp: wanted_def st split: if_splits)
qed

section \<open>Properties\<close>

text \<open>
  C5: No fake ever goes where it should not: in every state the running engine can reach after
  its maps were pushed, whatever the interleaving of kernel callbacks, lost samples, reads
  and run-time switching, every datagram sent goes to an address that is not excluded (the
  DoH upstreams) and carries a configured target port.
\<close>

theorem fakes_only_to_targets:
  assumes "lru_insert_spec lru" and "update_any_spec upd_c" and "update_any_spec upd_p" and "update_any_spec upd_x"
    and "has ''exclude_ips''"
    and "target_ports maps = Map.empty" and "exclude_ips maps = Map.empty" and "connections maps' = Map.empty"
    and "push_maps has upd_c upd_p upd_x cfg maps = (maps', None)"
    and "reaches lru upd_c cfg (boot maps') evs s"
    and "Sendto pkt addr \<in> set (sent s)"
  shows "of_be16 (drop 22 pkt) \<in> set (cfg_Ports cfg) \<and> Some addr \<notin> To4 ` set (cfg_ExcludeIPs cfg)"
  using sent_addresses [OF assms] .

lemma demo_reach:
  "\<exists>s pkt. reaches demo_lru demo_update demo_cfg (boot demo_pushed) [Callback demo_established, Read []] s \<and>
     Sendto pkt (le32 0x22D8B85D) \<in> set (sent s)"
proof -
  let ?s0 = "boot demo_pushed"
  let ?e = "event_of (skops demo_established)"
  have active: "active_config (kst ?s0) demo_config"
    by (simp add: boot_def demo_pushed_def active_config_def demo_config_def)
  have "intercepts (kst ?s0) (skops demo_established)"
    using demo_port [of 4 0]
    by (simp add: boot_def demo_pushed_def intercepts_def demo_established_def) (simp add: demo_skops_def)
  then have ev: "perf_events (new_calls demo_lru demo_established (kst ?s0)) = [?e]"
    by (simp add: new_calls_def sockops_established [OF active] demo_established_def)
  define s1 where "s1 = ?s0\<lparr>kst := fst (gecit_sockops demo_lru demo_established (kst ?s0)), ring := [?e]\<rparr>"
  have "sys_step demo_lru demo_update demo_cfg ?s0 (Callback demo_established) s1"
    by (simp add: sys_step_simps ev) (simp add: s1_def boot_def)
  then have r1: "reaches demo_lru demo_update demo_cfg ?s0 [Callback demo_established] s1"
    using reaches.step [OF reaches.start] by fastforce
  define x where "x = injectFake demo_cfg \<lparr>ev_SrcIP = src_ip ?e, ev_DstIP = dst_ip ?e, ev_SrcPort = src_port ?e,
    ev_DstPort = dst_port ?e, ev_Seq = seq ?e, ev_Ack = ack ?e\<rparr>"
  have "handle_sample demo_cfg (conn_event_mem ?e @ []) = Some x"
    unfolding handle_sample_def conn_event_roundtrip by (simp add: x_def)
  then have "sys_step demo_lru demo_update demo_cfg s1 (Read []) (s1\<lparr>ring := [], sent := sent s1 @ [x]\<rparr>)"
    by (auto simp: sys_step_simps s1_def)
  with r1 have r2: "reaches demo_lru demo_update demo_cfg ?s0 ([Callback demo_established] @ [Read []])
      (s1\<lparr>ring := [], sent := sent s1 @ [x]\<rparr>)"
    by (rule reaches.step)
  have "To4 (DstIP (conn_of_event \<lparr>ev_SrcIP = src_ip ?e, ev_DstIP = dst_ip ?e, ev_SrcPort = src_port ?e,
    ev_DstPort = dst_port ?e, ev_Seq = seq ?e, ev_Ack = ack ?e\<rparr>)) = Some (le32 0x22D8B85D)"
    by (simp add: conn_of_event_def uint32ToIP_def event_of_def demo_established_def demo_skops_def)
  then have "\<exists>pkt. x = Sendto pkt (le32 0x22D8B85D)"
    by (simp add: x_def injectFake_def SendFake_linux_def go_copy_def)
  with r2 show ?thesis by fastforce
qed

theorem fakes_only_to_targets_witness:
  "\<exists>s pkt. reaches demo_lru demo_update demo_cfg (boot demo_pushed) [Callback demo_established, Read []] s \<and>
     Sendto pkt (le32 0x22D8B85D) \<in> set (sent s) \<and> of_be16 (drop 22 pkt) = 443"
proof -
  obtain s pkt where r: "reaches demo_lru demo_update demo_cfg (boot demo_pushed) [Callback demo_established, Read []] s"
    and p: "Sendto pkt (le32 0x22D8B85D) \<in> set (sent s)"
    using demo_reach by blast
  have "target_ports demo_maps = Map.empty" "exclude_ips demo_maps = Map.empty" "connections demo_pushed = Map.empty"
    by (simp_all add: demo_maps_def demo_pushed_def)
  from fakes_only_to_targets [where has = "\<lambda>_. True", OF demo_lru_spec demo_update_spec demo_update_spec demo_update_spec
      TrueI this demo_push r p] r p
  show ?thesis by (auto simp: demo_cfg_eq)
qed

text \<open>
  Switching the engine off and on at run time keeps the invariant of the connection map:
  in every reachable state no tracked connection has its restored flag set or a counter
  above the configured limit, although a connection's segments may be counted only in part.
\<close>

theorem tracking_survives_switching:
  assumes "lru_insert_spec lru" and "update_any_spec upd"
    and "gecit_config maps 0 = Some (gecitConfig cfg e)" and "connections maps = Map.empty"
    and "reaches lru upd cfg (boot maps) evs s"
    and "connections (kst s) c = Some t"
  shows "mss_restored t = 0 \<and> bytes_sent t \<le> word_of_int (cfg_RestoreAfterBytes cfg)"
  using reaches_inv [OF assms(5,1,2) refl boot_inv [OF assms(3,4)]] assms(6)
  by (auto simp: sys_inv_def dest: tracking_invD)

theorem tracking_survives_switching_witness:
  "\<exists>s t. reaches demo_lru demo_update demo_cfg (boot demo_pushed) [Callback demo_established] s \<and>
     connections (kst s) 9 = Some t \<and> mss_restored t = 0 \<and> bytes_sent t \<le> 600"
proof -
  let ?s0 = "boot demo_pushed"
  have active: "active_config (kst ?s0) demo_config"
    by (simp add: boot_def demo_pushed_def active_config_def demo_config_def)
  have "intercepts (kst ?s0) (skops demo_established)"
    using demo_port [of 4 0]
    by (simp add: boot_def demo_pushed_def intercepts_def demo_established_def) (simp add: demo_skops_def)
  then obtain s where r: "reaches demo_lru demo_update demo_cfg ?s0 ([] @ [Callback demo_established]) s"
    and c: "connections (kst s) 9 = Some \<lparr>bytes_sent = 0, mss_restored = 0\<rparr>"
    using reaches.step [OF reaches.start sys_step.callback, of demo_lru demo_update demo_cfg ?s0 demo_established]
    by (fastforce simp: sockops_established [OF active] demo_established_def demo_lru_def)
  have "gecit_config demo_pushed 0 = Some (gecitConfig demo_cfg 1)" "connections demo_pushed = Map.empty"
    by (simp_all add: demo_pushed_def demo_config_def gecitConfig_def demo_cfg_eq)
  from tracking_survives_switching [OF demo_lru_spec demo_update_spec this r c] r c show ?thesis
    by auto
qed

end
