(* ===== verification/Upstreams.thy ===== *)
theory Upstreams
  imports Dns_Server Go_Ip Go_Url Linux_System
begin

text \<open>
  From the command line to the engine: the settings and their defaults
  (\<open>src/cmd/gecit/app/run.go\<close>, \<open>root.go\<close>, \<open>src/pkg/engine/config.go\<close>), the construction of the
  Linux engine with the addresses it leaves alone (\<open>src/cmd/gecit/app/run_linux.go\<close>), and the
  construction of a DNS-over-HTTPS client (\<open>NewDoHClient\<close> of \<open>src/pkg/dns/doh.go\<close>).
  \<open>net.LookupIP\<close> is an argument of each use: the network may answer two lookups differently.
\<close>

section \<open>Settings\<close>

record Config =
  MSS :: int
  RestoreMSS :: int
  RestoreAfterBytes :: int
  Ports :: "u16 list"
  Interface :: string
  CgroupPath :: string
  FakeTTL :: int
  DoHEnabled :: bool
  DoHUpstream :: string

definition DefaultConfig :: Config where
  "DefaultConfig = \<lparr>MSS = 40, RestoreMSS = 0, RestoreAfterBytes = 600, Ports = [443], Interface = '''',
     CgroupPath = ''/sys/fs/cgroup'', FakeTTL = 8, DoHEnabled = True, DoHUpstream = ''cloudflare''\<rparr>"

text \<open>The values the settings library reads, and the flags with their defaults.\<close>

record settings =
  s_mss :: int
  s_restore_mss :: int
  s_restore_after_bytes :: int
  s_ports :: "int list"
  s_interface :: string
  s_cgroup_path :: string
  s_fake_ttl :: int
  s_doh_enabled :: bool
  s_doh_upstream :: string

definition run_flags :: settings where
  "run_flags = \<lparr>s_mss = 40, s_restore_mss = 0, s_restore_after_bytes = 600, s_ports = [443], s_interface = '''',
     s_cgroup_path = ''/sys/fs/cgroup'', s_fake_ttl = 8, s_doh_enabled = True, s_doh_upstream = ''cloudflare''\<rparr>"

text \<open>The conversion to 16 bits keeps the low bits of a number of any size.\<close>

definition toUint16Slice :: "int list \<Rightarrow> u16 list" where
  "toUint16Slice = map word_of_int"

definition run_config :: "settings \<Rightarrow> Config" where
  "run_config s =
     \<lparr>MSS = s_mss s, RestoreMSS = s_restore_mss s, RestoreAfterBytes = s_restore_after_bytes s,
      Ports = toUint16Slice (s_ports s), Interface = s_interface s, CgroupPath = s_cgroup_path s,
      FakeTTL = s_fake_ttl s, DoHEnabled = s_doh_enabled s, DoHUpstream = s_doh_upstream s\<rparr>"

section \<open>Upstreams\<close>

type_synonym lookup = "string \<Rightarrow> ip list option"

text \<open>The client, and the server name its TLS connections present when it is not the URL's host.\<close>

definition NewDoHClient :: "lookup \<Rightarrow> string \<Rightarrow> string \<Rightarrow> DoHClient \<times> string option" where
  "NewDoHClient lookup u n =
     (let unchanged = (\<lparr>upstream = u, name = n\<rparr>, None) in
      case url_Parse u of
        None \<Rightarrow> unchanged
      | Some parsed \<Rightarrow>
          let host = Hostname parsed in
          if ParseIP host \<noteq> None then unchanged
          else (case lookup host of
                  None \<Rightarrow> unchanged
                | Some ips \<Rightarrow>
                    (case List.map_filter To4 ips of
                       [] \<Rightarrow> unchanged
                     | ip4 # _ \<Rightarrow>
                         let port = (if Port parsed = '''' then ''443'' else Port parsed);
                             parsed = parsed\<lparr>Host := JoinHostPort (print_ipv4 ip4) port\<rparr>
                         in (\<lparr>upstream = url_String parsed, name = n\<rparr>, Some host))))"

definition upstream_url :: "string \<Rightarrow> string" where
  "upstream_url u =
     (let u = TrimSpace u in case map_of Presets u of Some url \<Rightarrow> url | None \<Rightarrow> u)"

definition upstream_ips :: "lookup \<Rightarrow> string \<Rightarrow> ip list" where
  "upstream_ips lookup u =
     (case url_Parse (upstream_url u) of
        None \<Rightarrow> []
      | Some parsed \<Rightarrow>
          let host = Hostname parsed in
          (case ParseIP host of
             Some ip \<Rightarrow> [ip]
           | None \<Rightarrow>
               (case lookup host of
                  None \<Rightarrow> []
                | Some found \<Rightarrow> filter (\<lambda>ip. To4 ip \<noteq> None) found)))"

definition dohUpstreamIPs :: "lookup \<Rightarrow> string \<Rightarrow> ip list" where
  "dohUpstreamIPs lookup ups = concat (map (upstream_ips lookup) (Split CHR '','' ups))"

text \<open>
  The engine: the configuration of its manager, its resolver, and whether DNS is served.
  The addresses to leave alone are looked up before the clients look up theirs.
\<close>

record ebpfEngine =
  mgr_config :: config
  resolver :: Resolver
  dohEnabled :: bool

definition newPlatformEngine :: "lookup \<Rightarrow> lookup \<Rightarrow> Config \<Rightarrow> ebpfEngine" where
  "newPlatformEngine lookup1 lookup2 cfg =
     (let ups = (if DoHUpstream cfg = '''' then ''cloudflare'' else DoHUpstream cfg) in
      \<lparr>mgr_config = NewManager
         \<lparr>cfg_MSS = MSS cfg, cfg_RestoreMSS = RestoreMSS cfg, cfg_RestoreAfterBytes = RestoreAfterBytes cfg,
          cfg_Ports = Ports cfg, cfg_ExcludeIPs = dohUpstreamIPs lookup1 ups,
          cfg_CgroupPath = CgroupPath cfg, cfg_FakeTTL = FakeTTL cfg\<rparr>,
       resolver = NewResolver (\<lambda>u n. fst (NewDoHClient lookup2 u n)) ups,
       dohEnabled = DoHEnabled cfg\<rparr>)"

fun clients :: "Resolver \<Rightarrow> DoHClient list" where
  "clients (Single c) = [c]"
| "clients (FallbackResolver cs) = cs"

text \<open>
  The addresses a client's requests (\<open>Resolve\<close>, through \<open>net/http\<close>'s dialler) may connect to:
  the one its URL has, or, when the URL still has a name, those a lookup finds at that time.
\<close>

definition dialled :: "lookup \<Rightarrow> DoHClient \<Rightarrow> ip list" where
  "dialled lookup c =
     (case url_Parse (upstream c) of
        None \<Rightarrow> []
      | Some p \<Rightarrow>
          let host = Hostname p in
          (case ParseIP host of
             Some ip \<Rightarrow> [ip]
           | None \<Rightarrow> (case lookup host of None \<Rightarrow> [] | Some ips \<Rightarrow> ips)))"

section \<open>Where a client connects to\<close>

lemma print_ipv4_chars:
  assumes "length q = 4"
  shows "CHR '':'' \<notin> set (print_ipv4 q)" and "CHR ''/'' \<notin> set (print_ipv4 q)" and "print_ipv4 q \<noteq> []"
proof -
  have d: "digit_char n \<noteq> CHR '':'' \<and> digit_char n \<noteq> CHR ''/''" if "n < 10" for n
    using digit_value_char [OF that] by (auto simp: digit_value_def)
  have o: "c \<noteq> CHR '':'' \<and> c \<noteq> CHR ''/''" if "c \<in> set (print_octet b)" for b c
  proof -
    from that print_octet_chars [of b] obtain n where "n < 10" "c = digit_char n" by blast
    with d show ?thesis by simp
  qed
  have "c \<noteq> CHR '':'' \<and> c \<noteq> CHR ''/''" if "c \<in> set (print_ipv4 q)" for c
  proof -
    from that have "c = CHR ''.'' \<or> (\<exists>b. c \<in> set (print_octet b))"
      using set_Join [of "map print_octet q" "''.''"] by (auto simp: print_ipv4_def)
    with o show ?thesis by auto
  qed
  then show "CHR '':'' \<notin> set (print_ipv4 q)" "CHR ''/'' \<notin> set (print_ipv4 q)" by auto
  show "print_ipv4 q \<noteq> []" using ParseIP_print [OF assms] by (auto simp: ParseIP_def)
qed

text \<open>Giving a URL with a host an IPv4 address for it, in print and back.\<close>

lemma rewrite_host:
  assumes "url_Parse u = Some p" and "Hostname p \<noteq> []" and "length q = 4"
  defines "port \<equiv> if Port p = '''' then ''443'' else Port p"
  defines "p' \<equiv> p\<lparr>Host := JoinHostPort (print_ipv4 q) port\<rparr>"
  shows "url_Parse (url_String p') = Some p'" and "Hostname p' = print_ipv4 q" and "Port p' = port"
proof -
  have h: "Host p \<noteq> []" using assms(2) by (auto simp: Hostname_def host_name_def)
  note chars = print_ipv4_chars [OF assms(3)]
  note join = host_of_JoinHostPort [OF chars(1)]
  have port: "list_all is_digit port"
    using url_Parse_host(5) [OF assms(1) h] by (auto simp: port_def is_digit_def)
  then have "CHR ''/'' \<notin> set port" by (auto simp: list_all_iff is_digit_def)
  with chars have "JoinHostPort (print_ipv4 q) port \<noteq> []" "CHR ''/'' \<notin> set (JoinHostPort (print_ipv4 q) port)"
    by (auto simp: JoinHostPort_def)
  with url_Parse_String [OF assms(1) h] port show "url_Parse (url_String p') = Some p'"
    by (simp add: p'_def join)
  show "Hostname p' = print_ipv4 q" "Port p' = port" by (simp_all add: p'_def Hostname_def Port_def join)
qed

lemma first_To4:
  assumes "List.map_filter To4 ips = q # qs"
  obtains ip where "ip \<in> set ips" "To4 ip = Some q" "length q = 4"
proof -
  from assms have "q \<in> set (List.map_filter To4 ips)" by simp
  then obtain ip where "ip \<in> set ips" "To4 ip = Some q" by (auto simp: map_filter_def)
  with that show thesis using To4_length by blast
qed

text \<open>What the two lookups have to agree on, and that there is no address for no name.\<close>

definition lookups_agree :: "lookup \<Rightarrow> lookup \<Rightarrow> bool" where
  "lookups_agree lookup1 lookup2 \<longleftrightarrow> lookup2 [] = None \<and>
     (\<forall>host ips. lookup2 host = Some ips \<longrightarrow> (\<exists>ips'. lookup1 host = Some ips' \<and> set ips \<subseteq> set ips'))"

text \<open>The two outcomes of the construction.\<close>

lemma NewDoHClient_cases:
  obtains (same) "NewDoHClient lookup u n = (\<lparr>upstream = u, name = n\<rparr>, None)"
  | (rewritten) p ips ip q where "url_Parse u = Some p" "ParseIP (Hostname p) = None" "lookup (Hostname p) = Some ips"
    "ip \<in> set ips" "To4 ip = Some q" "length q = 4"
    "NewDoHClient lookup u n = (\<lparr>upstream = url_String (p\<lparr>Host := JoinHostPort (print_ipv4 q)
       (if Port p = '''' then ''443'' else Port p)\<rparr>), name = n\<rparr>, Some (Hostname p))"
proof (cases "url_Parse u")
  case None
  then show thesis by (intro same) (simp add: NewDoHClient_def)
next
  case (Some p)
  note p = this
  show thesis
  proof (cases "ParseIP (Hostname p) = None \<and> lookup (Hostname p) \<noteq> None")
    case True
    then obtain ips where l: "lookup (Hostname p) = Some ips" by auto
    show thesis
    proof (cases "List.map_filter To4 ips")
      case Nil
      with p l True show thesis by (intro same) (simp add: NewDoHClient_def)
    next
      case (Cons q qs)
      obtain ip where ip: "ip \<in> set ips" "To4 ip = Some q" "length q = 4" using first_To4 [OF Cons] .
      show thesis
        by (rule rewritten [OF p _ l ip]) (use p l Cons True in \<open>simp_all add: NewDoHClient_def\<close>)
    qed
  next
    case False
    with p show thesis by (intro same) (auto simp: NewDoHClient_def Let_def)
  qed
qed

lemma client_address_listed:
  assumes "lookups_agree lookup1 lookup2" and "lookups_agree lookup1 lookup3"
    and "ip \<in> set (dialled lookup3 (fst (NewDoHClient lookup2 (upstream_url u) n)))" and "To4 ip = Some q"
  shows "Some q \<in> To4 ` set (upstream_ips lookup1 u)"
proof (cases rule: NewDoHClient_cases [of lookup2 "upstream_url u" n])
  case same
  from assms(3) obtain p where p: "url_Parse (upstream_url u) = Some p"
    by (cases "url_Parse (upstream_url u)") (simp_all add: same dialled_def)
  show ?thesis
  proof (cases "ParseIP (Hostname p)")
    case (Some a)
    with assms(3,4) p show ?thesis by (force simp: same dialled_def upstream_ips_def)
  next
    case None
    with assms(3) p obtain ips where "lookup3 (Hostname p) = Some ips" "ip \<in> set ips"
      by (cases "lookup3 (Hostname p)") (simp_all add: same dialled_def)
    with assms(2) obtain ips' where "lookup1 (Hostname p) = Some ips'" "ip \<in> set ips'" unfolding lookups_agree_def by blast
    with None p assms(4) show ?thesis by (force simp: upstream_ips_def)
  qed
next
  case (rewritten p0 ips a q0)
  have "Hostname p0 \<noteq> []" using rewritten(3) assms(1) by (auto simp: lookups_agree_def)
  note r = rewrite_host [OF rewritten(1) this rewritten(6)]
  have "ip = v4_in_v6_prefix @ q0"
    using assms(3) r(1,2) ParseIP_print [OF rewritten(6)] by (simp add: rewritten(7) dialled_def)
  with assms(4) rewritten(6) have "q = q0" by (simp add: To4_def v4_in_v6_prefix_def)
  moreover obtain ips' where "lookup1 (Hostname p0) = Some ips'" "a \<in> set ips'"
    using assms(1) rewritten(3,4) unfolding lookups_agree_def by blast
  ultimately show ?thesis using rewritten(1,2,5) by (force simp: upstream_ips_def)
qed

lemma clients_NewResolver:
  "clients (NewResolver mk ups) = map (resolver_client mk) (Split CHR '','' ups)"
  by (cases "map (resolver_client mk) (Split CHR '','' ups)")
    (auto simp: NewResolver_def Let_def length_Suc_conv)

lemma resolver_client_url:
  "\<exists>n. resolver_client mk u = mk (upstream_url u) n"
  by (auto simp: resolver_client_def upstream_url_def Let_def split: option.splits)

lemma NewManager_sel: "cfg_ExcludeIPs (NewManager c) = cfg_ExcludeIPs c"
  by (simp add: NewManager_def Let_def)

text \<open>Every address a client of the engine is given is one the manager leaves alone.\<close>

lemma client_address_excluded:
  assumes "lookups_agree lookup1 lookup2" and "lookups_agree lookup1 lookup3"
    and "c \<in> set (clients (resolver (newPlatformEngine lookup1 lookup2 cfg)))"
    and "ip \<in> set (dialled lookup3 c)" and "To4 ip = Some q"
  shows "Some q \<in> To4 ` set (cfg_ExcludeIPs (mgr_config (newPlatformEngine lookup1 lookup2 cfg)))"
proof -
  let ?ups = "if DoHUpstream cfg = '''' then ''cloudflare'' else DoHUpstream cfg"
  let ?mk = "\<lambda>u n. fst (NewDoHClient lookup2 u n)"
  have "clients (resolver (newPlatformEngine lookup1 lookup2 cfg)) = map (resolver_client ?mk) (Split CHR '','' ?ups)"
    by (simp add: newPlatformEngine_def Let_def clients_NewResolver)
  with assms(3) obtain u where u: "u \<in> set (Split CHR '','' ?ups)" "c = resolver_client ?mk u" by auto
  moreover obtain n where "resolver_client ?mk u = ?mk (upstream_url u) n" using resolver_client_url by metis
  ultimately have c: "c = ?mk (upstream_url u) n" by simp
  from client_address_listed [OF assms(1,2) assms(4) [unfolded c] assms(5)]
  have "Some q \<in> To4 ` set (upstream_ips lookup1 u)" .
  moreover have "set (upstream_ips lookup1 u) \<subseteq> set (dohUpstreamIPs lookup1 ?ups)"
    using u(1) by (auto simp: dohUpstreamIPs_def)
  ultimately have "Some q \<in> To4 ` set (dohUpstreamIPs lookup1 ?ups)" by blast
  moreover have "cfg_ExcludeIPs (mgr_config (newPlatformEngine lookup1 lookup2 cfg)) = dohUpstreamIPs lookup1 ?ups"
    by (simp add: newPlatformEngine_def Let_def NewManager_sel)
  ultimately show ?thesis by (simp only:)
qed

section \<open>Properties\<close>

text \<open>A configuration with an upstream whose name has an address, and what becomes of it.\<close>

definition demo_lookup :: lookup where
  "demo_lookup host = (if host = ''doh.test'' then Some [[1, 2, 3, 4]] else None)"

definition demo_Config :: Config where
  "demo_Config = DefaultConfig\<lparr>DoHUpstream := ''https://doh.test/dns-query''\<rparr>"

lemma demo_lookups: "lookups_agree demo_lookup demo_lookup"
  by (simp add: lookups_agree_def demo_lookup_def)

lemma demo_url: "url_Parse ''https://doh.test/dns-query'' =
    Some \<lparr>Scheme = ''https'', Opaque = '''', Host = ''doh.test'', Path = ''/dns-query''\<rparr>"
  by code_simp

lemma demo_upstream: "upstream_url ''https://doh.test/dns-query'' = ''https://doh.test/dns-query''"
  "Split CHR '','' ''https://doh.test/dns-query'' = [''https://doh.test/dns-query'']"
  "plain ''https://doh.test/dns-query''"
  by code_simp+

lemma demo_client: "resolver_client mk ''https://doh.test/dns-query'' = mk ''https://doh.test/dns-query'' ''https://doh.test/dns-query''"
proof -
  have "TrimSpace ''https://doh.test/dns-query'' = ''https://doh.test/dns-query''"
    "map_of Presets ''https://doh.test/dns-query'' = None"
    by code_simp+
  then show ?thesis by (simp add: resolver_client_def Let_def)
qed

lemma demo_hostname: "Hostname \<lparr>Scheme = ''https'', Opaque = '''', Host = ''doh.test'', Path = ''/dns-query''\<rparr> = ''doh.test''"
  "Port \<lparr>Scheme = ''https'', Opaque = '''', Host = ''doh.test'', Path = ''/dns-query''\<rparr> = ''''"
  "ParseIP ''doh.test'' = None"
  by code_simp+

lemma demo_mgr_config: "mgr_config (newPlatformEngine demo_lookup demo_lookup demo_Config) = demo_cfg"
  by (simp add: newPlatformEngine_def demo_Config_def DefaultConfig_def dohUpstreamIPs_def demo_upstream
      upstream_ips_def demo_url demo_hostname demo_lookup_def demo_cfg_eq NewManager_def)

text \<open>
  A DNS-over-HTTPS upstream given by name is dialled by address: the client's URL is the
  configured one with the first IPv4 address of the name for its host, the same scheme, port
  (443 when there was none) and path, and TLS presents the name, so that the certificate is
  checked against it.
\<close>

theorem doh_client_dials_address:
  assumes "plain u" and "url_Parse u = Some p" and "Hostname p \<noteq> ''''" and "ParseIP (Hostname p) = None"
    and "lookup (Hostname p) = Some ips" and "List.map_filter To4 ips = q # qs"
    and "NewDoHClient lookup u n = (c, server_name)"
  shows "name c = n \<and> server_name = Some (Hostname p) \<and>
    (\<exists>p' ip. url_Parse (upstream c) = Some p' \<and> ParseIP (Hostname p') = Some ip \<and> To4 ip = Some q \<and>
       Port p' = (if Port p = '''' then ''443'' else Port p) \<and> Scheme p' = Scheme p \<and> Path p' = Path p)"
proof -
  let ?p = "p\<lparr>Host := JoinHostPort (print_ipv4 q) (if Port p = '''' then ''443'' else Port p)\<rparr>"
  have l: "length q = 4" using first_To4 [OF assms(6)] .
  note r = rewrite_host [OF assms(2,3) l]
  have c: "c = \<lparr>upstream = url_String ?p, name = n\<rparr>" "server_name = Some (Hostname p)"
    using assms(2,4-7) by (auto simp: NewDoHClient_def Let_def)
  moreover have "To4 (v4_in_v6_prefix @ q) = Some q" using l by (simp add: To4_def v4_in_v6_prefix_def)
  ultimately show ?thesis
    using r ParseIP_print [OF l] by (intro conjI exI [of _ ?p] exI [of _ "v4_in_v6_prefix @ q"]) simp_all
qed

theorem doh_client_dials_address_witness:
  "snd (NewDoHClient demo_lookup ''https://doh.test/dns-query'' ''x'') = Some ''doh.test'' \<and>
   (\<exists>p ip. url_Parse (upstream (fst (NewDoHClient demo_lookup ''https://doh.test/dns-query'' ''x''))) = Some p \<and>
      ParseIP (Hostname p) = Some ip \<and> To4 ip = Some [1, 2, 3, 4] \<and> Port p = ''443'' \<and> Path p = ''/dns-query'')"
proof -
  let ?u = "''https://doh.test/dns-query''"
  have l: "demo_lookup ''doh.test'' = Some [[1, 2, 3, 4]]" "List.map_filter To4 [[1, 2, 3, 4]] = [[1, 2, 3, 4]]"
    by (simp_all add: demo_lookup_def)
  obtain c sn where c: "NewDoHClient demo_lookup ?u ''x'' = (c, sn)" by fastforce
  from doh_client_dials_address [OF demo_upstream(3) demo_url, unfolded demo_hostname, OF _ _ l(1) l(2) c] c
  show ?thesis by auto
qed

text \<open>
  C6: The engine does not disturb its own DNS traffic: with an engine built from a configuration
  and its maps pushed, no fake is ever sent to an IPv4 address one of its DNS-over-HTTPS clients
  connects to, in any reachable state, whether the client was given an address or still has a
  name.  It holds under two conditions: the upstream URLs are plain, and neither the lookup that
  gives a client its address nor a later one while it connects finds an address that the lookup
  for the list of addresses to leave alone did not find (with rotating answers it may, and then
  the client's traffic is not left alone).
\<close>

theorem doh_upstreams_untouched:
  fixes cfg lookup1 lookup2
  defines "eng \<equiv> newPlatformEngine lookup1 lookup2 cfg"
  assumes "lookups_agree lookup1 lookup2" and "lookups_agree lookup1 lookup3"
    and "list_all (plain \<circ> upstream_url) (Split CHR '','' (DoHUpstream cfg))"
    and "lru_insert_spec lru" and "update_any_spec upd_c" and "update_any_spec upd_p" and "update_any_spec upd_x"
    and "has ''exclude_ips''"
    and "target_ports maps = Map.empty" and "exclude_ips maps = Map.empty" and "connections maps' = Map.empty"
    and "push_maps has upd_c upd_p upd_x (mgr_config eng) maps = (maps', None)"
    and "reaches lru upd_c (mgr_config eng) (boot maps') evs s"
    and "c \<in> set (clients (resolver eng))" and "ip \<in> set (dialled lookup3 c)" and "To4 ip = Some q"
  shows "Sendto pkt q \<notin> set (sent s)"
  using sent_addresses [OF assms(5-14)] client_address_excluded [OF assms(2,3,15-17) [unfolded eng_def]]
  unfolding eng_def by blast

theorem doh_upstreams_untouched_witness:
  "\<exists>s pkt. reaches demo_lru demo_update demo_cfg (boot demo_pushed) [Callback demo_established, Read []] s \<and>
     Sendto pkt (le32 0x22D8B85D) \<in> set (sent s) \<and> (\<forall>pkt. Sendto pkt [1, 2, 3, 4] \<notin> set (sent s))"
proof -
  let ?e = "newPlatformEngine demo_lookup demo_lookup demo_Config"
  obtain s pkt where r: "reaches demo_lru demo_update demo_cfg (boot demo_pushed) [Callback demo_established, Read []] s"
    and p: "Sendto pkt (le32 0x22D8B85D) \<in> set (sent s)"
    using demo_reach by blast
  let ?c = "fst (NewDoHClient demo_lookup ''https://doh.test/dns-query'' ''https://doh.test/dns-query'')"
  have c: "?c \<in> set (clients (resolver ?e))"
    by (simp add: newPlatformEngine_def demo_Config_def DefaultConfig_def clients_NewResolver demo_upstream demo_client Let_def)
  have u: "upstream ?c = ''https://1.2.3.4:443/dns-query''"
    by code_simp
  have w: "url_Parse ''https://1.2.3.4:443/dns-query'' =
      Some \<lparr>Scheme = ''https'', Opaque = '''', Host = ''1.2.3.4:443'', Path = ''/dns-query''\<rparr>"
    "ParseIP (Hostname \<lparr>Scheme = ''https'', Opaque = '''', Host = ''1.2.3.4:443'', Path = ''/dns-query''\<rparr>) =
      Some (v4_in_v6_prefix @ [1, 2, 3, 4])" "To4 (v4_in_v6_prefix @ [1, 2, 3, 4]) = Some [1, 2, 3, 4]"
    by code_simp+
  have d: "v4_in_v6_prefix @ [1, 2, 3, 4] \<in> set (dialled demo_lookup ?c)"
    unfolding dialled_def u w(1) by (simp only: option.case Let_def w(2)) simp
  have m: "target_ports demo_maps = Map.empty" "exclude_ips demo_maps = Map.empty" "connections demo_pushed = Map.empty"
    by (simp_all add: demo_maps_def demo_pushed_def)
  have pl: "list_all (plain \<circ> upstream_url) (Split CHR '','' (DoHUpstream demo_Config))"
    by (simp add: demo_Config_def demo_upstream)
  have "Sendto pkt [1, 2, 3, 4] \<notin> set (sent s)" for pkt
    by (rule doh_upstreams_untouched [where has = "\<lambda>_. True", OF demo_lookups demo_lookups pl demo_lru_spec demo_update_spec
          demo_update_spec demo_update_spec TrueI m demo_push [folded demo_mgr_config] r [folded demo_mgr_config] c
          d w(3)])
  with r p show ?thesis by blast
qed

text \<open>
  The three places that know the defaults agree: the settings of a run without options are
  the default configuration, and a configuration of zero values gives the manager and the
  resolver the default one gives.  Port numbers of any size are taken modulo \<open>2 ^ 16\<close>.
\<close>

theorem defaults_agree:
  "run_config run_flags = DefaultConfig \<and>
   newPlatformEngine lookup1 lookup2 \<lparr>MSS = 0, RestoreMSS = 0, RestoreAfterBytes = 0, Ports = [], Interface = '''',
     CgroupPath = '''', FakeTTL = 0, DoHEnabled = True, DoHUpstream = ''''\<rparr> = newPlatformEngine lookup1 lookup2 DefaultConfig \<and>
   (p \<in> set (Ports (run_config s)) \<longleftrightarrow> uint p \<in> (\<lambda>v. v mod 65536) ` set (s_ports s))"
proof -
  have "p = word_of_int v \<longleftrightarrow> uint p = v mod 65536" for v
    by (simp add: word_uint_eq_iff uint_word_of_int)
  then have "p \<in> set (Ports (run_config s)) \<longleftrightarrow> uint p \<in> (\<lambda>v. v mod 65536) ` set (s_ports s)"
    by (auto simp: run_config_def toUint16Slice_def image_iff)
  then show ?thesis
    by (simp add: run_config_def run_flags_def DefaultConfig_def toUint16Slice_def newPlatformEngine_def NewManager_def)
qed

end
