(* ===== verification/Shutdown.thy ===== *)
theory Shutdown
  imports Ebpf_Lifecycle
begin

text \<open>
  The goroutines of the Linux engine against its \<open>Stop\<close>: the event loop \<open>readEvents\<close> and
  \<open>Stop\<close> of \<open>src/pkg/ebpf/manager.go\<close>, whose steps interleave in any order while the kernel
  program goes on producing samples until it is detached; and the start of the DNS server,
  which waits on a channel for the goroutine that serves (\<open>src/pkg/dns/server.go\<close>).
\<close>

section \<open>Stopping the manager\<close>

text \<open>Where the two threads are: \<open>Stop\<close> before each of its calls, the loop in \<open>Read\<close> or in \<open>injectFake\<close>.\<close>

datatype stop_pc = BeforeCancel | BeforeCloseReader | BeforeWait | BeforeCloseRaw | BeforeCloseLink | BeforeCloseColl | Returned

datatype loop_pc = InRead | InInject bytes | LoopDone

record shutdown =
  stop_at :: stop_pc
  loop_at :: loop_pc
  samples :: "bytes list"
  open_res :: "resource set"
  transmitted :: "transmission list"

datatype shutdown_event =
    Arrive bytes | ReadSample | ReadFails | ReadFault | Inject
  | Cancel | CloseReader | Waited | CloseRaw | CloseLink | CloseColl

definition advance :: "stop_pc \<Rightarrow> resource set \<Rightarrow> shutdown \<Rightarrow> shutdown" where
  "advance p closed s = s\<lparr>stop_at := p, open_res := open_res s - closed\<rparr>"

text \<open>
  The program writes samples while it is attached.  While the reader is open, \<open>Read\<close> waits until
  there is a sample, or fails by a fault of the system; once \<open>Stop\<close> has closed the reader, it
  fails.  Either failure ends the loop.  \<open>wg.Wait\<close> returns when the loop is done.
\<close>

inductive shutdown_step :: "config \<Rightarrow> shutdown \<Rightarrow> shutdown_event \<Rightarrow> shutdown \<Rightarrow> bool" for cfg where
  arrive: "CgroupLink \<in> open_res s \<Longrightarrow> shutdown_step cfg s (Arrive x) (s\<lparr>samples := samples s @ [x]\<rparr>)"
| read_sample: "loop_at s = InRead \<Longrightarrow> PerfReader \<in> open_res s \<Longrightarrow> samples s = x # xs \<Longrightarrow>
    shutdown_step cfg s ReadSample (s\<lparr>samples := xs, loop_at := (if length x < 20 then InRead else InInject x)\<rparr>)"
| read_fails: "loop_at s = InRead \<Longrightarrow> PerfReader \<notin> open_res s \<Longrightarrow>
    shutdown_step cfg s ReadFails (s\<lparr>loop_at := LoopDone, open_res := open_res s - {ReadEvents}\<rparr>)"
| read_fault: "loop_at s = InRead \<Longrightarrow> PerfReader \<in> open_res s \<Longrightarrow>
    shutdown_step cfg s ReadFault (s\<lparr>loop_at := LoopDone, open_res := open_res s - {ReadEvents}\<rparr>)"
| inject: "loop_at s = InInject x \<Longrightarrow> handle_sample cfg x = Some t \<Longrightarrow>
    shutdown_step cfg s Inject (s\<lparr>loop_at := InRead, transmitted := transmitted s @ [t]\<rparr>)"
| cancel: "stop_at s = BeforeCancel \<Longrightarrow> shutdown_step cfg s Cancel (advance BeforeCloseReader {} s)"
| close_reader: "stop_at s = BeforeCloseReader \<Longrightarrow> shutdown_step cfg s CloseReader (advance BeforeWait {PerfReader} s)"
| waited: "stop_at s = BeforeWait \<Longrightarrow> loop_at s = LoopDone \<Longrightarrow> shutdown_step cfg s Waited (advance BeforeCloseRaw {} s)"
| close_raw: "stop_at s = BeforeCloseRaw \<Longrightarrow> shutdown_step cfg s CloseRaw (advance BeforeCloseLink {RawSock} s)"
| close_link: "stop_at s = BeforeCloseLink \<Longrightarrow> shutdown_step cfg s CloseLink (advance BeforeCloseColl {CgroupLink} s)"
| close_coll: "stop_at s = BeforeCloseColl \<Longrightarrow> shutdown_step cfg s CloseColl (advance Returned {Collection} s)"

inductive shutdown_run :: "config \<Rightarrow> shutdown \<Rightarrow> shutdown_event list \<Rightarrow> shutdown \<Rightarrow> bool" for cfg where
  none: "shutdown_run cfg s [] s"
| more: "shutdown_run cfg s es s' \<Longrightarrow> shutdown_step cfg s' e s'' \<Longrightarrow> shutdown_run cfg s (es @ [e]) s''"

inductive_cases InjectE: "shutdown_step cfg s Inject s'"

text \<open>A running engine at the call of \<open>Stop\<close>, with whatever samples are waiting.\<close>

definition running_engine :: "bytes list \<Rightarrow> shutdown" where
  "running_engine xs = \<lparr>stop_at = BeforeCancel, loop_at = InRead, samples = xs,
     open_res = {Collection, CgroupLink, PerfReader, RawSock, ReadEvents}, transmitted = []\<rparr>"

lemma advance_sel [simp]:
  "stop_at (advance p c s) = p" "loop_at (advance p c s) = loop_at s" "samples (advance p c s) = samples s"
  "open_res (advance p c s) = open_res s - c" "transmitted (advance p c s) = transmitted s"
  by (simp_all add: advance_def)

text \<open>What is open at each point of \<open>Stop\<close>; past the wait, the loop is done.\<close>

fun open_at :: "stop_pc \<Rightarrow> resource set" where
  "open_at BeforeCancel = {Collection, CgroupLink, PerfReader, RawSock}"
| "open_at BeforeCloseReader = {Collection, CgroupLink, PerfReader, RawSock}"
| "open_at BeforeWait = {Collection, CgroupLink, RawSock}"
| "open_at BeforeCloseRaw = {Collection, CgroupLink, RawSock}"
| "open_at BeforeCloseLink = {Collection, CgroupLink}"
| "open_at BeforeCloseColl = {Collection}"
| "open_at Returned = {}"

fun past_wait :: "stop_pc \<Rightarrow> bool" where
  "past_wait BeforeCloseRaw = True"
| "past_wait BeforeCloseLink = True"
| "past_wait BeforeCloseColl = True"
| "past_wait Returned = True"
| "past_wait _ = False"

definition shutdown_inv :: "config \<Rightarrow> shutdown \<Rightarrow> bool" where
  "shutdown_inv cfg s \<longleftrightarrow>
     open_res s - {ReadEvents} = open_at (stop_at s) \<and> (ReadEvents \<in> open_res s \<longleftrightarrow> loop_at s \<noteq> LoopDone) \<and>
     (past_wait (stop_at s) \<longrightarrow> loop_at s = LoopDone) \<and>
     (\<forall>x. loop_at s = InInject x \<longrightarrow> handle_sample cfg x \<noteq> None)"

lemma handle_sample_long: "20 \<le> length x \<Longrightarrow> handle_sample cfg x \<noteq> None"
  by (simp add: handle_sample_def read_event_def)

lemma shutdown_step_inv: "shutdown_step cfg s e s' \<Longrightarrow> shutdown_inv cfg s \<Longrightarrow> shutdown_inv cfg s'"
proof (induction rule: shutdown_step.induct)
  case (read_sample s x xs)
  then show ?case using handle_sample_long [of x cfg] by (auto simp: shutdown_inv_def)
qed (auto simp: shutdown_inv_def)

lemma shutdown_run_inv: "shutdown_run cfg s es s' \<Longrightarrow> shutdown_inv cfg s \<Longrightarrow> shutdown_inv cfg s'"
  by (induction rule: shutdown_run.induct) (auto intro: shutdown_step_inv)

lemma running_engine_inv: "shutdown_inv cfg (running_engine xs)"
  by (auto simp: shutdown_inv_def running_engine_def)

text \<open>Once the reader is closed every step but an arrival brings the end nearer.\<close>

fun stop_rank :: "stop_pc \<Rightarrow> nat" where
  "stop_rank BeforeCancel = 6"
| "stop_rank BeforeCloseReader = 5"
| "stop_rank BeforeWait = 4"
| "stop_rank BeforeCloseRaw = 3"
| "stop_rank BeforeCloseLink = 2"
| "stop_rank BeforeCloseColl = 1"
| "stop_rank Returned = 0"

fun loop_rank :: "loop_pc \<Rightarrow> nat" where
  "loop_rank (InInject _) = 2"
| "loop_rank InRead = 1"
| "loop_rank LoopDone = 0"

definition shutdown_rank :: "shutdown \<Rightarrow> nat" where
  "shutdown_rank s = stop_rank (stop_at s) + loop_rank (loop_at s)"

fun is_arrival :: "shutdown_event \<Rightarrow> bool" where
  "is_arrival (Arrive _) = True"
| "is_arrival _ = False"

text \<open>The steps the engine takes by itself: no sample of the kernel, no fault of the system.\<close>

fun by_engine :: "shutdown_event \<Rightarrow> bool" where
  "by_engine (Arrive _) = False"
| "by_engine ReadFault = False"
| "by_engine _ = True"

lemma shutdown_step_rank:
  "shutdown_step cfg s e s' \<Longrightarrow> PerfReader \<notin> open_res s \<Longrightarrow>
    PerfReader \<notin> open_res s' \<and> shutdown_rank s' + (if is_arrival e then 0 else 1) \<le> shutdown_rank s"
  by (induction rule: shutdown_step.induct) (auto simp: shutdown_rank_def)

lemma shutdown_run_rank:
  "shutdown_run cfg s es s' \<Longrightarrow> PerfReader \<notin> open_res s \<Longrightarrow>
    PerfReader \<notin> open_res s' \<and> shutdown_rank s' + length (filter (\<lambda>e. \<not> is_arrival e) es) \<le> shutdown_rank s"
proof (induction rule: shutdown_run.induct)
  case (more s es s' e s'')
  with shutdown_step_rank [OF more(2)] show ?case by (auto split: if_splits)
qed simp

text \<open>While the reader is open \<open>Stop\<close> waits for nothing.\<close>

lemma shutdown_first_calls:
  assumes "shutdown_inv cfg s" and "PerfReader \<in> open_res s"
  shows "\<exists>e\<in>{Cancel, CloseReader}. \<exists>s'. shutdown_step cfg s e s'"
proof -
  have "PerfReader \<in> open_at (stop_at s)" using assms by (auto simp: shutdown_inv_def)
  then have "stop_at s = BeforeCancel \<or> stop_at s = BeforeCloseReader" by (cases "stop_at s") auto
  then show ?thesis by (auto intro: shutdown_step.intros)
qed

lemma shutdown_progress:
  assumes "shutdown_inv cfg s" and "stop_at s \<noteq> Returned"
  shows "\<exists>e s'. by_engine e \<and> shutdown_step cfg s e s'"
proof (cases "stop_at s")
  case BeforeWait
  then have closed: "PerfReader \<notin> open_res s" using assms(1) by (auto simp: shutdown_inv_def)
  show ?thesis
  proof (cases "loop_at s")
    case (InInject x)
    then obtain t where "handle_sample cfg x = Some t" using assms(1) by (auto simp: shutdown_inv_def)
    with InInject show ?thesis by (intro exI [of _ Inject]) (auto intro: inject)
  next
    case InRead
    with closed show ?thesis by (intro exI [of _ ReadFails]) (auto intro: read_fails)
  next
    case LoopDone
    with BeforeWait show ?thesis by (intro exI [of _ Waited]) (auto intro: waited)
  qed
next
  case BeforeCancel
  then show ?thesis by (intro exI [of _ Cancel]) (auto intro: cancel)
next
  case BeforeCloseReader
  then show ?thesis by (intro exI [of _ CloseReader]) (auto intro: close_reader)
next
  case BeforeCloseRaw
  then show ?thesis by (intro exI [of _ CloseRaw]) (auto intro: close_raw)
next
  case BeforeCloseLink
  then show ?thesis by (intro exI [of _ CloseLink]) (auto intro: close_link)
next
  case BeforeCloseColl
  then show ?thesis by (intro exI [of _ CloseColl]) (auto intro: close_coll)
qed (use assms in simp)

section \<open>Starting the DNS server\<close>

text \<open>
  The goroutine binds the address (\<open>ListenAndServe\<close>), notifies that it has started, serves, and
  on an error sends that error unless the channel is full (\<open>select\<close> with a default).
  \<open>Start\<close> receives one value from the channel, which holds one.
\<close>

datatype serve_pc = Binding | Notifying | Serving | Failing | ServeDone

record dns_start =
  serve_at :: serve_pc
  channel :: "bool list"          \<comment> \<open>True for nil, False for an error\<close>
  returned :: "bool option"       \<comment> \<open>what \<open>Start\<close> has returned: success or an error\<close>
  bound :: bool

definition dns_initial :: dns_start where
  "dns_initial = \<lparr>serve_at = Binding, channel = [], returned = None, bound = False\<rparr>"

inductive dns_start_step :: "dns_start \<Rightarrow> dns_start \<Rightarrow> bool" where
  bind: "serve_at s = Binding \<Longrightarrow> dns_start_step s (s\<lparr>serve_at := Notifying, bound := True\<rparr>)"
| bind_fails: "serve_at s = Binding \<Longrightarrow> dns_start_step s (s\<lparr>serve_at := Failing\<rparr>)"
| notify: "serve_at s = Notifying \<Longrightarrow> length (channel s) < 1 \<Longrightarrow>
    dns_start_step s (s\<lparr>serve_at := Serving, channel := channel s @ [True]\<rparr>)"
| serve_fails: "serve_at s = Serving \<Longrightarrow> dns_start_step s (s\<lparr>serve_at := Failing\<rparr>)"
| shut_down: "serve_at s = Serving \<Longrightarrow> dns_start_step s (s\<lparr>serve_at := ServeDone\<rparr>)"
| send_error: "serve_at s = Failing \<Longrightarrow>
    dns_start_step s (s\<lparr>serve_at := ServeDone,
      channel := (if length (channel s) < 1 then channel s @ [False] else channel s)\<rparr>)"
| receive: "returned s = None \<Longrightarrow> channel s = v # vs \<Longrightarrow>
    dns_start_step s (s\<lparr>channel := vs, returned := Some v\<rparr>)"

inductive dns_start_run :: "dns_start \<Rightarrow> nat \<Rightarrow> dns_start \<Rightarrow> bool" where
  none: "dns_start_run s 0 s"
| more: "dns_start_run s n s' \<Longrightarrow> dns_start_step s' s'' \<Longrightarrow> dns_start_run s (Suc n) s''"

fun serve_rank :: "serve_pc \<Rightarrow> nat" where
  "serve_rank Binding = 4"
| "serve_rank Notifying = 3"
| "serve_rank Serving = 2"
| "serve_rank Failing = 1"
| "serve_rank ServeDone = 0"

definition start_rank :: "dns_start \<Rightarrow> nat" where
  "start_rank s = serve_rank (serve_at s) + (if returned s = None then 1 else 0)"

definition start_inv :: "dns_start \<Rightarrow> bool" where
  "start_inv s \<longleftrightarrow>
     (serve_at s = Binding \<longrightarrow> channel s = [] \<and> returned s = None \<and> \<not> bound s) \<and>
     (serve_at s = Notifying \<longrightarrow> channel s = [] \<and> returned s = None \<and> bound s) \<and>
     (serve_at s = Serving \<longrightarrow> bound s) \<and>
     (serve_at s = Failing \<and> \<not> bound s \<longrightarrow> channel s = [] \<and> returned s = None) \<and>
     (bound s \<and> serve_at s \<noteq> Notifying \<longrightarrow> returned s = None \<and> channel s = [True] \<or> returned s = Some True) \<and>
     (\<not> bound s \<and> serve_at s = ServeDone \<longrightarrow> channel s = [False] \<and> returned s = None \<or> returned s = Some False)"

lemma dns_start_step_inv: "dns_start_step s s' \<Longrightarrow> start_inv s \<Longrightarrow> start_inv s' \<and> start_rank s' < start_rank s"
  by (induction rule: dns_start_step.induct) (auto simp: start_inv_def start_rank_def)

lemma dns_start_run_inv: "dns_start_run s n s' \<Longrightarrow> start_inv s \<Longrightarrow> start_inv s' \<and> start_rank s' + n \<le> start_rank s"
  by (induction rule: dns_start_run.induct) (auto dest: dns_start_step_inv)

lemma dns_start_progress:
  assumes "start_inv s" and "returned s = None"
  shows "\<exists>s'. dns_start_step s s'"
proof (cases "serve_at s")
  case Binding
  then show ?thesis by (auto intro: bind)
next
  case Notifying
  with assms show ?thesis by (auto simp: start_inv_def intro: notify)
next
  case Serving
  then show ?thesis by (auto intro: serve_fails)
next
  case Failing
  then show ?thesis by (auto intro: send_error)
next
  case ServeDone
  with assms have "channel s \<noteq> []" by (cases "bound s") (auto simp: start_inv_def)
  with assms(2) show ?thesis by (cases "channel s") (auto intro: receive)
qed

section \<open>Properties\<close>

text \<open>
  C9: Under every interleaving of the event loop, the kernel program and \<open>Stop\<close>, a fake is
  only ever sent on an open raw socket: \<open>Stop\<close> closes the socket after the loop has ended.
  Once \<open>Stop\<close> has returned, nothing is open, the loop is gone and no step is left.
\<close>

theorem no_send_after_close:
  assumes "shutdown_run cfg (running_engine xs) es s"
  shows "(shutdown_step cfg s Inject s' \<longrightarrow> RawSock \<in> open_res s) \<and>
    (stop_at s = Returned \<longrightarrow> open_res s = {} \<and> loop_at s = LoopDone \<and> \<not> shutdown_step cfg s e s'')"
proof -
  have i: "shutdown_inv cfg s" using shutdown_run_inv [OF assms running_engine_inv] .
  have "RawSock \<in> open_res s" if inj: "shutdown_step cfg s Inject s'"
  proof -
    obtain x where "loop_at s = InInject x" using inj by (elim InjectE)
    with i have "\<not> past_wait (stop_at s)" by (auto simp: shutdown_inv_def)
    then have "RawSock \<in> open_at (stop_at s)" by (cases "stop_at s") auto
    with i show ?thesis by (auto simp: shutdown_inv_def)
  qed
  moreover have "open_res s = {} \<and> loop_at s = LoopDone \<and> \<not> shutdown_step cfg s e s''" if "stop_at s = Returned"
  proof -
    have o: "open_res s = {}" "loop_at s = LoopDone" using that i by (auto simp: shutdown_inv_def)
    have "\<not> shutdown_step cfg s e s''"
      by (rule notI, erule shutdown_step.cases) (use that o in auto)
    with o show ?thesis by simp
  qed
  ultimately show ?thesis by blast
qed

text \<open>
  C24: \<open>Stop\<close> always returns, although the loop may be waiting in \<open>Read\<close> for a sample that never
  comes.  At every point of every run from the call of \<open>Stop\<close> on: while the reader is open,
  \<open>Stop\<close> can make its next call, which waits for nothing and closes the reader in the end;
  from then on at most six steps of the two threads are left, however many samples the program
  still writes and wherever the loop was; and until \<open>Stop\<close> has returned and released everything
  a step of the engine itself is possible, without a new sample and without a fault of the system.
\<close>

theorem Stop_returns:
  assumes "shutdown_run cfg (running_engine xs) es s" and "shutdown_run cfg s es' s'"
  shows "(PerfReader \<in> open_res s' \<longrightarrow> (\<exists>e\<in>{Cancel, CloseReader}. \<exists>s''. shutdown_step cfg s' e s'')) \<and>
    (PerfReader \<notin> open_res s \<longrightarrow> length (filter (\<lambda>e. \<not> is_arrival e) es') \<le> 6) \<and>
    (stop_at s' = Returned \<and> open_res s' = {} \<or> (\<exists>e s''. by_engine e \<and> shutdown_step cfg s' e s''))"
proof (intro conjI impI)
  have i: "shutdown_inv cfg s" using shutdown_run_inv [OF assms(1) running_engine_inv] .
  have i': "shutdown_inv cfg s'" using shutdown_run_inv [OF assms(2) i] .
  show "\<exists>e\<in>{Cancel, CloseReader}. \<exists>s''. shutdown_step cfg s' e s''" if "PerfReader \<in> open_res s'"
    using shutdown_first_calls [OF i' that] .
  show "stop_at s' = Returned \<and> open_res s' = {} \<or> (\<exists>e s''. by_engine e \<and> shutdown_step cfg s' e s'')"
    using shutdown_progress [OF i'] i' by (cases "stop_at s' = Returned") (auto simp: shutdown_inv_def)
  show "length (filter (\<lambda>e. \<not> is_arrival e) es') \<le> 6" if closed: "PerfReader \<notin> open_res s"
  proof -
    have "PerfReader \<notin> open_at (stop_at s)" using i closed by (auto simp: shutdown_inv_def)
    then have "stop_rank (stop_at s) \<le> 4" by (cases "stop_at s") auto
    moreover have "loop_rank (loop_at s) \<le> 2" by (cases "loop_at s") auto
    ultimately show ?thesis using shutdown_run_rank [OF assms(2) closed] by (auto simp: shutdown_rank_def)
  qed
qed

text \<open>A stop while the loop is sending a fake.\<close>

definition demo_sample :: bytes where
  "demo_sample = replicate 20 1"

lemma demo_shutdown:
  "\<exists>s s1 s'. shutdown_run demo_cfg (running_engine [demo_sample]) [ReadSample, Cancel, CloseReader] s \<and>
     PerfReader \<notin> open_res s \<and> shutdown_step demo_cfg s Inject s1 \<and>
     shutdown_run demo_cfg s [Inject, ReadFails, Waited, CloseRaw, CloseLink, CloseColl] s' \<and> stop_at s' = Returned"
proof -
  obtain t where t: "handle_sample demo_cfg demo_sample = Some t"
    using handle_sample_long [of demo_sample demo_cfg] by (auto simp: demo_sample_def)
  have l: "\<not> length demo_sample < 20" by (simp add: demo_sample_def)
  let ?s1 = "(running_engine [demo_sample])\<lparr>samples := [], loop_at := InInject demo_sample\<rparr>"
  let ?s = "advance BeforeWait {PerfReader} (advance BeforeCloseReader {} ?s1)"
  have "shutdown_step demo_cfg (running_engine [demo_sample]) ReadSample ?s1"
    using read_sample [of "running_engine [demo_sample]" demo_sample "[]" demo_cfg] l by (simp add: running_engine_def)
  then have r: "shutdown_run demo_cfg (running_engine [demo_sample]) ([] @ [ReadSample] @ [Cancel] @ [CloseReader]) ?s"
    unfolding append_assoc [symmetric]
    by (intro shutdown_run.more [OF shutdown_run.more [OF shutdown_run.more [OF shutdown_run.none]]])
       (auto simp: running_engine_def intro: cancel close_reader)
  let ?i = "?s\<lparr>loop_at := InRead, transmitted := transmitted ?s @ [t]\<rparr>"
  let ?d = "?i\<lparr>loop_at := LoopDone, open_res := open_res ?i - {ReadEvents}\<rparr>"
  have i: "shutdown_step demo_cfg ?s Inject ?i" by (rule inject [OF _ t]) simp
  have d: "shutdown_step demo_cfg ?i ReadFails ?d" by (rule read_fails) simp_all
  let ?e = "advance Returned {Collection} (advance BeforeCloseColl {CgroupLink} (advance BeforeCloseLink {RawSock} (advance BeforeCloseRaw {} ?d)))"
  have "shutdown_run demo_cfg ?s ([] @ [Inject] @ [ReadFails] @ [Waited] @ [CloseRaw] @ [CloseLink] @ [CloseColl]) ?e"
    unfolding append_assoc [symmetric]
    by (intro shutdown_run.more [OF shutdown_run.more [OF shutdown_run.more [OF shutdown_run.more
          [OF shutdown_run.more [OF shutdown_run.more [OF shutdown_run.none i] d]]]]])
       (auto intro: waited close_raw close_link close_coll)
  with r i show ?thesis by (intro exI [of _ ?s] exI [of _ ?i] exI [of _ ?e]) simp
qed

theorem no_send_after_close_witness:
  "\<exists>s s1. shutdown_run demo_cfg (running_engine [demo_sample]) [ReadSample, Cancel, CloseReader] s \<and>
     shutdown_step demo_cfg s Inject s1 \<and> RawSock \<in> open_res s"
  using demo_shutdown no_send_after_close by blast

theorem Stop_returns_witness:
  "\<exists>s s'. shutdown_run demo_cfg (running_engine [demo_sample]) [ReadSample, Cancel, CloseReader] s \<and>
     shutdown_run demo_cfg s [Inject, ReadFails, Waited, CloseRaw, CloseLink, CloseColl] s' \<and>
     stop_at s' = Returned \<and> length [Inject, ReadFails, Waited, CloseRaw, CloseLink, CloseColl] \<le> (6 :: nat)"
proof -
  obtain s s' where r: "shutdown_run demo_cfg (running_engine [demo_sample]) [ReadSample, Cancel, CloseReader] s"
    "PerfReader \<notin> open_res s" "shutdown_run demo_cfg s [Inject, ReadFails, Waited, CloseRaw, CloseLink, CloseColl] s'"
    "stop_at s' = Returned" using demo_shutdown by blast
  from Stop_returns [OF r(1,3)] r show ?thesis by auto
qed

text \<open>
  Starting the DNS server never hangs and never lies: its goroutine and \<open>Start\<close> take at most
  five steps, \<open>Start\<close> can only be left waiting while a step remains, and when it returns, it
  returns success exactly if the address was bound, so the system's resolver is pointed at
  127.0.0.1 only when something listens there.
\<close>

theorem dns_start_reports_bound:
  assumes "dns_start_run dns_initial n s"
  shows "n \<le> 5 \<and> ((\<exists>s'. dns_start_step s s') \<or> returned s \<noteq> None) \<and> (\<forall>v. returned s = Some v \<longrightarrow> v = bound s)"
proof -
  have "start_inv dns_initial" "start_rank dns_initial = 5"
    by (simp_all add: start_inv_def start_rank_def dns_initial_def)
  with dns_start_run_inv [OF assms] have i: "start_inv s" "n \<le> 5" by auto
  have "v = bound s" if "returned s = Some v" for v
    using i(1) that by (cases "serve_at s"; cases "bound s") (auto simp: start_inv_def)
  with i dns_start_progress [OF i(1)] show ?thesis by blast
qed

theorem dns_start_reports_bound_witness:
  "\<exists>s. dns_start_run dns_initial 3 s \<and> returned s = Some True \<and> bound s"
proof -
  let ?s1 = "dns_initial\<lparr>serve_at := Notifying, bound := True\<rparr>"
  let ?s2 = "?s1\<lparr>serve_at := Serving, channel := channel ?s1 @ [True]\<rparr>"
  let ?s3 = "?s2\<lparr>channel := [], returned := Some True\<rparr>"
  have "dns_start_step dns_initial ?s1" by (rule bind) (simp add: dns_initial_def)
  moreover have "dns_start_step ?s1 ?s2" by (rule notify) (simp_all add: dns_initial_def)
  moreover have "dns_start_step ?s2 ?s3" by (rule receive) (simp_all add: dns_initial_def)
  ultimately have "dns_start_run dns_initial (Suc (Suc (Suc 0))) ?s3"
    by (intro dns_start_run.more [OF dns_start_run.more [OF dns_start_run.more [OF dns_start_run.none]]])
  then have r: "dns_start_run dns_initial 3 ?s3" by (simp add: numeral_3_eq_3)
  from dns_start_reports_bound [OF r] r show ?thesis by auto
qed

end
