(* ===== verification/Tun_Manager.thy ===== *)
theory Tun_Manager
  imports Main
begin

text \<open>
  Start and stop of the TUN engine of macOS and Windows (\<open>src/pkg/tun/manager.go\<close>): which
  resources each path opens and closes.  The manager's pointers are flags; what is open is a
  set; the outcome of every call that can fail is given by an environment.
\<close>

section \<open>Starting and stopping\<close>

datatype tun_resource =
    RawSocket | SeqTracker | NetworkMonitor | InterfaceMonitor | TunDevice | Stack

record tun_manager =
  tm_tunDevice :: bool
  tm_stack :: bool
  tm_rawSock :: bool
  tm_networkMonitor :: bool
  tm_ifaceMonitor :: bool
  tm_interface :: string

datatype tun_error =
    NoInterface | TunRawSocketError | NetworkMonitorError | InterfaceMonitorError
  | StartNetworkMonitor | StartInterfaceMonitor | CreateTun | CreateStack | StartTun | StartStack

record tun_env =
  physicalInterface :: string      \<comment> \<open>what \<open>detectPhysicalInterface\<close> returns\<close>
  tun_rawsock_ok :: bool
  seqtracker_ok :: bool
  netmon_ok :: bool
  ifacemon_ok :: bool
  netmon_start_ok :: bool
  ifacemon_start_ok :: bool
  tun_ok :: bool
  stack_ok :: bool
  tun_start_ok :: bool
  stack_start_ok :: bool

type_synonym tun_state = "tun_manager \<times> tun_resource set"

definition fresh_tun_manager :: "string \<Rightarrow> tun_manager" where
  "fresh_tun_manager iface = \<lparr>tm_tunDevice = False, tm_stack = False, tm_rawSock = False,
     tm_networkMonitor = False, tm_ifaceMonitor = False, tm_interface = iface\<rparr>"

text \<open>A failure of the tracker is logged and ignored by \<open>Start\<close>.\<close>

definition startSeqTracker :: "tun_env \<Rightarrow> tun_state \<Rightarrow> tun_state" where
  "startSeqTracker env = (\<lambda>(m, opn).
     let iface = (if tm_interface m = [] then physicalInterface env else tm_interface m) in
     if iface = [] then (m, opn)
     else if \<not> seqtracker_ok env then (m, opn)
     else (m, insert SeqTracker opn))"

text \<open>The monitors' constructors return nil with an error; the fields get what they return.\<close>

definition initNetworking :: "tun_env \<Rightarrow> tun_state \<Rightarrow> tun_error option \<times> tun_state" where
  "initNetworking env = (\<lambda>(m, opn).
     let m = m\<lparr>tm_networkMonitor := netmon_ok env\<rparr> in
     if \<not> netmon_ok env then (Some NetworkMonitorError, m, opn)
     else
       let m = m\<lparr>tm_ifaceMonitor := ifacemon_ok env\<rparr> in
       if \<not> ifacemon_ok env then (Some InterfaceMonitorError, m, opn)
       else if \<not> netmon_start_ok env then (Some StartNetworkMonitor, m, opn)
       else
         let opn = insert NetworkMonitor opn in
         if \<not> ifacemon_start_ok env then (Some StartInterfaceMonitor, m, opn - {NetworkMonitor})
         else (None, m, insert InterfaceMonitor opn))"

definition tun_Start :: "tun_env \<Rightarrow> tun_state \<Rightarrow> tun_error option \<times> tun_state" where
  "tun_Start env = (\<lambda>(m, opn).
     let m = (if tm_interface m = [] then m\<lparr>tm_interface := physicalInterface env\<rparr> else m) in
     if tm_interface m = [] then (Some NoInterface, m, opn)
     else if \<not> tun_rawsock_ok env then (Some TunRawSocketError, m, opn)
     else
       let m = m\<lparr>tm_rawSock := True\<rparr>; opn = insert RawSocket opn;
           (m, opn) = startSeqTracker env (m, opn) in
       (case initNetworking env (m, opn) of
          (Some e, m, opn) \<Rightarrow> (Some e, m, opn - {RawSocket})
        | (None, m, opn) \<Rightarrow>
            if \<not> tun_ok env then (Some CreateTun, m, opn - {RawSocket})
            else
              let m = m\<lparr>tm_tunDevice := True\<rparr>; opn = insert TunDevice opn in
              if \<not> stack_ok env then (Some CreateStack, m, opn - {TunDevice} - {RawSocket})
              else
                let m = m\<lparr>tm_stack := True\<rparr>; opn = insert Stack opn in
                if \<not> tun_start_ok env then (Some StartTun, m, opn - {Stack} - {TunDevice} - {RawSocket})
                else if \<not> stack_start_ok env then (Some StartStack, m, opn - {TunDevice} - {RawSocket})
                else (None, m, opn)))"

definition tun_Stop :: "tun_state \<Rightarrow> tun_resource set" where
  "tun_Stop = (\<lambda>(m, opn).
     let opn = (if tm_stack m then opn - {Stack} else opn);
         opn = (if tm_tunDevice m then opn - {TunDevice} else opn);
         opn = (if tm_rawSock m then opn - {RawSocket} else opn);
         opn = (if tm_ifaceMonitor m then opn - {InterfaceMonitor} else opn);
         opn = (if tm_networkMonitor m then opn - {NetworkMonitor} else opn)
     in opn)"

section \<open>Facts\<close>

lemmas tun_defs = tun_Start_def startSeqTracker_def initNetworking_def Let_def

lemma tun_Start_success:
  assumes "tun_Start env (fresh_tun_manager iface, {}) = (None, m, opn)"
  shows "tm_stack m \<and> tm_tunDevice m \<and> tm_rawSock m \<and> tm_ifaceMonitor m \<and> tm_networkMonitor m \<and>
    opn = {RawSocket, NetworkMonitor, InterfaceMonitor, TunDevice, Stack} \<union>
      (if seqtracker_ok env then {SeqTracker} else {})"
  using assms
  by (auto simp: tun_defs fresh_tun_manager_def split: if_splits)

section \<open>Properties\<close>

definition demo_tun_env :: tun_env where
  "demo_tun_env = \<lparr>physicalInterface = ''en0'', tun_rawsock_ok = True, seqtracker_ok = True, netmon_ok = True,
     ifacemon_ok = True, netmon_start_ok = True, ifacemon_start_ok = True, tun_ok = True, stack_ok = True,
     tun_start_ok = True, stack_start_ok = True\<rparr>"

text \<open>
  A TUN engine that fails to start never leaves the TUN device (and with it the routes
  into it) or the raw socket behind, at whatever step it fails; what it may leave open is the
  SYN-ACK capture, the two monitors, and the network stack when it is the stack that fails
  to start.
\<close>

theorem failed_tun_start_removes_device:
  assumes "tun_Start env (fresh_tun_manager iface, {}) = (Some e, m, opn)"
  shows "TunDevice \<notin> opn \<and> RawSocket \<notin> opn \<and>
    opn \<subseteq> {SeqTracker, NetworkMonitor, InterfaceMonitor} \<union> (if e = StartStack then {Stack} else {})"
  using assms
  by (auto simp: tun_defs fresh_tun_manager_def split: if_splits)

theorem failed_tun_start_removes_device_witness:
  "\<exists>m opn. tun_Start (demo_tun_env\<lparr>tun_start_ok := False\<rparr>) (fresh_tun_manager [], {}) = (Some StartTun, m, opn) \<and>
     TunDevice \<notin> opn \<and> opn = {SeqTracker, NetworkMonitor, InterfaceMonitor}"
proof -
  obtain m opn where s: "tun_Start (demo_tun_env\<lparr>tun_start_ok := False\<rparr>) (fresh_tun_manager [], {}) =
      (Some StartTun, m, opn)" and "opn = {SeqTracker, NetworkMonitor, InterfaceMonitor}"
    by (auto simp: tun_defs fresh_tun_manager_def demo_tun_env_def)
  with failed_tun_start_removes_device [OF s] show ?thesis by auto
qed

text \<open>
  \<open>Stop\<close> after a successful start releases everything except the SYN-ACK capture: it
  forgets the tracker (\<open>SetSeqTracker(nil)\<close>) without stopping it, so the capture goroutine
  and its pcap handle live on.
\<close>

theorem tun_Stop_leaves_capture:
  assumes "tun_Start env (fresh_tun_manager iface, {}) = (None, m, opn)"
  shows "tun_Stop (m, opn) = (if seqtracker_ok env then {SeqTracker} else {})"
  using tun_Start_success [OF assms] by (auto simp: tun_Stop_def)

theorem tun_Stop_leaves_capture_witness:
  "\<exists>m opn. tun_Start demo_tun_env (fresh_tun_manager [], {}) = (None, m, opn) \<and> tun_Stop (m, opn) = {SeqTracker}"
proof -
  obtain m opn where s: "tun_Start demo_tun_env (fresh_tun_manager [], {}) = (None, m, opn)"
    by (simp add: tun_defs fresh_tun_manager_def demo_tun_env_def)
  from tun_Stop_leaves_capture [OF s] s show ?thesis by (simp add: demo_tun_env_def)
qed

end
