(* ===== verification/Mac_Dns.thy ===== *)
theory Mac_Dns
  imports Resolv_Conf
begin

text \<open>
  The system resolver settings on macOS (\<open>src/pkg/dns/system_darwin.go\<close>) and the clean-up
  after a crash (\<open>src/cmd/gecit/app/cleanup_darwin.go\<close>).  The settings are changed by running
  \<open>networksetup\<close>; \<open>run\<close> is that program: from its arguments and the settings to its output,
  whether it succeeded, and the settings afterwards.  The breadcrumb file is its contents,
  \<open>None\<close> when absent; a failing write of it is ignored by the code, and \<open>write\<close> says what the
  file holds afterwards.  Restarting mDNSResponder has no effect on the settings; it is in
  \<open>Dns_Port\<close>.
\<close>

section \<open>The two operations\<close>

type_synonym 'w exec = "string list \<Rightarrow> 'w \<Rightarrow> string \<times> bool \<times> 'w"

record 'w mac =
  breadcrumb :: "string option"
  savedDNS :: string
  savedService :: string
  settings :: 'w

definition service :: "string option \<Rightarrow> string \<Rightarrow> string" where
  "service arg def = (case arg of None \<Rightarrow> def | Some s \<Rightarrow> if s = [] then def else s)"

text \<open>The recovery from an earlier crash at the start of \<open>SetSystemDNS\<close>.\<close>

definition recover :: "'w exec \<Rightarrow> string \<Rightarrow> 'w mac \<Rightarrow> 'w mac" where
  "recover run svc m =
     (case breadcrumb m of
        None \<Rightarrow> m
      | Some data \<Rightarrow>
          let prev = TrimSpace data in
          if prev \<noteq> [] \<and> prev \<noteq> ''127.0.0.1'' then
            let parts = Fields prev;
                args = [''-setdnsservers'', svc] @ parts;
                (_, _, w) = run args (settings m)
            in m\<lparr>settings := w\<rparr>
          else m)"

definition mac_SetSystemDNS ::
    "'w exec \<Rightarrow> (string \<Rightarrow> string option \<Rightarrow> string option) \<Rightarrow> string option \<Rightarrow> 'w mac \<Rightarrow> bool \<times> 'w mac" where
  "mac_SetSystemDNS run write arg m =
     (let svc = service arg ''Wi-Fi'';
          m = m\<lparr>savedService := svc\<rparr>;
          m = recover run svc m;
          (out, ok, w) = run [''-getdnsservers'', svc] (settings m);
          m = m\<lparr>settings := w\<rparr>;
          m = (if ok then
                 let saved = TrimSpace out;
                     m = m\<lparr>savedDNS := saved\<rparr>;
                     content = (if sublist ''aren't any'' saved then ''empty'' else saved)
                 in m\<lparr>breadcrumb := write (content @ [newline] @ svc @ [newline]) (breadcrumb m)\<rparr>
               else m);
          (out, ok, w) = run [''-setdnsservers'', svc, ''127.0.0.1''] (settings m)
      in (ok, m\<lparr>settings := w\<rparr>))"

definition mac_RestoreSystemDNS :: "'w exec \<Rightarrow> string option \<Rightarrow> 'w mac \<Rightarrow> 'w mac" where
  "mac_RestoreSystemDNS run arg m =
     (let svc = savedService m;
          svc = (if svc = [] then ''Wi-Fi'' else svc);
          svc = service arg svc;
          args = [''-setdnsservers'', svc];
          args = (if savedDNS m \<noteq> [] \<and> \<not> sublist ''aren't any'' (savedDNS m)
                  then args @ Fields (savedDNS m) else args @ [''empty'']);
          (_, _, w) = run args (settings m)
      in m\<lparr>settings := w, breadcrumb := None\<rparr>)"

text \<open>A new process: the variables of the old one are gone, the file and the settings stay.\<close>

definition new_process :: "'w mac \<Rightarrow> 'w mac" where
  "new_process m = m\<lparr>savedDNS := [], savedService := []\<rparr>"

section \<open>Clean-up after a crash\<close>

text \<open>The arguments built from a breadcrumb, and the two blocks of \<open>platformCleanup\<close>.\<close>

definition cleanup_args :: "string \<Rightarrow> string list" where
  "cleanup_args data =
     (let lines = SplitN 3 newline data;
          svc = (if length lines \<ge> 2 \<and> TrimSpace (lines ! 1) \<noteq> [] then TrimSpace (lines ! 1) else ''Wi-Fi'');
          prev = TrimSpace (lines ! 0)
      in if prev = [] \<or> prev = ''empty'' \<or> sublist ''aren't any'' prev
         then [''-setdnsservers'', svc, ''empty'']
         else [''-setdnsservers'', svc] @ Fields prev)"

definition cleanup_breadcrumb :: "'w exec \<Rightarrow> 'w mac \<Rightarrow> bool \<times> 'w mac" where
  "cleanup_breadcrumb run m =
     (case breadcrumb m of
        None \<Rightarrow> (False, m)
      | Some data \<Rightarrow>
          (case run (cleanup_args data) (settings m) of
             (_, _, w) \<Rightarrow> (True, m\<lparr>settings := w, breadcrumb := None\<rparr>)))"

definition cleanup_loopback :: "'w exec \<Rightarrow> 'w mac \<Rightarrow> bool \<times> 'w mac" where
  "cleanup_loopback run m =
     (case run [''-getdnsservers'', ''Wi-Fi''] (settings m) of
        (out, ok, w) \<Rightarrow>
          if ok \<and> TrimSpace out = ''127.0.0.1'' then
            (case run [''-setdnsservers'', ''Wi-Fi'', ''empty''] w of (_, _, w) \<Rightarrow> (True, m\<lparr>settings := w\<rparr>))
          else (False, m\<lparr>settings := w\<rparr>))"

definition mac_platformCleanup :: "'w exec \<Rightarrow> 'w mac \<Rightarrow> bool \<times> 'w mac" where
  "mac_platformCleanup run m =
     (let (cleaned, m) = cleanup_breadcrumb run m;
          (cleaned', m) = cleanup_loopback run m
      in (cleaned \<or> cleaned', m))"

section \<open>What the code relies on of networksetup\<close>

definition no_servers :: "string \<Rightarrow> string" where
  "no_servers svc = ''There aren't any DNS Servers set on '' @ svc @ ''.''"

definition shown :: "string \<Rightarrow> string list \<Rightarrow> string" where
  "shown svc ss = (if ss = [] then no_servers svc else Join ss [newline])"

text \<open>
  \<open>servers w\<close> gives the servers set for each network service.  \<open>-getdnsservers\<close> prints them a
  line each, or a sentence when there is none.  \<open>-setdnsservers\<close> takes the word \<open>empty\<close> or a
  list of addresses, and changes nothing for anything else or for an unknown service.
\<close>

definition networksetup_spec ::
    "'w exec \<Rightarrow> ('w \<Rightarrow> string \<Rightarrow> string list option) \<Rightarrow> (string \<Rightarrow> bool) \<Rightarrow> bool" where
  "networksetup_spec run servers valid \<longleftrightarrow>
     (\<forall>s. valid s \<longrightarrow> token s) \<and> \<not> valid ''empty'' \<and> valid ''127.0.0.1'' \<and>
     (\<forall>svc w ss. servers w svc = Some ss \<longrightarrow> list_all valid ss) \<and>
     (\<forall>svc w. case run [''-getdnsservers'', svc] w of (out, ok, w') \<Rightarrow> w' = w \<and>
        (case servers w svc of None \<Rightarrow> True | Some ss \<Rightarrow> ok \<and> out = shown svc ss @ [newline])) \<and>
     (\<forall>svc args w. case run (''-setdnsservers'' # svc # args) w of (out, ok, w') \<Rightarrow>
        if servers w svc = None then w' = w
        else if args = [''empty''] then ok \<and> servers w' = (servers w)(svc \<mapsto> [])
        else if args \<noteq> [] \<and> list_all valid args then ok \<and> servers w' = (servers w)(svc \<mapsto> args)
        else w' = w)"

lemma spec_valid:
  assumes "networksetup_spec run servers valid"
  shows "valid s \<Longrightarrow> token s" "\<not> valid ''empty''" "valid ''127.0.0.1''"
    "servers w svc = Some ss \<Longrightarrow> list_all valid ss"
  using assms unfolding networksetup_spec_def by metis+

lemma run_get_cases:
  assumes "networksetup_spec run servers valid"
  obtains out ok where "run [''-getdnsservers'', svc] w = (out, ok, w)"
    "\<And>ss. servers w svc = Some ss \<Longrightarrow> ok \<and> out = shown svc ss @ [newline]"
proof -
  obtain out ok w' where r: "run [''-getdnsservers'', svc] w = (out, ok, w')" by (metis prod_cases3)
  have "\<forall>svc w. case run [''-getdnsservers'', svc] w of (out, ok, w') \<Rightarrow> w' = w \<and>
        (case servers w svc of None \<Rightarrow> True | Some ss \<Rightarrow> ok \<and> out = shown svc ss @ [newline])"
    using assms by (simp only: networksetup_spec_def simp_thms)
  note this [THEN spec [of _ svc], THEN spec [of _ w]]
  with r have "w' = w" "\<And>ss. servers w svc = Some ss \<Longrightarrow> ok \<and> out = shown svc ss @ [newline]" by simp_all
  with r show thesis by (intro that [of out ok]) simp_all
qed

lemma run_get:
  assumes "networksetup_spec run servers valid" "servers w svc = Some ss"
  shows "run [''-getdnsservers'', svc] w = (shown svc ss @ [newline], True, w)"
  using run_get_cases [OF assms(1), of svc w] assms(2) by metis

lemma run_set_cases:
  assumes "networksetup_spec run servers valid"
  obtains out ok w' where "run (''-setdnsservers'' # svc # args) w = (out, ok, w')"
    "if servers w svc = None then w' = w
     else if args = [''empty''] then ok \<and> servers w' = (servers w)(svc \<mapsto> [])
     else if args \<noteq> [] \<and> list_all valid args then ok \<and> servers w' = (servers w)(svc \<mapsto> args)
     else w' = w"
proof -
  obtain out ok w' where r: "run (''-setdnsservers'' # svc # args) w = (out, ok, w')" by (metis prod_cases3)
  have "\<forall>svc args w. case run (''-setdnsservers'' # svc # args) w of (out, ok, w') \<Rightarrow>
        if servers w svc = None then w' = w
        else if args = [''empty''] then ok \<and> servers w' = (servers w)(svc \<mapsto> [])
        else if args \<noteq> [] \<and> list_all valid args then ok \<and> servers w' = (servers w)(svc \<mapsto> args)
        else w' = w"
    using assms by (simp only: networksetup_spec_def simp_thms)
  note this [THEN spec [of _ svc], THEN spec [of _ args], THEN spec [of _ w]]
  with r show thesis by (intro that [OF r]) (simp only: prod.case)
qed

text \<open>The servers a call asks for: none for \<open>empty\<close>, or its addresses.\<close>

definition set_args :: "string list \<Rightarrow> string list" where
  "set_args ss = (if ss = [] then [''empty''] else ss)"

lemma run_set:
  assumes spec: "networksetup_spec run servers valid"
    and "servers w svc \<noteq> None" "list_all valid ss"
  obtains out w' where "run (''-setdnsservers'' # svc # set_args ss) w = (out, True, w')"
    "servers w' = (servers w)(svc \<mapsto> ss)"
proof (rule run_set_cases [OF spec, of svc "set_args ss" w])
  have "ss \<noteq> [''empty'']" using assms spec_valid(2) [OF spec] by auto
  fix out ok w'
  assume r: "run (''-setdnsservers'' # svc # set_args ss) w = (out, ok, w')"
    and "if servers w svc = None then w' = w
     else if set_args ss = [''empty''] then ok \<and> servers w' = (servers w)(svc \<mapsto> [])
     else if set_args ss \<noteq> [] \<and> list_all valid (set_args ss) then ok \<and> servers w' = (servers w)(svc \<mapsto> set_args ss)
     else w' = w"
  with assms \<open>ss \<noteq> [''empty'']\<close> have "ok \<and> servers w' = (servers w)(svc \<mapsto> ss)"
    by (simp add: set_args_def split: if_splits)
  with r show thesis by (auto intro: that)
qed

lemma run_set_refused:
  assumes spec: "networksetup_spec run servers valid"
    and "servers w svc = None \<or> args \<noteq> [''empty''] \<and> \<not> list_all valid args"
  obtains out ok where "run (''-setdnsservers'' # svc # args) w = (out, ok, w)"
  by (rule run_set_cases [OF spec, of svc args w]) (use assms(2) that in \<open>auto split: if_splits\<close>)

section \<open>What is printed, and what is read back\<close>

lemma trimmed_shown: "\<forall>s \<in> set ss. token s \<Longrightarrow> trimmed (shown svc ss) \<and> shown svc ss \<noteq> []"
  using trimmed_Join [of ss] by (auto simp: shown_def no_servers_def trimmed_def is_space_def)

lemma shown_says_none:
  assumes "\<forall>s \<in> set ss. token s"
  shows "sublist ''aren't any'' (shown svc ss) \<longleftrightarrow> ss = []"
proof
  have "sublist ''aren't any'' (no_servers svc)"
    unfolding sublist_def no_servers_def
    by (rule exI [of _ "''There ''"], rule exI [of _ "'' DNS Servers set on '' @ svc @ ''.''"]) simp
  then show "ss = [] \<Longrightarrow> sublist ''aren't any'' (shown svc ss)" by (simp add: shown_def)
  assume s: "sublist ''aren't any'' (shown svc ss)"
  show "ss = []"
  proof (rule ccontr)
    assume "ss \<noteq> []"
    with s have "CHR '' '' \<in> set (Join ss [newline])" by (auto simp: shown_def sublist_def)
    with set_Join [of ss "[newline]"] assms show False
      by (auto simp: token_def is_space_def newline_def)
  qed
qed

lemma Fields_shown: "\<forall>s \<in> set ss. token s \<Longrightarrow> ss \<noteq> [] \<Longrightarrow> Fields (shown svc ss) = ss"
  by (simp add: shown_def Fields_Join newline_def is_space_def)

text \<open>The breadcrumb of a service whose servers were \<open>ss\<close>.\<close>

definition crumb :: "string \<Rightarrow> string list \<Rightarrow> string" where
  "crumb svc ss = (if ss = [] then ''empty'' else Join ss [newline]) @ [newline] @ svc @ [newline]"

lemma trimmed_crumb:
  assumes "\<forall>s \<in> set ss. token s" "trimmed svc" "svc \<noteq> []"
  shows "TrimSpace (crumb svc ss) = (if ss = [] then ''empty'' else Join ss [newline]) @ [newline] @ svc"
proof -
  let ?x = "if ss = [] then ''empty'' else Join ss [newline]"
  have x: "trimmed ?x" "?x \<noteq> []"
    using trimmed_Join [of ss] assms by (auto simp: trimmed_def is_space_def)
  from x assms have "trimmed (?x @ [newline] @ svc)" by (simp add: trimmed_def)
  from TrimSpace_line [OF this] show ?thesis by (simp add: crumb_def)
qed

lemma Fields_crumb:
  assumes "\<forall>s \<in> set ss. token s"
  shows "Fields (crumb svc ss) = (if ss = [] then [''empty''] else ss) @ Fields svc"
proof -
  have n: "is_space newline" by (simp add: newline_def is_space_def)
  have "token ''empty''" by (simp add: token_def is_space_def)
  then have "Fields (if ss = [] then ''empty'' else Join ss [newline]) = (if ss = [] then [''empty''] else ss)"
    using assms n by (simp add: Fields_token Fields_Join)
  then show ?thesis
    using n by (simp add: crumb_def Fields_append)
qed

text \<open>
  The recovery hands the name of the service to \<open>networksetup\<close> as one more address, which
  therefore changes nothing.
\<close>

lemma recover_crumb:
  assumes spec: "networksetup_spec run servers valid"
    and ss: "list_all valid ss" and tok: "\<exists>t \<in> set (Fields svc). \<not> valid t"
    and b: "breadcrumb m = Some (crumb svc ss)"
  shows "recover run svc m = m"
proof -
  let ?args = "(if ss = [] then [''empty''] else ss) @ Fields svc"
  have t: "\<forall>s \<in> set ss. token s" using ss spec_valid(1) [OF spec] by (auto simp: list_all_iff)
  have "?args \<noteq> [''empty'']" using tok by (cases ss) auto
  moreover have "\<not> list_all valid ?args" using tok by (auto simp: list_all_iff)
  ultimately obtain out ok where r: "run (''-setdnsservers'' # svc # ?args) (settings m) = (out, ok, settings m)"
    using run_set_refused [OF spec] by blast
  have "Fields (TrimSpace (crumb svc ss)) = ?args" using Fields_crumb [OF t] by (simp add: Fields_TrimSpace)
  with b r show ?thesis by (simp add: recover_def Let_def del: split_paired_Ex)
qed

lemma mac_Set_result:
  assumes spec: "networksetup_spec run servers valid"
    and svc: "service arg ''Wi-Fi'' = svc"
    and rec: "recover run svc (m\<lparr>savedService := svc\<rparr>) = m\<lparr>savedService := svc\<rparr>"
    and cur: "servers (settings m) svc = Some ss"
  obtains w where "mac_SetSystemDNS run write arg m =
      (True, m\<lparr>savedService := svc, savedDNS := shown svc ss,
               breadcrumb := write (crumb svc ss) (breadcrumb m), settings := w\<rparr>)"
    "servers w = (servers (settings m))(svc \<mapsto> [''127.0.0.1''])"
proof -
  have t: "\<forall>s \<in> set ss. token s"
    using spec_valid(1) [OF spec] spec_valid(4) [OF spec, OF cur] by (auto simp: list_all_iff)
  note get = run_get [OF spec, OF cur]
  have "trimmed (shown svc ss)" using trimmed_shown [OF t] by simp
  note trim = TrimSpace_line [OF this]
  obtain out w where set: "run [''-setdnsservers'', svc, ''127.0.0.1''] (settings m) = (out, True, w)"
      "servers w = (servers (settings m))(svc \<mapsto> [''127.0.0.1''])"
    using run_set [OF spec, of "settings m" svc "[''127.0.0.1'']"] cur spec_valid(3) [OF spec]
    by (auto simp: set_args_def)
  have "(if ss = [] then ''empty'' else shown svc ss) @ [newline] @ svc @ [newline] = crumb svc ss"
    by (simp add: crumb_def shown_def)
  with set(1) show thesis
    by (intro that [OF _ set(2)])
       (simp add: mac_SetSystemDNS_def Let_def svc rec get trim shown_says_none [OF t])
qed

lemma mac_Restore_result:
  assumes spec: "networksetup_spec run servers valid" and ss: "list_all valid ss"
    and m: "savedDNS m = shown svc ss" "savedService m = svc" "svc \<noteq> []"
    and known: "servers (settings m) svc \<noteq> None"
  obtains w where "mac_RestoreSystemDNS run None m = m\<lparr>settings := w, breadcrumb := None\<rparr>"
    "servers w = (servers (settings m))(svc \<mapsto> ss)"
proof -
  have t: "\<forall>s \<in> set ss. token s" using ss spec_valid(1) [OF spec] by (auto simp: list_all_iff)
  obtain out w where r: "run (''-setdnsservers'' # svc # set_args ss) (settings m) = (out, True, w)"
      "servers w = (servers (settings m))(svc \<mapsto> ss)"
    using run_set [OF spec, OF known, OF ss] .
  have "mac_RestoreSystemDNS run None m = m\<lparr>settings := w, breadcrumb := None\<rparr>"
    using r(1) m trimmed_shown [OF t, of svc] shown_says_none [OF t, of svc] Fields_shown [OF t, of svc]
    by (cases "ss = []") (simp_all add: set_args_def mac_RestoreSystemDNS_def service_def Let_def)
  from that [OF this r(2)] show thesis .
qed

text \<open>The first two lines of a breadcrumb, as the clean-up reads them.\<close>

definition crumb_first :: "string list \<Rightarrow> string" where
  "crumb_first ss = (case ss of [] \<Rightarrow> ''empty'' | a # _ \<Rightarrow> a)"

definition crumb_second :: "string \<Rightarrow> string list \<Rightarrow> string" where
  "crumb_second svc ss = (case ss of _ # b # _ \<Rightarrow> b | _ \<Rightarrow> svc)"

lemma crumb_lines: "\<exists>z. crumb svc ss = crumb_first ss @ newline # crumb_second svc ss @ newline # z"
proof (cases ss)
  case (Cons a r)
  then show ?thesis
  proof (cases r)
    case (Cons b q)
    then show ?thesis using \<open>ss = a # r\<close>
      by (cases q) (auto simp: crumb_def crumb_first_def crumb_second_def)
  qed (simp add: crumb_def crumb_first_def crumb_second_def)
qed (simp add: crumb_def crumb_first_def crumb_second_def)

text \<open>What the second block makes of the settings.\<close>

lemma shown_loopback:
  assumes spec: "networksetup_spec run servers valid" and w: "servers w svc = Some ss"
  shows "TrimSpace (shown svc ss @ [newline]) = ''127.0.0.1'' \<longleftrightarrow> ss = [''127.0.0.1'']"
proof -
  have T: "\<forall>s \<in> set ss. token s"
    using spec_valid(1) [OF spec] spec_valid(4) [OF spec, OF w] by (auto simp: list_all_iff)
  have "TrimSpace (shown svc ss @ [newline]) = shown svc ss"
    using trimmed_shown [OF T] TrimSpace_line by metis
  moreover have "shown svc ss = ''127.0.0.1'' \<longleftrightarrow> ss = [''127.0.0.1'']"
  proof (cases "ss = []")
    case True
    then show ?thesis by (simp add: shown_def no_servers_def)
  next
    case False
    have f: "Fields ''127.0.0.1'' = [''127.0.0.1'']"
      using Fields_token spec_valid(1,3) [OF spec] by blast
    have "shown svc [''127.0.0.1''] = ''127.0.0.1''" by (simp add: shown_def)
    with Fields_shown [OF T False, of svc] f show ?thesis by metis
  qed
  ultimately show ?thesis by simp
qed

lemma cleanup_loopback_result:
  assumes spec: "networksetup_spec run servers valid"
  obtains c w where "cleanup_loopback run m = (c, m\<lparr>settings := w\<rparr>)"
    "servers w = (if servers (settings m) ''Wi-Fi'' = Some [''127.0.0.1'']
       then (servers (settings m))(''Wi-Fi'' \<mapsto> []) else servers (settings m))"
proof -
  obtain out ok where g: "run [''-getdnsservers'', ''Wi-Fi''] (settings m) = (out, ok, settings m)"
      "\<And>ss. servers (settings m) ''Wi-Fi'' = Some ss \<Longrightarrow> ok \<and> out = shown ''Wi-Fi'' ss @ [newline]"
    by (rule run_get_cases [OF spec, of "''Wi-Fi''" "settings m"]) (rule that)
  show thesis
  proof (cases "servers (settings m) ''Wi-Fi''")
    case None
    obtain out' ok' where "run [''-setdnsservers'', ''Wi-Fi'', ''empty''] (settings m) = (out', ok', settings m)"
      using run_set_refused [OF spec, of "settings m" "''Wi-Fi''" "[''empty'']"] None by blast
    then show thesis using g(1) None
      by (intro that [of "ok \<and> TrimSpace out = ''127.0.0.1''" "settings m"]) (simp_all add: cleanup_loopback_def)
  next
    case (Some ss)
    then have "servers (settings m) ''Wi-Fi'' \<noteq> None" by simp
    moreover have "list_all valid []" by simp
    ultimately obtain out' w where
        "run (''-setdnsservers'' # ''Wi-Fi'' # set_args []) (settings m) = (out', True, w)"
        "servers w = (servers (settings m))(''Wi-Fi'' \<mapsto> [])"
      by (rule run_set [OF spec, of "settings m" "''Wi-Fi''" "[]"]) blast
    moreover have "set_args [] = [''empty'']" by (simp add: set_args_def)
    ultimately show thesis using g(1) g(2) [OF Some] shown_loopback [OF spec, OF Some] Some
      by (intro that [of "ss = [''127.0.0.1'']" "if ss = [''127.0.0.1''] then w else settings m"])
         (simp_all add: cleanup_loopback_def)
  qed
qed

lemma cleanup_args_crumb:
  assumes spec: "networksetup_spec run servers valid" and ss: "list_all valid ss"
    and svc: "trimmed svc" "svc \<noteq> []" "newline \<notin> set svc"
  shows "cleanup_args (crumb svc ss) = ''-setdnsservers'' # crumb_second svc ss # set_args (take 1 ss)"
proof -
  have t: "\<forall>s \<in> set ss. token s" using ss spec_valid(1) [OF spec] by (auto simp: list_all_iff)
  let ?a = "crumb_first ss" and ?b = "crumb_second svc ss"
  have b: "trimmed ?b" "?b \<noteq> []" "newline \<notin> set ?b"
    using t svc by (simp_all add: crumb_second_def token_trimmed split: list.split)
  have "token ''empty''" by (simp add: token_def is_space_def)
  with t have a: "token ?a" by (auto simp: crumb_first_def split: list.splits)
  obtain z where "crumb svc ss = ?a @ newline # ?b @ newline # z" using crumb_lines by blast
  with a b have lines: "SplitN 3 newline (crumb svc ss) = [?a, ?b, z]"
    using SplitN_3 token_trimmed by metis
  have s: "\<not> sublist ''aren't any'' ?a"
    using a shown_says_none [of "[?a]" svc] by (simp add: shown_def)
  have e: "ss \<noteq> [] \<Longrightarrow> ?a \<noteq> ''empty''"
    using ss spec_valid(2) [OF spec] by (auto simp: crumb_first_def split: list.splits)
  have i: "?a \<noteq> []" "TrimSpace ?a = ?a" "TrimSpace ?b = ?b" "Fields ?a = [?a]"
    using a b token_trimmed [OF a] by (simp_all add: TrimSpace_id Fields_token)
  show ?thesis
  proof (cases ss)
    case Nil
    then have "?a = ''empty''" by (simp add: crumb_first_def)
    with lines i b Nil show ?thesis by (simp add: cleanup_args_def set_args_def)
  next
    case (Cons x r)
    then have "?a = x" by (simp add: crumb_first_def)
    with lines i b s e Cons show ?thesis by (simp add: cleanup_args_def set_args_def)
  qed
qed

section \<open>Properties\<close>

text \<open>A machine with networksetup, for the witnesses.\<close>

definition demo_valid :: "string \<Rightarrow> bool" where
  "demo_valid s \<longleftrightarrow> s \<in> {''127.0.0.1'', ''8.8.8.8'', ''1.1.1.1''}"

definition demo_servers :: "(string \<Rightarrow> string list option) \<Rightarrow> string \<Rightarrow> string list option" where
  "demo_servers w svc = map_option (filter demo_valid) (w svc)"

definition demo_run :: "(string \<Rightarrow> string list option) exec" where
  "demo_run args w =
     (case args of
        [g, svc] \<Rightarrow>
          (case demo_servers w svc of
             Some ss \<Rightarrow> if g = ''-getdnsservers'' then (shown svc ss @ [newline], True, w) else ([], False, w)
           | None \<Rightarrow> ([], False, w))
      | s # svc # as \<Rightarrow>
          if s \<noteq> ''-setdnsservers'' \<or> w svc = None then ([], False, w)
          else if as = [''empty''] then ([], True, w(svc \<mapsto> []))
          else if as \<noteq> [] \<and> list_all demo_valid as then ([], True, w(svc \<mapsto> as))
          else ([], False, w)
      | _ \<Rightarrow> ([], False, w))"

lemma demo_servers_upd:
  "list_all demo_valid ss \<Longrightarrow> demo_servers (w(svc \<mapsto> ss)) = (demo_servers w)(svc \<mapsto> ss)"
  by (rule ext) (simp add: demo_servers_def list_all_iff)

lemma demo_spec: "networksetup_spec demo_run demo_servers demo_valid"
  unfolding networksetup_spec_def
proof (intro conjI allI impI)
  show "token s" if "demo_valid s" for s
    using that by (auto simp: demo_valid_def token_def is_space_def)
  show "\<not> demo_valid ''empty''" "demo_valid ''127.0.0.1''" by (simp_all add: demo_valid_def)
  show "list_all demo_valid ss" if "demo_servers w svc = Some ss" for w svc ss
    using that by (auto simp: demo_servers_def list_all_iff)
  show "case demo_run [''-getdnsservers'', svc] w of (out, ok, w') \<Rightarrow> w' = w \<and>
        (case demo_servers w svc of None \<Rightarrow> True | Some ss \<Rightarrow> ok \<and> out = shown svc ss @ [newline])" for svc w
    by (simp add: demo_run_def split: option.split)
  show "case demo_run (''-setdnsservers'' # svc # args) w of (out, ok, w') \<Rightarrow>
        if demo_servers w svc = None then w' = w
        else if args = [''empty''] then ok \<and> demo_servers w' = (demo_servers w)(svc \<mapsto> [])
        else if args \<noteq> [] \<and> list_all demo_valid args then ok \<and> demo_servers w' = (demo_servers w)(svc \<mapsto> args)
        else w' = w" for svc args w
    by (cases args) (simp_all add: demo_run_def demo_servers_upd, simp_all add: demo_servers_def split: option.split)
qed

definition demo_mac :: "string list \<Rightarrow> (string \<Rightarrow> string list option) mac" where
  "demo_mac ss = \<lparr>breadcrumb = None, savedDNS = [], savedService = [], settings = [''Wi-Fi'' \<mapsto> ss]\<rparr>"

lemma mac_Set_and_Restore:
  assumes "networksetup_spec run servers valid"
    and "breadcrumb m = None" and "servers (settings m) ''Wi-Fi'' = Some ss"
  shows "case mac_SetSystemDNS run write None m of (ok, m1) \<Rightarrow>
      ok \<and> servers (settings m1) ''Wi-Fi'' = Some [''127.0.0.1''] \<and>
      servers (settings (mac_RestoreSystemDNS run None m1)) = servers (settings m) \<and>
      breadcrumb (mac_RestoreSystemDNS run None m1) = None"
proof -
  have "recover run ''Wi-Fi'' (m\<lparr>savedService := ''Wi-Fi''\<rparr>) = m\<lparr>savedService := ''Wi-Fi''\<rparr>"
    using assms(2) by (simp add: recover_def)
  from mac_Set_result [OF assms(1) _ this assms(3), where arg = None] obtain w where
    s: "mac_SetSystemDNS run write None m = (True, m\<lparr>savedService := ''Wi-Fi'',
          savedDNS := shown ''Wi-Fi'' ss, breadcrumb := write (crumb ''Wi-Fi'' ss) (breadcrumb m), settings := w\<rparr>)"
      (is "_ = (_, ?m)")
    and w: "servers w = (servers (settings m))(''Wi-Fi'' \<mapsto> [''127.0.0.1''])"
    by (auto simp: service_def)
  obtain w' where "mac_RestoreSystemDNS run None ?m = ?m\<lparr>settings := w', breadcrumb := None\<rparr>"
      "servers w' = (servers w)(''Wi-Fi'' \<mapsto> ss)"
    using mac_Restore_result [OF assms(1) spec_valid(4) [OF assms(1), OF assms(3)], of ?m "''Wi-Fi''"] w by auto
  with s w assms(3) show ?thesis by (simp add: fun_upd_idem)
qed

text \<open>
  C36: macOS: with no breadcrumb lying about, \<open>SetSystemDNS\<close> succeeds and makes 127.0.0.1 the
  only server of Wi-Fi, and \<open>RestoreSystemDNS\<close> brings the settings of every service back as
  they were (DHCP or a list of servers) and removes the breadcrumb.
\<close>

theorem mac_restore_undoes_set:
  assumes "networksetup_spec run servers valid"
    and "breadcrumb m = None" and "servers (settings m) ''Wi-Fi'' = Some ss"
  shows "case mac_SetSystemDNS run write None m of (ok, m1) \<Rightarrow>
      ok \<and> servers (settings m1) ''Wi-Fi'' = Some [''127.0.0.1''] \<and>
      servers (settings (mac_RestoreSystemDNS run None m1)) = servers (settings m) \<and>
      breadcrumb (mac_RestoreSystemDNS run None m1) = None"
  using assms by (rule mac_Set_and_Restore)

theorem mac_restore_undoes_set_witness:
  "case mac_SetSystemDNS demo_run (\<lambda>c f. Some c) None (demo_mac [''8.8.8.8'', ''1.1.1.1'']) of (ok, m1) \<Rightarrow>
     ok \<and> demo_servers (settings m1) ''Wi-Fi'' = Some [''127.0.0.1''] \<and>
     demo_servers (settings (mac_RestoreSystemDNS demo_run None m1)) ''Wi-Fi'' = Some [''8.8.8.8'', ''1.1.1.1'']"
proof -
  have d: "breadcrumb (demo_mac [''8.8.8.8'', ''1.1.1.1'']) = None"
    "demo_servers (settings (demo_mac [''8.8.8.8'', ''1.1.1.1''])) ''Wi-Fi'' = Some [''8.8.8.8'', ''1.1.1.1'']"
    by (simp_all add: demo_mac_def demo_servers_def demo_valid_def)
  from mac_restore_undoes_set [where servers = demo_servers and m = "demo_mac [''8.8.8.8'', ''1.1.1.1'']",
      OF demo_spec d, of "\<lambda>c f. Some c"] d(2)
  show ?thesis by (simp split: prod.splits)
qed

text \<open>A run that set the system DNS and was killed, as the next process finds the machine.\<close>

definition crashed :: "'w exec \<Rightarrow> 'w mac \<Rightarrow> 'w mac" where
  "crashed run m = new_process (snd (mac_SetSystemDNS run (\<lambda>c f. Some c) None m))"

lemma crashed_state:
  assumes "networksetup_spec run servers valid"
    and "breadcrumb m = None" and "servers (settings m) ''Wi-Fi'' = Some ss"
  obtains w where "crashed run m =
      \<lparr>breadcrumb = Some (crumb ''Wi-Fi'' ss), savedDNS = [], savedService = [], settings = w\<rparr>"
    "servers w = (servers (settings m))(''Wi-Fi'' \<mapsto> [''127.0.0.1''])"
proof -
  have "recover run ''Wi-Fi'' (m\<lparr>savedService := ''Wi-Fi''\<rparr>) = m\<lparr>savedService := ''Wi-Fi''\<rparr>"
    using assms(2) by (simp add: recover_def)
  moreover have "service None ''Wi-Fi'' = ''Wi-Fi''" by (simp add: service_def)
  ultimately obtain w where
    "mac_SetSystemDNS run (\<lambda>c f. Some c) None m = (True, m\<lparr>savedService := ''Wi-Fi'',
          savedDNS := shown ''Wi-Fi'' ss, breadcrumb := Some (crumb ''Wi-Fi'' ss), settings := w\<rparr>)"
    and w: "servers w = (servers (settings m))(''Wi-Fi'' \<mapsto> [''127.0.0.1''])"
    using mac_Set_result [OF assms(1) _ _ assms(3), of None "\<lambda>c f. Some c"] by blast
  with that [OF _ w] show thesis
    by (cases m) (simp add: crashed_def new_process_def)
qed

text \<open>
  macOS: after a crash, the next run and its orderly stop do not bring the servers of
  Wi-Fi back: the recovery of \<open>SetSystemDNS\<close> is refused, because it passes the name of the
  service as one more address; the run then saves 127.0.0.1 as the original, overwrites the
  breadcrumb with it, and restores it at the end.
\<close>

theorem mac_crash_and_restart_loses_servers:
  assumes "networksetup_spec run servers valid" and "\<not> valid ''Wi-Fi''"
    and "breadcrumb m = None" and "servers (settings m) ''Wi-Fi'' = Some ss"
  shows "case mac_SetSystemDNS run (\<lambda>c f. Some c) None (crashed run m) of (ok, m1) \<Rightarrow>
      breadcrumb m1 = Some (''127.0.0.1'' @ [newline] @ ''Wi-Fi'' @ [newline]) \<and>
      servers (settings (mac_RestoreSystemDNS run None m1)) ''Wi-Fi'' = Some [''127.0.0.1''] \<and>
      breadcrumb (mac_RestoreSystemDNS run None m1) = None"
proof -
  note spec = assms(1)
  obtain w where c: "crashed run m =
      \<lparr>breadcrumb = Some (crumb ''Wi-Fi'' ss), savedDNS = [], savedService = [], settings = w\<rparr>" (is "_ = ?c")
    and w: "servers w = (servers (settings m))(''Wi-Fi'' \<mapsto> [''127.0.0.1''])"
    using crashed_state [OF spec assms(3), OF assms(4)] .
  let ?l = "[''127.0.0.1'']"
  have "token ''Wi-Fi''" by (simp add: token_def is_space_def)
  then have tok: "\<exists>t \<in> set (Fields ''Wi-Fi''). \<not> valid t" using assms(2) by (simp add: Fields_token)
  have "recover run ''Wi-Fi'' (?c\<lparr>savedService := ''Wi-Fi''\<rparr>) = ?c\<lparr>savedService := ''Wi-Fi''\<rparr>"
    by (rule recover_crumb [OF spec, OF spec_valid(4) [OF spec, OF assms(4)], OF tok]) simp
  moreover have "service None ''Wi-Fi'' = ''Wi-Fi''" by (simp add: service_def)
  moreover have "servers (settings ?c) ''Wi-Fi'' = Some ?l" using w by simp
  ultimately obtain w' where
    s: "mac_SetSystemDNS run (\<lambda>c f. Some c) None ?c = (True, ?c\<lparr>savedService := ''Wi-Fi'',
          savedDNS := shown ''Wi-Fi'' ?l, breadcrumb := Some (crumb ''Wi-Fi'' ?l), settings := w'\<rparr>)"
      (is "_ = (_, ?m)")
    and w': "servers w' = (servers (settings ?c))(''Wi-Fi'' \<mapsto> ?l)"
    using mac_Set_result [OF spec, of None "''Wi-Fi''" ?c ?l "\<lambda>c f. Some c"] by blast
  have "list_all valid ?l" using spec_valid(3) [OF spec] by simp
  then obtain w2 where "mac_RestoreSystemDNS run None ?m = ?m\<lparr>settings := w2, breadcrumb := None\<rparr>"
      "servers w2 = (servers w')(''Wi-Fi'' \<mapsto> ?l)"
    using mac_Restore_result [OF spec, of ?l ?m "''Wi-Fi''"] w' by auto
  with s c show ?thesis by (simp add: crumb_def)
qed

theorem mac_crash_and_restart_loses_servers_witness:
  "case mac_SetSystemDNS demo_run (\<lambda>c f. Some c) None (crashed demo_run (demo_mac [''8.8.8.8''])) of (ok, m1) \<Rightarrow>
     demo_servers (settings (mac_RestoreSystemDNS demo_run None m1)) ''Wi-Fi'' = Some [''127.0.0.1'']"
proof -
  have d: "\<not> demo_valid ''Wi-Fi''" "breadcrumb (demo_mac [''8.8.8.8'']) = None"
    "demo_servers (settings (demo_mac [''8.8.8.8''])) ''Wi-Fi'' = Some [''8.8.8.8'']"
    by (simp_all add: demo_mac_def demo_servers_def demo_valid_def)
  from mac_crash_and_restart_loses_servers [where servers = demo_servers and m = "demo_mac [''8.8.8.8'']",
      OF demo_spec d]
  show ?thesis by (simp split: prod.splits)
qed

text \<open>
  C37: macOS: \<open>gecit cleanup\<close> after a crash brings the settings of every service back when
  Wi-Fi had at most one server, and removes the breadcrumb.  With several, it takes the second
  server for the name of the service, is refused, removes the breadcrumb all the same, and
  ends by resetting Wi-Fi to DHCP, so that the configured servers are lost.
\<close>

theorem cleanup_after_crash:
  assumes "networksetup_spec run servers valid"
    and "breadcrumb m = None" and "servers (settings m) ''Wi-Fi'' = Some ss"
    and "ss \<noteq> [''127.0.0.1'']" and "\<forall>s \<in> set ss. servers (settings m) s = None"
  shows "case mac_platformCleanup run (crashed run m) of (cleaned, m') \<Rightarrow>
      cleaned \<and> breadcrumb m' = None \<and>
      servers (settings m') = (if length ss \<le> 1 then servers (settings m)
                               else (servers (settings m))(''Wi-Fi'' \<mapsto> []))"
proof -
  note spec = assms(1) and ss = spec_valid(4) [OF assms(1), OF assms(3)]
  obtain w where c: "crashed run m =
      \<lparr>breadcrumb = Some (crumb ''Wi-Fi'' ss), savedDNS = [], savedService = [], settings = w\<rparr>" (is "_ = ?c")
    and w: "servers w = (servers (settings m))(''Wi-Fi'' \<mapsto> [''127.0.0.1''])"
    using crashed_state [OF spec assms(2), OF assms(3)] .
  have args: "cleanup_args (crumb ''Wi-Fi'' ss) = ''-setdnsservers'' # crumb_second ''Wi-Fi'' ss # set_args (take 1 ss)"
    by (rule cleanup_args_crumb [OF spec ss]) (simp_all add: trimmed_def is_space_def newline_def)
  have "\<exists>out ok w1. run (cleanup_args (crumb ''Wi-Fi'' ss)) w = (out, ok, w1) \<and>
      servers w1 = (if length ss \<le> 1 then servers (settings m) else servers w)"
  proof (cases "length ss \<le> 1")
    case True
    then have "take 1 ss = ss" "crumb_second ''Wi-Fi'' ss = ''Wi-Fi''"
      by (auto simp: crumb_second_def split: list.split)
    then have args1: "cleanup_args (crumb ''Wi-Fi'' ss) = ''-setdnsservers'' # ''Wi-Fi'' # set_args ss"
      using args by simp
    have "servers w ''Wi-Fi'' \<noteq> None" using w by simp
    then obtain out w1 where "run (''-setdnsservers'' # ''Wi-Fi'' # set_args ss) w = (out, True, w1)"
        "servers w1 = (servers w)(''Wi-Fi'' \<mapsto> ss)"
      using run_set [OF spec _ ss, of w "''Wi-Fi''"] by blast
    moreover have "(servers w)(''Wi-Fi'' \<mapsto> ss) = servers (settings m)"
      unfolding w fun_upd_upd by (rule fun_upd_idem) (rule assms(3))
    ultimately show ?thesis using True unfolding args1 by auto
  next
    case False
    then obtain a b r where "ss = a # b # r" by (cases ss; cases "tl ss") auto
    then have "crumb_second ''Wi-Fi'' ss = b" "servers w b = None"
      using assms(3,5) w by (auto simp: crumb_second_def)
    then show ?thesis
      using run_set_refused [OF spec, of w b "set_args (take 1 ss)"] False unfolding args by (metis (full_types))
  qed
  then obtain out ok w1 where r: "run (cleanup_args (crumb ''Wi-Fi'' ss)) w = (out, ok, w1)"
    and w1: "servers w1 = (if length ss \<le> 1 then servers (settings m) else servers w)" by blast
  let ?m = "?c\<lparr>settings := w1, breadcrumb := None\<rparr>"
  have first: "cleanup_breadcrumb run ?c = (True, ?m)" using r by (simp add: cleanup_breadcrumb_def)
  obtain b w2 where second: "cleanup_loopback run ?m = (b, ?m\<lparr>settings := w2\<rparr>)"
    "servers w2 = (if servers (settings ?m) ''Wi-Fi'' = Some [''127.0.0.1'']
       then (servers (settings ?m))(''Wi-Fi'' \<mapsto> []) else servers (settings ?m))"
    using cleanup_loopback_result [OF spec] .
  have "servers w2 = (if length ss \<le> 1 then servers (settings m) else (servers (settings m))(''Wi-Fi'' \<mapsto> []))"
    using second(2) w1 w assms(3,4) by simp
  with first second(1) c show ?thesis by (simp add: mac_platformCleanup_def)
qed

theorem cleanup_after_crash_witness:
  "(case mac_platformCleanup demo_run (crashed demo_run (demo_mac [''8.8.8.8''])) of (cleaned, m') \<Rightarrow>
      cleaned \<and> demo_servers (settings m') ''Wi-Fi'' = Some [''8.8.8.8'']) \<and>
   (case mac_platformCleanup demo_run (crashed demo_run (demo_mac [''8.8.8.8'', ''1.1.1.1''])) of (cleaned, m') \<Rightarrow>
      cleaned \<and> demo_servers (settings m') ''Wi-Fi'' = Some [])"
proof (rule conjI)
  have d: "breadcrumb (demo_mac ss) = None"
    "list_all demo_valid ss \<Longrightarrow> demo_servers (settings (demo_mac ss)) ''Wi-Fi'' = Some ss"
    "list_all demo_valid ss \<Longrightarrow> \<forall>s \<in> set ss. demo_servers (settings (demo_mac ss)) s = None" for ss
    subgoal by (simp add: demo_mac_def)
    subgoal by (simp add: demo_mac_def demo_servers_def list_all_iff)
    subgoal by (intro ballI) (simp add: demo_mac_def demo_servers_def list_all_iff, force simp: demo_valid_def)
    done
  have v: "list_all demo_valid [''8.8.8.8'']" "list_all demo_valid [''8.8.8.8'', ''1.1.1.1'']"
    by (simp_all add: demo_valid_def)
  show "case mac_platformCleanup demo_run (crashed demo_run (demo_mac [''8.8.8.8''])) of (cleaned, m') \<Rightarrow>
     cleaned \<and> demo_servers (settings m') ''Wi-Fi'' = Some [''8.8.8.8'']"
    using cleanup_after_crash [where servers = demo_servers and m = "demo_mac [''8.8.8.8'']",
      OF demo_spec d(1) d(2) [OF v(1)] _ d(3) [OF v(1)]] d(2) [OF v(1)] by (simp split: prod.splits)
  show "case mac_platformCleanup demo_run (crashed demo_run (demo_mac [''8.8.8.8'', ''1.1.1.1''])) of (cleaned, m') \<Rightarrow>
     cleaned \<and> demo_servers (settings m') ''Wi-Fi'' = Some []"
    using cleanup_after_crash [where servers = demo_servers and m = "demo_mac [''8.8.8.8'', ''1.1.1.1'']",
      OF demo_spec d(1) d(2) [OF v(2)] _ d(3) [OF v(2)]] by (simp split: prod.splits)
qed

end
