(* ===== verification/Windows_Dns.thy ===== *)
theory Windows_Dns
  imports Go_Ip
begin

text \<open>
  The system resolver settings on Windows (\<open>src/pkg/dns/system_windows.go\<close>) and the clean-up
  after a crash (\<open>src/cmd/gecit/app/cleanup_windows.go\<close>).  Programs are run through
  \<open>run\<close>: from the command line and the settings to the output, whether the program succeeded,
  and the settings afterwards.  \<open>ipconfig /flushdns\<close> does not touch the settings and is left
  out.  The breadcrumb file is its contents; \<open>write\<close> is \<open>os.WriteFile\<close>, whose failure the code
  ignores.
\<close>

section \<open>Reading the settings\<close>

type_synonym 'w command = "string list \<Rightarrow> 'w \<Rightarrow> string \<times> bool \<times> 'w"

record 'w win =
  wcrumb :: "string option"
  savedInterface :: string
  wsettings :: 'w

text \<open>A word is taken when it is an address other than a loopback address.\<close>

definition usable :: "string \<Rightarrow> bool" where
  "usable p \<longleftrightarrow> (case ParseIP p of None \<Rightarrow> False | Some ip \<Rightarrow> \<not> IsLoopback ip)"

definition getCurrentDNS :: "'w command \<Rightarrow> string \<Rightarrow> 'w \<Rightarrow> string \<times> 'w" where
  "getCurrentDNS run iface w =
     (case run [''netsh'', ''interface'', ''ip'', ''show'', ''dns'', iface] w of
        (out, ok, w) \<Rightarrow>
          if \<not> ok then (''dhcp'', w)
          else (case find usable (concat (map (\<lambda>line. Fields (TrimSpace line)) (Split newline out))) of
                  Some p \<Rightarrow> (p, w)
                | None \<Rightarrow> (''dhcp'', w)))"

fun connected_interface :: "string list \<Rightarrow> string option" where
  "connected_interface [] = None"
| "connected_interface (line # ls) =
     (let line = TrimSpace line in
      if sublist ''Connected'' line \<and> \<not> sublist ''Loopback'' line then
        let fields = Fields line in
        if length fields \<ge> 4 then Some (Join (drop 3 fields) '' '') else connected_interface ls
      else connected_interface ls)"

definition detectWindowsInterface :: "'w command \<Rightarrow> 'w \<Rightarrow> string option \<times> 'w" where
  "detectWindowsInterface run w =
     (case run [''netsh'', ''interface'', ''show'', ''interface''] w of
        (out, ok, w) \<Rightarrow> (if \<not> ok then None else connected_interface (Split newline out), w))"

section \<open>The operations\<close>

definition set_dhcp :: "'w command \<Rightarrow> string \<Rightarrow> 'w \<Rightarrow> string \<times> bool \<times> 'w" where
  "set_dhcp run iface w = run [''netsh'', ''interface'', ''ip'', ''set'', ''dns'', iface, ''dhcp''] w"

definition set_static :: "'w command \<Rightarrow> string \<Rightarrow> string \<Rightarrow> 'w \<Rightarrow> string \<times> bool \<times> 'w" where
  "set_static run iface p w = run [''netsh'', ''interface'', ''ip'', ''set'', ''dns'', iface, ''static'', p] w"

definition win_recover :: "'w command \<Rightarrow> 'w win \<Rightarrow> 'w win" where
  "win_recover run m =
     (case wcrumb m of
        None \<Rightarrow> m
      | Some data \<Rightarrow>
          let lines = SplitN 2 newline data in
          if length lines \<ge> 2 then
            let prev = TrimSpace (lines ! 0); prevIface = TrimSpace (lines ! 1) in
            if prev \<noteq> [] \<and> prev \<noteq> ''127.0.0.1'' \<and> prevIface \<noteq> [] then
              (case (if prev = ''dhcp'' then set_dhcp run prevIface (wsettings m)
                     else set_static run prevIface prev (wsettings m)) of
                 (_, _, w) \<Rightarrow> m\<lparr>wsettings := w\<rparr>)
            else m
          else m)"

datatype win_error = NetshFailed | SetFailed

definition win_SetSystemDNS ::
    "'w command \<Rightarrow> (string \<Rightarrow> string option \<Rightarrow> string option) \<Rightarrow> 'w win \<Rightarrow> win_error option \<times> 'w win" where
  "win_SetSystemDNS run write m =
     (case detectWindowsInterface run (wsettings m) of
        (None, w) \<Rightarrow> (Some NetshFailed, m\<lparr>wsettings := w\<rparr>)
      | (Some iface, w) \<Rightarrow>
          let m = m\<lparr>wsettings := w, savedInterface := iface\<rparr>;
              m = win_recover run m;
              (currentDNS, w) = getCurrentDNS run iface (wsettings m);
              m = m\<lparr>wsettings := w, wcrumb := write (currentDNS @ [newline] @ iface @ [newline]) (wcrumb m)\<rparr>;
              (out, ok, w) = set_static run iface ''127.0.0.1'' (wsettings m);
              m = m\<lparr>wsettings := w\<rparr>
          in (if ok then None else Some SetFailed, m))"

definition win_RestoreSystemDNS :: "'w command \<Rightarrow> 'w win \<Rightarrow> 'w win" where
  "win_RestoreSystemDNS run m =
     (case wcrumb m of
        None \<Rightarrow>
          let (iface, w) = (if savedInterface m = [] then
                              (case detectWindowsInterface run (wsettings m) of
                                 (None, w) \<Rightarrow> ([], w) | (Some i, w) \<Rightarrow> (i, w))
                            else (savedInterface m, wsettings m));
              m = m\<lparr>wsettings := w\<rparr>
          in if iface \<noteq> [] then (case set_dhcp run iface (wsettings m) of (_, _, w) \<Rightarrow> m\<lparr>wsettings := w\<rparr>) else m
      | Some data \<Rightarrow>
          let lines = SplitN 2 newline data;
              prev = (if length lines \<ge> 1 then TrimSpace (lines ! 0) else ''dhcp'');
              iface = (if length lines \<ge> 2 \<and> TrimSpace (lines ! 1) \<noteq> [] then TrimSpace (lines ! 1) else savedInterface m);
              (_, _, w) = (if prev = [] \<or> prev = ''dhcp'' then set_dhcp run iface (wsettings m)
                           else set_static run iface prev (wsettings m))
          in m\<lparr>wsettings := w, wcrumb := None\<rparr>)"

text \<open>\<open>gecit cleanup\<close>: stale routes, then the settings.\<close>

definition cleanup_routes :: "'w command \<Rightarrow> 'w \<Rightarrow> bool \<times> 'w" where
  "cleanup_routes run w =
     (case run [''route'', ''print'', ''0.0.0.0''] w of
        (out, ok, w) \<Rightarrow>
          if ok \<and> sublist ''10.0.85.1'' out then
            let (_, _, w) = run [''route'', ''delete'', ''0.0.0.0'', ''mask'', ''128.0.0.0''] w;
                (_, _, w) = run [''route'', ''delete'', ''128.0.0.0'', ''mask'', ''128.0.0.0''] w;
                (_, _, w) = run [''route'', ''delete'', ''1.1.1.1''] w;
                (_, _, w) = run [''route'', ''delete'', ''8.8.8.8''] w
            in (True, w)
          else (False, w))"

definition win_platformCleanup :: "'w command \<Rightarrow> 'w win \<Rightarrow> bool \<times> 'w win" where
  "win_platformCleanup run m =
     (let (cleaned, w) = cleanup_routes run (wsettings m);
          m = m\<lparr>wsettings := w\<rparr>
      in case wcrumb m of
           None \<Rightarrow> (cleaned, m)
         | Some data \<Rightarrow>
             let lines = SplitN 2 newline data;
                 prev = TrimSpace (lines ! 0);
                 iface = (if length lines \<ge> 2 \<and> TrimSpace (lines ! 1) \<noteq> [] then TrimSpace (lines ! 1) else ''Ethernet'');
                 (_, _, w) = (if prev = [] \<or> prev = ''dhcp'' then set_dhcp run iface (wsettings m)
                              else set_static run iface prev (wsettings m))
             in (True, m\<lparr>wsettings := w, wcrumb := None\<rparr>))"

definition win_new_process :: "'w win \<Rightarrow> 'w win" where
  "win_new_process m = m\<lparr>savedInterface := []\<rparr>"

section \<open>What the code relies on of netsh and route\<close>

datatype dns_source = Dhcp | Static "string list"

text \<open>The servers in effect: those the network offers, or the configured ones.\<close>

fun in_effect :: "string list \<Rightarrow> dns_source \<Rightarrow> string list" where
  "in_effect offered Dhcp = offered"
| "in_effect offered (Static ss) = ss"

text \<open>
  \<open>iface\<close> is the connected interface of the machine.  \<open>netsh\<close> lists the interfaces, shows the
  servers in effect (IPv4 addresses, which are the words of its output that are addresses),
  and sets an interface to DHCP or to one address.  \<open>route\<close> does not touch these settings.
\<close>

definition ipv4_word :: "string \<Rightarrow> bool" where
  "ipv4_word p \<longleftrightarrow> token p \<and> (case ParseIP p of None \<Rightarrow> False | Some ip \<Rightarrow> To4 ip \<noteq> None)"

definition netsh_spec :: "'w command \<Rightarrow> ('w \<Rightarrow> dns_source) \<Rightarrow> string list \<Rightarrow> string \<Rightarrow> bool" where
  "netsh_spec run source offered iface \<longleftrightarrow>
     (\<forall>w. case run [''netsh'', ''interface'', ''show'', ''interface''] w of
        (out, ok, w') \<Rightarrow> ok \<and> w' = w \<and> connected_interface (Split newline out) = Some iface) \<and>
     (\<forall>w. case run [''netsh'', ''interface'', ''ip'', ''show'', ''dns'', iface] w of
        (out, ok, w') \<Rightarrow> ok \<and> w' = w \<and> filter (\<lambda>p. ParseIP p \<noteq> None) (Fields out) = in_effect offered (source w)) \<and>
     (\<forall>w. list_all ipv4_word (in_effect offered (source w))) \<and>
     (\<forall>w. case set_dhcp run iface w of (out, ok, w') \<Rightarrow> ok \<and> source w' = Dhcp) \<and>
     (\<forall>w p. ipv4_word p \<longrightarrow>
        (case set_static run iface p w of (out, ok, w') \<Rightarrow> ok \<and> source w' = Static [p])) \<and>
     (\<forall>w args. case run (''route'' # args) w of (out, ok, w') \<Rightarrow> source w' = source w)"

section \<open>What each call does\<close>

definition saved_source :: "string list \<Rightarrow> dns_source \<Rightarrow> dns_source" where
  "saved_source offered c = (case find usable (in_effect offered c) of None \<Rightarrow> Dhcp | Some p \<Rightarrow> Static [p])"

definition saved_word :: "dns_source \<Rightarrow> string" where
  "saved_word c = (case c of Static (p # _) \<Rightarrow> p | _ \<Rightarrow> ''dhcp'')"

lemma find_filter: "(\<And>x. P x \<Longrightarrow> Q x) \<Longrightarrow> find P (filter Q xs) = find P xs"
  by (induction xs) auto

lemma usable_parse: "usable p \<Longrightarrow> ParseIP p \<noteq> None"
  by (auto simp: usable_def split: option.splits)

lemma detect_spec:
  assumes "netsh_spec run source offered iface"
  shows "detectWindowsInterface run w = (Some iface, w)"
proof -
  have "case run [''netsh'', ''interface'', ''show'', ''interface''] w of
      (out, ok, w') \<Rightarrow> ok \<and> w' = w \<and> connected_interface (Split newline out) = Some iface"
    using assms unfolding netsh_spec_def by (elim conjE) (drule spec)
  then show ?thesis by (auto simp: detectWindowsInterface_def)
qed

lemma getCurrentDNS_spec:
  assumes "netsh_spec run source offered iface"
  shows "getCurrentDNS run iface w = (saved_word (saved_source offered (source w)), w)"
proof -
  have "case run [''netsh'', ''interface'', ''ip'', ''show'', ''dns'', iface] w of
      (out, ok, w') \<Rightarrow> ok \<and> w' = w \<and> filter (\<lambda>p. ParseIP p \<noteq> None) (Fields out) = in_effect offered (source w)"
    using assms unfolding netsh_spec_def by (elim conjE) (drule spec)
  then obtain out where out: "run [''netsh'', ''interface'', ''ip'', ''show'', ''dns'', iface] w = (out, True, w)"
    "filter (\<lambda>p. ParseIP p \<noteq> None) (Fields out) = in_effect offered (source w)" by auto
  have "find usable (Fields out) = find usable (in_effect offered (source w))"
    unfolding out(2) [symmetric] by (rule find_filter [symmetric]) (rule usable_parse)
  then show ?thesis
    using out(1) by (simp add: getCurrentDNS_def Fields_TrimSpace Fields_lines saved_source_def saved_word_def split: option.split)
qed

lemma set_dhcp_spec:
  assumes "netsh_spec run source offered iface"
  obtains out w' where "set_dhcp run iface w = (out, True, w')" "source w' = Dhcp"
proof -
  have "case set_dhcp run iface w of (out, ok, w') \<Rightarrow> ok \<and> source w' = Dhcp"
    using assms unfolding netsh_spec_def by (elim conjE) (drule spec [of "\<lambda>w. case set_dhcp run iface w of (out, ok, w') \<Rightarrow> ok \<and> source w' = Dhcp"])
  then show thesis by (auto intro: that)
qed

lemma set_static_spec:
  assumes "netsh_spec run source offered iface" "ipv4_word p"
  obtains out w' where "set_static run iface p w = (out, True, w')" "source w' = Static [p]"
proof -
  have "\<forall>w p. ipv4_word p \<longrightarrow> (case set_static run iface p w of (out, ok, w') \<Rightarrow> ok \<and> source w' = Static [p])"
    using assms(1) unfolding netsh_spec_def by (elim conjE)
  from this [THEN spec [of _ w], THEN spec [of _ p]] assms(2)
  show thesis by (auto intro: that)
qed

lemma effect_ipv4:
  assumes "netsh_spec run source offered iface" "s \<in> set (in_effect offered (source w))"
  shows "ipv4_word s"
proof -
  have "\<forall>w. list_all ipv4_word (in_effect offered (source w))"
    using assms(1) unfolding netsh_spec_def by (elim conjE)
  from this [THEN spec [of _ w]] assms(2) show ?thesis by (simp add: list_all_iff)
qed

lemma connected_interface_trimmed: "connected_interface ls = Some i \<Longrightarrow> trimmed i \<and> i \<noteq> []"
proof (induction ls)
  case (Cons line ls)
  let ?f = "Fields (TrimSpace line)"
  have "trimmed (Join (drop 3 ?f) '' '') \<and> Join (drop 3 ?f) '' '' \<noteq> []" if "length ?f \<ge> 4"
    using that by (intro trimmed_Join) (auto dest: in_set_dropD token_Fields)
  with Cons show ?case by (auto simp: Let_def split: if_splits)
qed simp

lemma iface_trimmed:
  assumes "netsh_spec run source offered iface"
  shows "trimmed iface \<and> iface \<noteq> []"
proof -
  have "\<forall>w. case run [''netsh'', ''interface'', ''show'', ''interface''] w of
      (out, ok, w') \<Rightarrow> ok \<and> w' = w \<and> connected_interface (Split newline out) = Some iface"
    using assms unfolding netsh_spec_def by (elim conjE)
  from this [THEN spec [of _ undefined]] show ?thesis by (auto dest: connected_interface_trimmed)
qed

lemma find_SomeD: "find P xs = Some x \<Longrightarrow> x \<in> set xs \<and> P x"
  by (auto simp: find_Some_iff)

text \<open>A source that a breadcrumb can name.\<close>

definition nameable :: "dns_source \<Rightarrow> bool" where
  "nameable c \<longleftrightarrow> c = Dhcp \<or> (\<exists>p. c = Static [p] \<and> usable p \<and> ipv4_word p)"

lemma nameable_saved:
  assumes "netsh_spec run source offered iface"
  shows "nameable (saved_source offered (source w))"
  using effect_ipv4 [OF assms, of _ w]
  by (auto simp: nameable_def saved_source_def split: option.split dest: find_SomeD)

lemma saved_nameable: "nameable c \<Longrightarrow> c = Dhcp \<or> saved_source offered c = c"
  by (auto simp: nameable_def saved_source_def)

lemma usable_not: "usable p \<Longrightarrow> p \<noteq> ''dhcp'' \<and> p \<noteq> ''127.0.0.1'' \<and> p \<noteq> []"
proof -
  have "\<not> usable ''dhcp''" "\<not> usable ''127.0.0.1''" "\<not> usable []" by code_simp+
  then show "usable p \<Longrightarrow> ?thesis" by metis
qed

definition win_crumb :: "dns_source \<Rightarrow> string \<Rightarrow> string" where
  "win_crumb c iface = saved_word c @ [newline] @ iface @ [newline]"

lemma saved_word_cases:
  assumes "nameable c"
  shows "trimmed (saved_word c) \<and> newline \<notin> set (saved_word c) \<and> saved_word c \<noteq> [] \<and> saved_word c \<noteq> ''127.0.0.1''"
proof (cases "c = Dhcp")
  case True
  then show ?thesis by (simp add: saved_word_def trimmed_def is_space_def newline_def)
next
  case False
  with assms show ?thesis by (auto simp: nameable_def saved_word_def ipv4_word_def token_trimmed usable_not)
qed

lemma read_win_crumb:
  assumes "nameable c" "trimmed iface"
  shows "SplitN 2 newline (win_crumb c iface) = [saved_word c, iface @ [newline]]"
    and "TrimSpace (saved_word c) = saved_word c" and "TrimSpace (iface @ [newline]) = iface"
proof -
  have p: "sep \<notin> set x \<Longrightarrow> dropWhile (\<lambda>c. c \<noteq> sep) (x @ sep # t) = sep # t \<and>
      takeWhile (\<lambda>c. c \<noteq> sep) (x @ sep # t) = x" for x t and sep :: char
    by (induction x) auto
  show "SplitN 2 newline (win_crumb c iface) = [saved_word c, iface @ [newline]]"
    using saved_word_cases [OF assms(1)] by (simp add: win_crumb_def p eval_nat_numeral)
qed (use saved_word_cases [OF assms(1)] assms(2) in \<open>simp_all add: TrimSpace_id TrimSpace_line\<close>)

lemma set_saved:
  assumes "netsh_spec run source offered iface" "nameable c"
  obtains out w' where "(if saved_word c = ''dhcp'' then set_dhcp run iface w
      else set_static run iface (saved_word c) w) = (out, True, w')" "source w' = c"
proof (cases "c = Dhcp")
  case True
  then show thesis using set_dhcp_spec [OF assms(1), of w] that by (auto simp: saved_word_def)
next
  case False
  with assms(2) obtain p where c: "c = Static [p]" "usable p" "ipv4_word p" by (auto simp: nameable_def)
  then obtain out w' where "set_static run iface p w = (out, True, w')" "source w' = Static [p]"
    using set_static_spec [OF assms(1)] by blast
  with c usable_not that show thesis by (auto simp: saved_word_def)
qed

text \<open>
  A start from a machine without a breadcrumb, or with that of a crashed run, whose source
  is brought back first.
\<close>

definition win_ready :: "('w \<Rightarrow> dns_source) \<Rightarrow> string \<Rightarrow> dns_source \<Rightarrow> 'w win \<Rightarrow> bool" where
  "win_ready source iface c m \<longleftrightarrow>
     wcrumb m = None \<and> source (wsettings m) = c \<or>
     (\<exists>c0. nameable c0 \<and> c = c0 \<and> wcrumb m = Some (win_crumb c0 iface))"

lemma win_recover_ready:
  assumes spec: "netsh_spec run source offered iface" and r: "win_ready source iface c m"
  shows "\<exists>w. win_recover run m = m\<lparr>wsettings := w\<rparr> \<and> source w = c"
proof (cases "wcrumb m")
  case None
  with r show ?thesis by (intro exI [of _ "wsettings m"]) (simp add: win_ready_def win_recover_def)
next
  case (Some data)
  with r have c: "nameable c" "data = win_crumb c iface" by (auto simp: win_ready_def)
  note i = iface_trimmed [OF spec] and read = read_win_crumb [OF c(1), of iface]
  obtain out w where s: "(if saved_word c = ''dhcp'' then set_dhcp run iface (wsettings m)
      else set_static run iface (saved_word c) (wsettings m)) = (out, True, w)" "source w = c"
    using set_saved [OF spec c(1)] .
  have "win_recover run m = m\<lparr>wsettings := w\<rparr>"
    using Some c(2) i read saved_word_cases [OF c(1)] s(1) by (simp add: win_recover_def Let_def split: if_splits)
  with s(2) show ?thesis by blast
qed

lemma win_Set_result:
  assumes spec: "netsh_spec run source offered iface" and r: "win_ready source iface c m"
  obtains w where "win_SetSystemDNS run (\<lambda>s f. Some s) m =
      (None, \<lparr>wcrumb = Some (win_crumb (saved_source offered c) iface), savedInterface = iface, wsettings = w\<rparr>)"
    "source w = Static [''127.0.0.1'']"
proof -
  let ?m = "m\<lparr>wsettings := wsettings m, savedInterface := iface\<rparr>"
  have "win_ready source iface c ?m" using r by (auto simp: win_ready_def)
  then obtain w1 where w1: "win_recover run ?m = ?m\<lparr>wsettings := w1\<rparr>" "source w1 = c"
    using win_recover_ready [OF spec] by blast
  have "ipv4_word ''127.0.0.1''" by code_simp
  then obtain out w where w: "set_static run iface ''127.0.0.1'' w1 = (out, True, w)" "source w = Static [''127.0.0.1'']"
    using set_static_spec [OF spec] by blast
  show thesis
    by (rule that [OF _ w(2)], cases m)
       (use w1 w(1) in \<open>simp add: win_SetSystemDNS_def detect_spec [OF spec] getCurrentDNS_spec [OF spec] win_crumb_def Let_def\<close>)
qed

lemma win_Restore_result:
  assumes spec: "netsh_spec run source offered iface" and c: "nameable c" "wcrumb m = Some (win_crumb c iface)"
  shows "wcrumb (win_RestoreSystemDNS run m) = None" "source (wsettings (win_RestoreSystemDNS run m)) = c"
proof -
  note i = iface_trimmed [OF spec] and read = read_win_crumb [OF c(1), of iface]
  obtain out w where s: "(if saved_word c = ''dhcp'' then set_dhcp run iface (wsettings m)
      else set_static run iface (saved_word c) (wsettings m)) = (out, True, w)" "source w = c"
    using set_saved [OF spec c(1)] .
  have "win_RestoreSystemDNS run m = m\<lparr>wsettings := w, wcrumb := None\<rparr>"
    using c(2) i read saved_word_cases [OF c(1)] s(1) by (simp add: win_RestoreSystemDNS_def Let_def split: if_splits)
  with s(2) show "wcrumb (win_RestoreSystemDNS run m) = None" "source (wsettings (win_RestoreSystemDNS run m)) = c"
    by simp_all
qed

lemma cleanup_routes_source:
  assumes "netsh_spec run source offered iface"
  shows "source (snd (cleanup_routes run w)) = source w"
proof -
  have "\<forall>w args. case run (''route'' # args) w of (out, ok, w') \<Rightarrow> source w' = source w"
    using assms unfolding netsh_spec_def by (elim conjE)
  then have r: "run (''route'' # args) w = (out, ok, w') \<Longrightarrow> source w' = source w" for args w out ok w'
    by (drule_tac x = w in spec, drule_tac x = args in spec) simp
  show ?thesis
    by (auto simp: cleanup_routes_def split: prod.splits dest!: r)
qed

lemma win_cleanup_result:
  assumes spec: "netsh_spec run source offered iface" and c: "nameable c" "wcrumb m = Some (win_crumb c iface)"
  shows "wcrumb (snd (win_platformCleanup run m)) = None" "source (wsettings (snd (win_platformCleanup run m))) = c"
proof -
  note i = iface_trimmed [OF spec] and read = read_win_crumb [OF c(1), of iface]
  obtain b w0 where r: "cleanup_routes run (wsettings m) = (b, w0)" by fastforce
  obtain out w where s: "(if saved_word c = ''dhcp'' then set_dhcp run iface w0
      else set_static run iface (saved_word c) w0) = (out, True, w)" "source w = c"
    using set_saved [OF spec c(1)] .
  have "win_platformCleanup run m = (True, m\<lparr>wsettings := w, wcrumb := None\<rparr>)"
    using c(2) i read saved_word_cases [OF c(1)] s(1) r by (simp add: win_platformCleanup_def Let_def split: if_splits)
  with s(2) show "wcrumb (snd (win_platformCleanup run m)) = None"
    "source (wsettings (snd (win_platformCleanup run m))) = c" by simp_all
qed

section \<open>Properties\<close>

text \<open>A machine with netsh and route, for the witnesses.\<close>

definition demo_source :: "dns_source \<Rightarrow> dns_source" where
  "demo_source w = (case w of Dhcp \<Rightarrow> Dhcp | Static ss \<Rightarrow> Static (filter ipv4_word ss))"

definition demo_netsh :: "dns_source command" where
  "demo_netsh args w =
     (if args = [''netsh'', ''interface'', ''show'', ''interface''] then
        (''Enabled Connected Dedicated Local Area'', True, w)
      else if args = [''netsh'', ''interface'', ''ip'', ''show'', ''dns'', ''Local Area''] then
        (Join (in_effect [''192.168.1.1''] (demo_source w)) '' '', True, w)
      else if args = [''netsh'', ''interface'', ''ip'', ''set'', ''dns'', ''Local Area'', ''dhcp''] then ([], True, Dhcp)
      else if take 7 args = [''netsh'', ''interface'', ''ip'', ''set'', ''dns'', ''Local Area'', ''static''] then
        ([], True, Static [args ! 7])
      else ([], False, w))"

definition demo_win :: "dns_source \<Rightarrow> dns_source win" where
  "demo_win c = \<lparr>wcrumb = None, savedInterface = [], wsettings = c\<rparr>"

lemma demo_netsh_spec: "netsh_spec demo_netsh demo_source [''192.168.1.1''] ''Local Area''"
  unfolding netsh_spec_def
proof (intro conjI allI impI)
  have l: "connected_interface (Split newline ''Enabled Connected Dedicated Local Area'') = Some ''Local Area''" by code_simp
  show "case demo_netsh [''netsh'', ''interface'', ''show'', ''interface''] w of
      (out, ok, w') \<Rightarrow> ok \<and> w' = w \<and> connected_interface (Split newline out) = Some ''Local Area''" for w
    using l by (simp add: demo_netsh_def)
  have d: "ipv4_word ''192.168.1.1''" by code_simp
  show e: "list_all ipv4_word (in_effect [''192.168.1.1''] (demo_source w))" for w
    using d by (cases w) (auto simp: demo_source_def list_all_iff)
  have "ipv4_word p \<Longrightarrow> token p \<and> ParseIP p \<noteq> None" for p by (auto simp: ipv4_word_def split: option.splits)
  then have "\<forall>p \<in> set (in_effect [''192.168.1.1''] (demo_source w)). ParseIP p \<noteq> None \<and> token p" for w
    using e [of w] by (auto simp: list_all_iff)
  moreover have "is_space (CHR '' '')" by (simp add: is_space_def)
  ultimately have "filter (\<lambda>p. ParseIP p \<noteq> None) (Fields (Join (in_effect [''192.168.1.1''] (demo_source w)) '' '')) =
      in_effect [''192.168.1.1''] (demo_source w)" for w
    by (simp add: Fields_Join)
  then show "case demo_netsh [''netsh'', ''interface'', ''ip'', ''show'', ''dns'', ''Local Area''] w of
      (out, ok, w') \<Rightarrow> ok \<and> w' = w \<and>
        filter (\<lambda>p. ParseIP p \<noteq> None) (Fields out) = in_effect [''192.168.1.1''] (demo_source w)" for w
    by (simp add: demo_netsh_def)
  show "case set_dhcp demo_netsh ''Local Area'' w of (out, ok, w') \<Rightarrow> ok \<and> demo_source w' = Dhcp" for w
    by (simp add: set_dhcp_def demo_netsh_def demo_source_def)
  show "case set_static demo_netsh ''Local Area'' p w of (out, ok, w') \<Rightarrow> ok \<and> demo_source w' = Static [p]"
    if "ipv4_word p" for w p
    using that by (simp add: set_static_def demo_netsh_def demo_source_def)
  show "case demo_netsh (''route'' # args) w of (out, ok, w') \<Rightarrow> demo_source w' = demo_source w" for w args
    by (simp add: demo_netsh_def)
qed

lemma win_Set_and_Restore:
  assumes "netsh_spec run source offered iface" and "wcrumb m = None"
  shows "case win_SetSystemDNS run (\<lambda>s f. Some s) m of (err, m1) \<Rightarrow>
    err = None \<and> source (wsettings m1) = Static [''127.0.0.1''] \<and>
    source (wsettings (win_RestoreSystemDNS run m1)) =
      saved_source offered (source (wsettings m)) \<and>
    wcrumb (win_RestoreSystemDNS run m1) = None"
proof -
  let ?c = "source (wsettings m)"
  have "win_ready source iface ?c m" using assms(2) by (simp add: win_ready_def)
  then obtain w where s: "win_SetSystemDNS run (\<lambda>s f. Some s) m =
      (None, \<lparr>wcrumb = Some (win_crumb (saved_source offered ?c) iface), savedInterface = iface, wsettings = w\<rparr>)"
    "source w = Static [''127.0.0.1'']" using win_Set_result [OF assms(1)] by blast
  from win_Restore_result [OF assms(1) nameable_saved [OF assms(1)],
      of "\<lparr>wcrumb = Some (win_crumb (saved_source offered ?c) iface), savedInterface = iface, wsettings = w\<rparr>" "wsettings m"] s
  show ?thesis by (simp add: saved_source_def)
qed

text \<open>
  C38: Windows: \<open>SetSystemDNS\<close> makes 127.0.0.1 the only server of the connected interface, and
  \<open>RestoreSystemDNS\<close> then leaves it with the first server that was in effect, as a static
  setting, or with DHCP when there was none, and removes the breadcrumb.  The settings come
  back as they were exactly when they were a single static server, or DHCP without a server
  on offer: a host on DHCP is left with a fixed address, and a list of servers is cut to
  one.
\<close>

theorem win_restore_keeps_first_server:
  assumes "netsh_spec run source offered iface" and "wcrumb m = None"
  shows "case win_SetSystemDNS run (\<lambda>s f. Some s) m of (err, m1) \<Rightarrow>
    err = None \<and> source (wsettings m1) = Static [''127.0.0.1''] \<and>
    source (wsettings (win_RestoreSystemDNS run m1)) =
      (case find usable (in_effect offered (source (wsettings m))) of None \<Rightarrow> Dhcp | Some p \<Rightarrow> Static [p]) \<and>
    wcrumb (win_RestoreSystemDNS run m1) = None"
  using win_Set_and_Restore [OF assms] by (simp add: saved_source_def)

theorem win_restore_keeps_first_server_witness:
  "case win_SetSystemDNS demo_netsh (\<lambda>s f. Some s) (demo_win Dhcp) of (err, m1) \<Rightarrow>
     err = None \<and> demo_source (wsettings (win_RestoreSystemDNS demo_netsh m1)) = Static [''192.168.1.1'']"
proof -
  have "find usable (in_effect [''192.168.1.1''] (demo_source (wsettings (demo_win Dhcp)))) = Some ''192.168.1.1''" by code_simp
  with win_restore_keeps_first_server [OF demo_netsh_spec, of "demo_win Dhcp"]
  show ?thesis by (simp add: demo_win_def split: prod.splits)
qed

text \<open>
  Windows: a crash loses nothing more than a stop does.  After a run that was killed, both
  the next run with its stop and \<open>gecit cleanup\<close> leave the connected interface with the
  first server that was in effect before the killed run, and remove the breadcrumb.
\<close>

theorem win_crash_recovers:
  assumes "netsh_spec run source offered iface" and "wcrumb m = None"
    and "find usable (in_effect offered (source (wsettings m))) = Some p"
  shows "let crashed = win_new_process (snd (win_SetSystemDNS run (\<lambda>s f. Some s) m));
      restarted = win_RestoreSystemDNS run (snd (win_SetSystemDNS run (\<lambda>s f. Some s) crashed));
      cleaned = snd (win_platformCleanup run crashed)
    in source (wsettings crashed) = Static [''127.0.0.1''] \<and>
      source (wsettings restarted) = Static [p] \<and> wcrumb restarted = None \<and>
      source (wsettings cleaned) = Static [p] \<and> wcrumb cleaned = None"
proof -
  note spec = assms(1)
  let ?c = "source (wsettings m)" and ?crashed = "win_new_process (snd (win_SetSystemDNS run (\<lambda>s f. Some s) m))"
  have c: "saved_source offered ?c = Static [p]" using assms(3) by (simp add: saved_source_def)
  then have n: "nameable (Static [p])" using nameable_saved [OF spec, of "wsettings m"] by simp
  then have c': "saved_source offered (Static [p]) = Static [p]" using saved_nameable by blast
  have "win_ready source iface ?c m" using assms(2) by (simp add: win_ready_def)
  then obtain w where s: "win_SetSystemDNS run (\<lambda>s f. Some s) m =
      (None, \<lparr>wcrumb = Some (win_crumb (saved_source offered ?c) iface), savedInterface = iface, wsettings = w\<rparr>)"
    "source w = Static [''127.0.0.1'']" using win_Set_result [OF spec] by blast
  have k: "?crashed = \<lparr>wcrumb = Some (win_crumb (Static [p]) iface), savedInterface = [], wsettings = w\<rparr>"
    by (simp add: s(1) c win_new_process_def)
  then have "win_ready source iface (Static [p]) ?crashed" using n by (auto simp: win_ready_def)
  then obtain w2 where s2: "win_SetSystemDNS run (\<lambda>s f. Some s) ?crashed =
      (None, \<lparr>wcrumb = Some (win_crumb (saved_source offered (Static [p])) iface), savedInterface = iface, wsettings = w2\<rparr>)"
    using win_Set_result [OF spec] by blast
  have "wcrumb ?crashed = Some (win_crumb (Static [p]) iface)" using k by simp
  note cleaned = win_cleanup_result [OF spec n this]
  have "wcrumb (snd (win_SetSystemDNS run (\<lambda>s f. Some s) ?crashed)) = Some (win_crumb (Static [p]) iface)"
    using s2 c' by simp
  note restarted = win_Restore_result [OF spec n this]
  show ?thesis unfolding Let_def using cleaned restarted k s(2) by simp
qed

theorem win_crash_recovers_witness:
  "let crashed = win_new_process (snd (win_SetSystemDNS demo_netsh (\<lambda>s f. Some s) (demo_win (Static [''9.9.9.9'']))))
   in demo_source (wsettings crashed) = Static [''127.0.0.1''] \<and>
      demo_source (wsettings (snd (win_platformCleanup demo_netsh crashed))) = Static [''9.9.9.9'']"
proof -
  have "find usable (in_effect [''192.168.1.1''] (demo_source (wsettings (demo_win (Static [''9.9.9.9'']))))) = Some ''9.9.9.9''"
    by code_simp
  from win_crash_recovers [OF demo_netsh_spec _ this] show ?thesis
    unfolding Let_def by (simp add: demo_win_def)
qed

end
