(* ===== verification/Engines.thy ===== *)
theory Engines
  imports Ebpf_Lifecycle Tun_Manager Mac_Dns Windows_Dns
begin

text \<open>
  A run of the program from the command line (\<open>src/cmd/gecit/app/run.go\<close>) over the engine
  interface (\<open>src/pkg/engine/engine.go\<close>), the TUN engine of macOS and Windows
  (\<open>src/cmd/gecit/app/run_tun.go\<close>), and what every engine promises: the machine is left as it
  was found.  The promise is a locale; the runs are proved once inside it and it is
  interpreted on the Linux engine and on the TUN engine of both systems.
\<close>

section \<open>The TUN engine\<close>

text \<open>
  The system resolver as the engine sees it: the two operations of the platform's
  \<open>system_*.go\<close>.  \<open>stopSystemDNS\<close> and \<open>resumeSystemDNS\<close> restart the system's responder and do
  not touch its settings; they are in \<open>Dns_Port\<close>.
\<close>

record 'd system_ops =
  op_set :: "'d \<Rightarrow> bool \<times> 'd"
  op_restore :: "'d \<Rightarrow> 'd"

definition darwin_ops :: "'w exec \<Rightarrow> (string \<Rightarrow> string option \<Rightarrow> string option) \<Rightarrow> 'w mac system_ops" where
  "darwin_ops run write =
     \<lparr>op_set = mac_SetSystemDNS run write None, op_restore = mac_RestoreSystemDNS run None\<rparr>"

definition windows_ops :: "'w command \<Rightarrow> (string \<Rightarrow> string option \<Rightarrow> string option) \<Rightarrow> 'w win system_ops" where
  "windows_ops run write =
     \<lparr>op_set = (\<lambda>m. case win_SetSystemDNS run write m of (e, m) \<Rightarrow> (e = None, m)),
      op_restore = win_RestoreSystemDNS run\<rparr>"

record 'd tun_host =
  th_dns :: 'd
  th_dns_running :: bool
  th_mgr :: tun_manager
  th_open :: "tun_resource set"

record tun_engine_env =
  te_interface :: string
  te_doh :: bool
  te_dns_ok :: bool
  te_mgr :: tun_env

datatype tun_engine_error = TunDnsServer | TunSystemDNS | TunManager tun_error

definition tunEngine_Start ::
    "'d system_ops \<Rightarrow> tun_engine_env \<Rightarrow> 'd tun_host \<Rightarrow> tun_engine_error option \<times> 'd tun_host" where
  "tunEngine_Start ops env h =
     (let start_mgr = (\<lambda>h.
            case tun_Start (te_mgr env) (th_mgr h, th_open h) of
              (None, m, opn) \<Rightarrow> (None, h\<lparr>th_mgr := m, th_open := opn\<rparr>)
            | (Some e, m, opn) \<Rightarrow>
                let h = h\<lparr>th_mgr := m, th_open := opn\<rparr>;
                    h = (if te_doh env
                         then h\<lparr>th_dns := op_restore ops (th_dns h), th_dns_running := False\<rparr> else h)
                in (Some (TunManager e), h))
      in
      if te_doh env then
        if \<not> te_dns_ok env then (Some TunDnsServer, h)
        else
          let h = h\<lparr>th_dns_running := True\<rparr> in
          (case op_set ops (th_dns h) of
             (False, d) \<Rightarrow> (Some TunSystemDNS, h\<lparr>th_dns := d, th_dns_running := False\<rparr>)
           | (True, d) \<Rightarrow> start_mgr (h\<lparr>th_dns := d\<rparr>))
      else start_mgr h)"

definition tunEngine_Stop :: "'d system_ops \<Rightarrow> tun_engine_env \<Rightarrow> 'd tun_host \<Rightarrow> 'd tun_host" where
  "tunEngine_Stop ops env h =
     (let h = h\<lparr>th_open := tun_Stop (th_mgr h, th_open h)\<rparr>
      in if te_doh env
         then h\<lparr>th_dns := op_restore ops (th_dns h), th_dns_running := False\<rparr>
         else h)"

text \<open>A process builds its engine (\<open>newPlatformEngine\<close>) before it starts it, and has nothing open.\<close>

definition newTunEngine :: "tun_engine_env \<Rightarrow> 'd tun_host \<Rightarrow> 'd tun_host" where
  "newTunEngine env h = h\<lparr>th_mgr := fresh_tun_manager (te_interface env), th_open := {}\<rparr>"

section \<open>What an engine promises\<close>

text \<open>
  \<open>start\<close> and \<open>stop\<close> are the operations of \<open>engine.Engine\<close>; \<open>ok\<close> says what is asked of the
  environment, \<open>fit\<close> of the machine, and \<open>kept h h'\<close> that \<open>h'\<close> is as \<open>h\<close> was.
\<close>

locale dpi_engine =
  fixes start :: "'env \<Rightarrow> 'h \<Rightarrow> 'e option \<times> 'h" and stop :: "'env \<Rightarrow> 'h \<Rightarrow> 'h"
    and ok :: "'env \<Rightarrow> bool" and fit :: "'h \<Rightarrow> bool" and kept :: "'h \<Rightarrow> 'h \<Rightarrow> bool"
  assumes failed_start: "ok env \<Longrightarrow> fit h \<Longrightarrow> start env h = (Some e, h') \<Longrightarrow> kept h h'"
    and stopped: "ok env \<Longrightarrow> fit h \<Longrightarrow> start env h = (None, h') \<Longrightarrow> kept h (stop env h')"
    and kept_refl: "fit h \<Longrightarrow> kept h h"
    and kept_trans: "kept h h' \<Longrightarrow> kept h' h'' \<Longrightarrow> kept h h''"
    and kept_fit: "fit h \<Longrightarrow> kept h h' \<Longrightarrow> fit h'"

text \<open>
  \<open>runEngine\<close>: it checks the privileges, starts, waits for the signal and stops.
\<close>

datatype 'e run_error = NotPrivileged | EngineError 'e

definition runEngine ::
    "('env \<Rightarrow> 'h \<Rightarrow> 'e option \<times> 'h) \<Rightarrow> ('env \<Rightarrow> 'h \<Rightarrow> 'h) \<Rightarrow> bool \<Rightarrow> 'env \<Rightarrow> 'h \<Rightarrow> 'e run_error option \<times> 'h" where
  "runEngine start stop privileged env h =
     (if \<not> privileged then (Some NotPrivileged, h)
      else case start env h of
          (Some e, h) \<Rightarrow> (Some (EngineError e), h)
        | (None, h) \<Rightarrow> (None, stop env h))"

definition run_all ::
    "('env \<Rightarrow> 'h \<Rightarrow> 'e option \<times> 'h) \<Rightarrow> ('env \<Rightarrow> 'h \<Rightarrow> 'h) \<Rightarrow> (bool \<times> 'env) list \<Rightarrow> 'h \<Rightarrow> 'h" where
  "run_all start stop = fold (\<lambda>(privileged, env) h. snd (runEngine start stop privileged env h))"

context dpi_engine
begin

lemma run_kept: "ok env \<Longrightarrow> fit h \<Longrightarrow> kept h (snd (runEngine start stop p env h))"
  by (auto simp: runEngine_def kept_refl intro: failed_start stopped split: prod.split option.split)

lemma runs_kept: "\<forall>(p, env) \<in> set envs. ok env \<Longrightarrow> fit h \<Longrightarrow> kept h (run_all start stop envs h)"
proof (induction envs arbitrary: h)
  case Nil
  then show ?case by (simp add: run_all_def kept_refl)
next
  case (Cons pe envs)
  obtain p env where pe: "pe = (p, env)" by fastforce
  have "kept h (snd (runEngine start stop p env h))" using Cons.prems pe by (auto intro: run_kept)
  moreover from this have "fit (snd (runEngine start stop p env h))" using Cons.prems by (blast intro: kept_fit)
  ultimately show ?case
    using Cons.IH [of "snd (runEngine start stop p env h)"] Cons.prems pe
    by (auto simp: run_all_def intro: kept_trans)
qed

end

section \<open>Linux\<close>

text \<open>
  A run is a process: it builds its manager from its configuration (\<open>newPlatformEngine\<close>), and has
  nothing open, the kernel having released what an earlier process left.
\<close>

definition linux_run_start :: "config \<times> engine_env \<Rightarrow> host \<Rightarrow> engine_error option \<times> host" where
  "linux_run_start run h =
     ebpfEngine_Start (snd run) (h\<lparr>hmgr := fresh_manager (fst run), hkernel := (hkernel h)\<lparr>opened := {}\<rparr>\<rparr>)"

definition linux_run_stop :: "config \<times> engine_env \<Rightarrow> host \<Rightarrow> host" where
  "linux_run_stop run h = ebpfEngine_Stop (snd run) h"

text \<open>
  What is asked of a run, in two parts that can be asked for separately: for the resolver file,
  that its writes either all succeed or are all refused; for the kernel, that the loaded object
  has the program.  Nothing is asked of the other steps, nor for the DNS server.
\<close>

definition linux_ok :: "bool \<Rightarrow> bool \<Rightarrow> config \<times> engine_env \<Rightarrow> bool" where
  "linux_ok files prog run \<longleftrightarrow>
     (files \<longrightarrow> write_succeeds (write_file (snd run)) \<or> write_refused (write_file (snd run))) \<and>
     (prog \<longrightarrow> has_program (mgr_env (snd run)))"

definition linux_fit :: "bool \<Rightarrow> host \<Rightarrow> bool" where
  "linux_fit prog h \<longleftrightarrow> \<not> dns_running h \<and> opened (hkernel h) \<subseteq> (if prog then {} else {Collection})"

definition linux_kept :: "bool \<Rightarrow> bool \<Rightarrow> host \<Rightarrow> host \<Rightarrow> bool" where
  "linux_kept files prog h h' \<longleftrightarrow> (files \<longrightarrow> servers_kept (resolv_file h) (resolv_file h')) \<and>
     \<not> dns_running h' \<and> opened (hkernel h') \<subseteq> (if prog then {} else {Collection})"

text \<open>How the start of the manager ends, from nothing open.\<close>

lemma Start_failed_open:
  assumes "opened k = {}" and "Start env m k = (Some e, m', k')"
  shows "opened k' \<subseteq> {Collection}" and "has_program env \<Longrightarrow> opened k' = {}"
  using Start_settles [OF assms(1), of env m] Start_no_program [OF assms(1) _ assms(2)] assms(2)
  by (cases "has_program env"; auto split: if_splits)+

lemma Start_success_released:
  assumes "opened k = {}" and "Start env m k = (None, m', k')"
  shows "opened (snd (Stop m' k')) = {}"
proof -
  have "has_program env" using Start_no_program [OF assms(1) _ assms(2)] by auto
  from Start_settles [OF assms(1) this, of m] assms(2) show ?thesis by (simp add: started_def Stop_releases)
qed

lemma linux_failed_start:
  assumes "linux_ok files prog run" "linux_fit prog h" "linux_run_start run h = (Some e, h')"
  shows "linux_kept files prog h h'"
proof -
  obtain cfg env where run: "run = (cfg, env)" by fastforce
  let ?k = "(hkernel h)\<lparr>opened := {}\<rparr>"
  note s = linux_run_start_def ebpfEngine_Start_def Let_def linux_kept_def
  have k: "opened ?k = {}" by simp
  have d: "\<not> dns_running h" using assms(2) by (simp add: linux_fit_def)
  show ?thesis
  proof (cases "doh_enabled env \<and> (\<not> dns_start_ok env \<or> snd (SetSystemDNS (write_file env) (resolv_file h)) \<noteq> None)")
    case True
    with assms d show ?thesis
      by (auto simp: run s linux_ok_def servers_kept_refl split: prod.splits option.splits if_splits intro: SetSystemDNS_failed)
  next
    case False
    then obtain e' m k where m: "Start (mgr_env env) (fresh_manager cfg) ?k = (Some e', m, k)"
      using assms(3) by (auto simp: run s split: prod.splits option.splits if_splits)
    have o: "opened k \<subseteq> (if prog then {} else {Collection})"
      using Start_failed_open [OF k m] assms(1) by (auto simp: linux_ok_def run)
    show ?thesis
    proof (cases "doh_enabled env")
      case True
      with False obtain f where f: "SetSystemDNS (write_file env) (resolv_file h) = (f, None)"
        by (metis prod.collapse)
      with True False m o assms(1,3) show ?thesis
        by (auto simp: run s linux_ok_def intro: Set_Restore_kept)
    next
      case no: False
      with m o d assms(3) show ?thesis by (auto simp: run s servers_kept_refl)
    qed
  qed
qed

lemma linux_stopped:
  assumes "linux_ok files prog run" "linux_fit prog h" "linux_run_start run h = (None, h')"
  shows "linux_kept files prog h (linux_run_stop run h')"
proof -
  obtain cfg env where run: "run = (cfg, env)" by fastforce
  let ?k = "(hkernel h)\<lparr>opened := {}\<rparr>"
  note s = linux_run_start_def linux_run_stop_def ebpfEngine_Start_def ebpfEngine_Stop_def Let_def linux_kept_def
  obtain m k where m: "Start (mgr_env env) (fresh_manager cfg) ?k = (None, m, k)"
    using assms(3) by (auto simp: run s split: prod.splits option.splits if_splits)
  have o: "opened (snd (Stop m k)) = {}" using Start_success_released [OF _ m] by simp
  have d: "\<not> dns_running h" using assms(2) by (simp add: linux_fit_def)
  show ?thesis
  proof (cases "doh_enabled env")
    case True
    then obtain f where f: "SetSystemDNS (write_file env) (resolv_file h) = (f, None)"
      using assms(3) by (auto simp: run s split: prod.splits option.splits if_splits)
    with True m o assms(1,3) show ?thesis
      by (cases "Stop m k") (auto simp: run s linux_ok_def intro: Set_Restore_kept split: if_splits)
  next
    case False
    with m o d assms(3) show ?thesis by (cases "Stop m k") (auto simp: run s servers_kept_refl)
  qed
qed

interpretation linux: dpi_engine linux_run_start linux_run_stop "linux_ok files prog" "linux_fit prog" "linux_kept files prog"
  for files prog
proof unfold_locales
  show "linux_kept files prog h h'"
    if "linux_ok files prog run" "linux_fit prog h" "linux_run_start run h = (Some e, h')" for run h e h'
    using that by (rule linux_failed_start)
  show "linux_kept files prog h (linux_run_stop run h')"
    if "linux_ok files prog run" "linux_fit prog h" "linux_run_start run h = (None, h')" for run h h'
    using that by (rule linux_stopped)
qed (auto simp: linux_fit_def linux_kept_def servers_kept_refl intro: servers_kept_trans)

section \<open>macOS and Windows\<close>

text \<open>
  What the TUN engine asks of the platform's resolver settings: setting succeeds, and restoring
  after it brings the settings back.
\<close>

locale tun_resolver =
  fixes ops :: "'d system_ops" and fit_dns :: "'d \<Rightarrow> bool" and kept_dns :: "'d \<Rightarrow> 'd \<Rightarrow> bool"
  assumes undo: "fit_dns d \<Longrightarrow> \<exists>d'. op_set ops d = (True, d') \<and> kept_dns d (op_restore ops d')"
    and kept_dns_refl: "fit_dns d \<Longrightarrow> kept_dns d d"
    and kept_dns_trans: "kept_dns d d' \<Longrightarrow> kept_dns d' d'' \<Longrightarrow> kept_dns d d''"
    and kept_dns_fit: "fit_dns d \<Longrightarrow> kept_dns d d' \<Longrightarrow> fit_dns d'"

definition tun_fit :: "('d \<Rightarrow> bool) \<Rightarrow> 'd tun_host \<Rightarrow> bool" where
  "tun_fit fit_dns h \<longleftrightarrow> fit_dns (th_dns h) \<and> \<not> th_dns_running h \<and> th_open h \<inter> {TunDevice, RawSocket} = {}"

definition tun_kept :: "('d \<Rightarrow> 'd \<Rightarrow> bool) \<Rightarrow> 'd tun_host \<Rightarrow> 'd tun_host \<Rightarrow> bool" where
  "tun_kept kept_dns h h' \<longleftrightarrow>
     kept_dns (th_dns h) (th_dns h') \<and> \<not> th_dns_running h' \<and> th_open h' \<inter> {TunDevice, RawSocket} = {}"

definition tun_run_start ::
    "'d system_ops \<Rightarrow> tun_engine_env \<Rightarrow> 'd tun_host \<Rightarrow> tun_engine_error option \<times> 'd tun_host" where
  "tun_run_start ops env h = tunEngine_Start ops env (newTunEngine env h)"

lemma tun_Start_failed_open:
  "tun_Start env (fresh_tun_manager iface, {}) = (Some e, m, opn) \<Longrightarrow> opn \<inter> {TunDevice, RawSocket} = {}"
  by (auto simp: tun_defs fresh_tun_manager_def split: if_splits)

lemma tun_Stop_open:
  assumes "tun_Start env (fresh_tun_manager iface, {}) = (None, m, opn)"
  shows "tun_Stop (m, opn) \<inter> {TunDevice, RawSocket} = {}"
  using tun_Start_success [OF assms] by (auto simp: tun_Stop_def)

sublocale tun_resolver \<subseteq> tun: dpi_engine "tun_run_start ops" "tunEngine_Stop ops" "\<lambda>_. True"
  "tun_fit fit_dns" "tun_kept kept_dns"
proof unfold_locales
  fix env :: tun_engine_env and h h' :: "'d tun_host" and e
  assume "tun_fit fit_dns h"
  then have f: "fit_dns (th_dns h)" "\<not> th_dns_running h" "th_open h \<inter> {TunDevice, RawSocket} = {}"
    by (auto simp: tun_fit_def)
  obtain d where d: "op_set ops (th_dns h) = (True, d)" "kept_dns (th_dns h) (op_restore ops d)"
    using undo [OF f(1)] by blast
  note s = tun_run_start_def tunEngine_Start_def newTunEngine_def Let_def tun_kept_def
  show "tun_kept kept_dns h h'" if "tun_run_start ops env h = (Some e, h')"
    using that f d kept_dns_refl [OF f(1)] tun_Start_failed_open
    by (auto simp: s split: if_splits prod.splits option.splits)
  show "tun_kept kept_dns h (tunEngine_Stop ops env h')" if "tun_run_start ops env h = (None, h')"
    using that f d kept_dns_refl [OF f(1)] tun_Stop_open
    by (auto simp: s tunEngine_Stop_def split: if_splits prod.splits option.splits)
next
  fix h h' h'' :: "'d tun_host"
  show "tun_fit fit_dns h \<Longrightarrow> tun_kept kept_dns h h" by (simp add: tun_fit_def tun_kept_def kept_dns_refl)
  show "tun_kept kept_dns h h' \<Longrightarrow> tun_kept kept_dns h' h'' \<Longrightarrow> tun_kept kept_dns h h''"
    by (auto simp: tun_kept_def intro: kept_dns_trans)
  show "tun_fit fit_dns h \<Longrightarrow> tun_kept kept_dns h h' \<Longrightarrow> tun_fit fit_dns h'"
    by (auto simp: tun_fit_def tun_kept_def intro: kept_dns_fit)
qed

definition mac_fit ::
    "'w exec \<Rightarrow> ('w \<Rightarrow> string \<Rightarrow> string list option) \<Rightarrow> (string \<Rightarrow> bool) \<Rightarrow> 'w mac \<Rightarrow> bool" where
  "mac_fit run servers valid m \<longleftrightarrow>
     networksetup_spec run servers valid \<and> breadcrumb m = None \<and> servers (settings m) ''Wi-Fi'' \<noteq> None"

definition mac_kept :: "('w \<Rightarrow> string \<Rightarrow> string list option) \<Rightarrow> 'w mac \<Rightarrow> 'w mac \<Rightarrow> bool" where
  "mac_kept servers m m' \<longleftrightarrow>
     servers (settings m') = servers (settings m) \<and> (breadcrumb m = None \<longrightarrow> breadcrumb m' = None)"

lemma mac_undo:
  assumes "mac_fit run servers valid m"
  shows "\<exists>m'. op_set (darwin_ops run wr) m = (True, m') \<and> mac_kept servers m (op_restore (darwin_ops run wr) m')"
proof -
  from assms obtain ss where spec: "networksetup_spec run servers valid"
    and b: "breadcrumb m = None" and ss: "servers (settings m) ''Wi-Fi'' = Some ss"
    by (auto simp: mac_fit_def)
  obtain ok m1 where s: "mac_SetSystemDNS run wr None m = (ok, m1)" by fastforce
  with mac_Set_and_Restore [OF spec b, OF ss, of wr] show ?thesis
    by (simp add: mac_kept_def darwin_ops_def)
qed

interpretation mac: tun_resolver "darwin_ops run wr" "mac_fit run servers valid" "mac_kept servers"
  for run :: "'w exec" and wr servers valid
proof unfold_locales
  show "\<exists>d'. op_set (darwin_ops run wr) d = (True, d') \<and> mac_kept servers d (op_restore (darwin_ops run wr) d')"
    if "mac_fit run servers valid d" for d using that by (rule mac_undo)
qed (auto simp: mac_fit_def mac_kept_def)

text \<open>On Windows the settings come back when a breadcrumb can name them.\<close>

definition win_fit :: "'w command \<Rightarrow> ('w \<Rightarrow> dns_source) \<Rightarrow> string list \<Rightarrow> string \<Rightarrow> 'w win \<Rightarrow> bool" where
  "win_fit run source offered iface m \<longleftrightarrow>
     netsh_spec run source offered iface \<and> wcrumb m = None \<and>
     saved_source offered (source (wsettings m)) = source (wsettings m)"

definition win_kept :: "('w \<Rightarrow> dns_source) \<Rightarrow> 'w win \<Rightarrow> 'w win \<Rightarrow> bool" where
  "win_kept source m m' \<longleftrightarrow>
     source (wsettings m') = source (wsettings m) \<and> (wcrumb m = None \<longrightarrow> wcrumb m' = None)"

lemma win_undo:
  assumes "win_fit run source offered iface m"
  shows "\<exists>m'. op_set (windows_ops run (\<lambda>s f. Some s)) m = (True, m') \<and>
    win_kept source m (op_restore (windows_ops run (\<lambda>s f. Some s)) m')"
proof -
  from assms have spec: "netsh_spec run source offered iface" and b: "wcrumb m = None"
    and s: "saved_source offered (source (wsettings m)) = source (wsettings m)"
    by (auto simp: win_fit_def)
  from win_Set_and_Restore [OF spec b] s show ?thesis
    by (auto simp: win_kept_def windows_ops_def split: prod.splits)
qed

interpretation windows: tun_resolver "windows_ops run (\<lambda>s f. Some s)" "win_fit run source offered iface" "win_kept source"
  for run :: "'w command" and source offered iface
proof unfold_locales
  show "\<exists>d'. op_set (windows_ops run (\<lambda>s f. Some s)) d = (True, d') \<and>
      win_kept source d (op_restore (windows_ops run (\<lambda>s f. Some s)) d')"
    if "win_fit run source offered iface d" for d using that by (rule win_undo)
qed (auto simp: win_fit_def win_kept_def)

section \<open>Properties\<close>


text \<open>Runs that succeed, fail or are refused, the last with an object that has no program.\<close>

definition demo_refused :: file_write where
  "demo_refused s f = (f, False)"

definition demo_runs :: "(bool \<times> config \<times> engine_env) list" where
  "demo_runs =
     [(True, demo_cfg, demo_engine_env), (False, demo_cfg, demo_engine_env),
      (True, demo_cfg, demo_engine_env\<lparr>dns_start_ok := False\<rparr>),
      (True, demo_cfg, demo_engine_env\<lparr>write_file := demo_refused\<rparr>),
      (True, demo_cfg, demo_engine_env\<lparr>mgr_env := demo_start_env\<lparr>has_program := False\<rparr>\<rparr>)]"


text \<open>
  C11: macOS: any number of runs of the program, each with its own configuration and its own
  failures, leaves the DNS settings of every network service as they were and no breadcrumb
  behind, with the DNS server stopped and neither the TUN device (whose routes capture all
  traffic) nor the raw socket open.
\<close>

theorem mac_runs_keep_host:
  assumes "networksetup_spec run servers valid" and "breadcrumb (th_dns h) = None"
    and "servers (settings (th_dns h)) ''Wi-Fi'' = Some ss" and "\<not> th_dns_running h" and "th_open h = {}"
  shows "let h' = run_all (tun_run_start (darwin_ops run wr)) (tunEngine_Stop (darwin_ops run wr)) envs h in
    servers (settings (th_dns h')) = servers (settings (th_dns h)) \<and> breadcrumb (th_dns h') = None \<and>
    \<not> th_dns_running h' \<and> TunDevice \<notin> th_open h' \<and> RawSocket \<notin> th_open h'"
proof -
  have "tun_fit (mac_fit run servers valid) h" using assms by (simp add: tun_fit_def mac_fit_def)
  then have "tun_kept (mac_kept servers) h (run_all (tun_run_start (darwin_ops run wr)) (tunEngine_Stop (darwin_ops run wr)) envs h)"
    by (intro mac.tun.runs_kept) auto
  then show ?thesis using assms(2) by (auto simp: tun_kept_def mac_kept_def Let_def)
qed

definition demo_tun_engine_env :: tun_engine_env where
  "demo_tun_engine_env = \<lparr>te_interface = [], te_doh = True, te_dns_ok = True, te_mgr = demo_tun_env\<rparr>"

definition demo_tun_runs :: "(bool \<times> tun_engine_env) list" where
  "demo_tun_runs =
     [(True, demo_tun_engine_env), (True, demo_tun_engine_env\<lparr>te_mgr := demo_tun_env\<lparr>stack_ok := False\<rparr>\<rparr>)]"

definition demo_tun_host :: "'d \<Rightarrow> 'd tun_host" where
  "demo_tun_host d = \<lparr>th_dns = d, th_dns_running = False, th_mgr = fresh_tun_manager [], th_open = {}\<rparr>"

theorem mac_runs_keep_host_witness:
  "let h' = run_all (tun_run_start (darwin_ops demo_run (\<lambda>s f. Some s)))
      (tunEngine_Stop (darwin_ops demo_run (\<lambda>s f. Some s))) demo_tun_runs (demo_tun_host (demo_mac [''8.8.8.8''])) in
    demo_servers (settings (th_dns h')) ''Wi-Fi'' = Some [''8.8.8.8''] \<and> TunDevice \<notin> th_open h'"
proof -
  let ?h = "demo_tun_host (demo_mac [''8.8.8.8''])"
  have d: "breadcrumb (th_dns ?h) = None" "demo_servers (settings (th_dns ?h)) ''Wi-Fi'' = Some [''8.8.8.8'']"
    "\<not> th_dns_running ?h" "th_open ?h = {}"
    by (simp_all add: demo_tun_host_def demo_mac_def demo_servers_def demo_valid_def)
  from mac_runs_keep_host [where servers = demo_servers and h = ?h, OF demo_spec d, of "\<lambda>s f. Some s" demo_tun_runs] d(2)
  show ?thesis unfolding Let_def by simp
qed

text \<open>
  C12: Windows: any number of runs of the program leaves the connected interface with the DNS
  source it had, when that is one a breadcrumb can name (a single static server, or DHCP
  with no server on offer), no breadcrumb behind, the DNS server stopped, and neither the TUN
  device nor the raw socket open.
\<close>

theorem windows_runs_keep_host:
  assumes "netsh_spec run source offered iface" and "wcrumb (th_dns h) = None"
    and "saved_source offered (source (wsettings (th_dns h))) = source (wsettings (th_dns h))"
    and "\<not> th_dns_running h" and "th_open h = {}"
  shows "let ops = windows_ops run (\<lambda>s f. Some s); h' = run_all (tun_run_start ops) (tunEngine_Stop ops) envs h in
    source (wsettings (th_dns h')) = source (wsettings (th_dns h)) \<and> wcrumb (th_dns h') = None \<and>
    \<not> th_dns_running h' \<and> TunDevice \<notin> th_open h' \<and> RawSocket \<notin> th_open h'"
proof -
  let ?ops = "windows_ops run (\<lambda>s f. Some s)"
  have "tun_fit (win_fit run source offered iface) h" using assms by (simp add: tun_fit_def win_fit_def)
  then have "tun_kept (win_kept source) h (run_all (tun_run_start ?ops) (tunEngine_Stop ?ops) envs h)"
    by (intro windows.tun.runs_kept) auto
  then show ?thesis using assms(2) by (auto simp: tun_kept_def win_kept_def Let_def)
qed

theorem windows_runs_keep_host_witness:
  "let ops = windows_ops demo_netsh (\<lambda>s f. Some s);
      h' = run_all (tun_run_start ops) (tunEngine_Stop ops) demo_tun_runs (demo_tun_host (demo_win (Static [''9.9.9.9'']))) in
    demo_source (wsettings (th_dns h')) = Static [''9.9.9.9''] \<and> TunDevice \<notin> th_open h'"
proof -
  let ?h = "demo_tun_host (demo_win (Static [''9.9.9.9'']))"
  have s: "demo_source (Static [''9.9.9.9'']) = Static [''9.9.9.9'']"
    "saved_source [''192.168.1.1''] (Static [''9.9.9.9'']) = Static [''9.9.9.9'']" by code_simp+
  then have d: "wcrumb (th_dns ?h) = None"
    "saved_source [''192.168.1.1''] (demo_source (wsettings (th_dns ?h))) = demo_source (wsettings (th_dns ?h))"
    "\<not> th_dns_running ?h" "th_open ?h = {}"
    by (simp_all add: demo_tun_host_def demo_win_def)
  have "demo_source (wsettings (th_dns ?h)) = Static [''9.9.9.9'']"
    using s(1) by (simp add: demo_tun_host_def demo_win_def)
  with windows_runs_keep_host [OF demo_netsh_spec d, of demo_tun_runs] show ?thesis
    unfolding Let_def by simp
qed

end
