(* ===== verification/Capture.thy ===== *)
theory Capture
  imports Rawsock
begin

text \<open>
  SYN-ACK capture (\<open>src/pkg/capture\<close>) and the tracker that hands its events to the proxy
  (\<open>src/pkg/seqtrack\<close>).  A packet decoded by gopacket is its TCP, IPv4 and IPv6 layers, as
  far as they are present.  The tracker's \<open>sync.Map\<close> is a map from local ports; the events
  the capture goroutine stores while \<open>WaitForSeqAck\<close> polls are explicit, one list per poll.
\<close>

section \<open>Captured packets\<close>

record tcp_layer =
  tcp_SrcPort :: u16
  tcp_DstPort :: u16
  tcp_Seq :: u32
  tcp_Ack :: u32
  tcp_SYN :: bool
  tcp_ACK :: bool

record ip_layer =
  ip_SrcIP :: ip
  ip_DstIP :: ip
  ip_TTL :: u8        \<comment> \<open>the TTL of an IPv4 header, the hop limit of an IPv6 one\<close>

record packet =
  layer_TCP :: "tcp_layer option"
  layer_IPv4 :: "ip_layer option"
  layer_IPv6 :: "ip_layer option"

definition processPacket_darwin :: "(u16 \<Rightarrow> bool) \<Rightarrow> packet \<Rightarrow> ConnInfo option" where
  "processPacket_darwin ports p =
     (case layer_TCP p of
        None \<Rightarrow> None
      | Some tcp \<Rightarrow>
          if \<not> tcp_SYN tcp \<or> \<not> tcp_ACK tcp then None
          else if \<not> ports (tcp_SrcPort tcp) then None
          else
            (case (case layer_IPv4 p of
                     Some l \<Rightarrow> Some (nil_bytes (To4 (ip_DstIP l)), nil_bytes (To4 (ip_SrcIP l)), ip_TTL l)
                   | None \<Rightarrow>
                       (case layer_IPv6 p of
                          None \<Rightarrow> None
                        | Some l \<Rightarrow> Some (nil_bytes (To16 (ip_DstIP l)), nil_bytes (To16 (ip_SrcIP l)), ip_TTL l)))
             of None \<Rightarrow> None
              | Some (srcIP, dstIP, hopLimit) \<Rightarrow>
                  Some \<lparr>SrcIP = srcIP, DstIP = dstIP, SrcPort = tcp_DstPort tcp, DstPort = tcp_SrcPort tcp,
                        Seq = tcp_Ack tcp, Ack = tcp_Seq tcp + 1, HopLimit = hopLimit\<rparr>))"

definition processPacket_windows :: "(u16 \<Rightarrow> bool) \<Rightarrow> packet \<Rightarrow> ConnInfo option" where
  "processPacket_windows ports p =
     (case layer_TCP p of
        None \<Rightarrow> None
      | Some tcp \<Rightarrow>
          if \<not> tcp_SYN tcp \<or> \<not> tcp_ACK tcp then None
          else if \<not> ports (tcp_SrcPort tcp) then None
          else
            (case layer_IPv4 p of
               None \<Rightarrow> None
             | Some l \<Rightarrow>
                 Some \<lparr>SrcIP = nil_bytes (To4 (ip_DstIP l)), DstIP = nil_bytes (To4 (ip_SrcIP l)),
                       SrcPort = tcp_DstPort tcp, DstPort = tcp_SrcPort tcp,
                       Seq = tcp_Ack tcp, Ack = tcp_Seq tcp + 1, HopLimit = 0\<rparr>))"

text \<open>\<open>NewCapture\<close> turns the configured ports into a set and filters on port 443 alone.\<close>

definition portMap :: "u16 list \<Rightarrow> u16 \<Rightarrow> bool" where
  "portMap ports p \<longleftrightarrow> p \<in> set ports"

definition filter_port :: u16 where
  "filter_port = 443"

text \<open>
  \<open>synAckFilter(port)\<close> on a decoded packet: SYN and ACK set, from the given source port, over
  IPv6 or IPv4.
\<close>

definition synAckFilter :: "u16 \<Rightarrow> packet \<Rightarrow> bool" where
  "synAckFilter port p \<longleftrightarrow>
     (case layer_TCP p of
        None \<Rightarrow> False
      | Some tcp \<Rightarrow> (layer_IPv6 p \<noteq> None \<or> layer_IPv4 p \<noteq> None) \<and>
          tcp_SrcPort tcp = port \<and> tcp_SYN tcp \<and> tcp_ACK tcp)"

definition capture_darwin :: "u16 list \<Rightarrow> packet \<Rightarrow> ConnInfo option" where
  "capture_darwin ports p =
     (if synAckFilter filter_port p then processPacket_darwin (portMap ports) p else None)"

section \<open>The tracker\<close>

type_synonym conns = "u16 \<rightharpoonup> ConnInfo"

definition store_event :: "ConnInfo \<Rightarrow> conns \<Rightarrow> conns" where
  "store_event evt cs = cs(SrcPort evt \<mapsto> evt)"

fun WaitForSeqAck :: "u16 \<Rightarrow> ConnInfo list list \<Rightarrow> conns \<Rightarrow> ConnInfo option \<times> conns" where
  "WaitForSeqAck localPort [] cs = (None, cs)"
| "WaitForSeqAck localPort (evts # polls) cs =
     (let cs = fold store_event evts cs in
      case cs localPort of
        Some evt \<Rightarrow> (Some evt, cs(localPort := None))
      | None \<Rightarrow> WaitForSeqAck localPort polls cs)"

text \<open>
  \<open>GetSeqAck\<close> with the global tracker (\<open>None\<close> when unset) and the connection's local port
  (\<open>None\<close> when it is not a TCP connection).
\<close>

definition GetSeqAck ::
    "conns option \<Rightarrow> u16 option \<Rightarrow> ConnInfo list list \<Rightarrow> (u32 \<times> u32 \<times> u8) \<times> conns option" where
  "GetSeqAck tracker localPort polls =
     (case tracker of
        None \<Rightarrow> ((1, 1, 0), None)
      | Some cs \<Rightarrow>
          (case localPort of
             None \<Rightarrow> ((1, 1, 0), Some cs)
           | Some p \<Rightarrow>
               (case WaitForSeqAck p polls cs of
                  (None, cs) \<Rightarrow> ((1, 1, 0), Some cs)
                | (Some evt, cs) \<Rightarrow> ((Seq evt, Ack evt, HopLimit evt), Some cs))))"

section \<open>Facts\<close>

lemma fold_store_other:
  "\<forall>e \<in> set evts. SrcPort e \<noteq> p \<Longrightarrow> fold store_event evts cs p = cs p"
  by (induction evts arbitrary: cs) (auto simp: store_event_def)

lemma fold_store_cases:
  "fold store_event evts cs p = cs p \<or>
   (\<exists>e \<in> set evts. SrcPort e = p \<and> fold store_event evts cs p = Some e)"
proof (induction evts rule: rev_induct)
  case (snoc e evts)
  then show ?case by (auto simp: store_event_def)
qed simp

text \<open>
  The event returned for a port is one stored for it, and it is consumed; other ports are
  not touched beyond what the capture stored for them.
\<close>

definition keyed :: "conns \<Rightarrow> bool" where
  "keyed cs \<longleftrightarrow> (\<forall>p e. cs p = Some e \<longrightarrow> SrcPort e = p)"

lemma keyed_store: "keyed cs \<Longrightarrow> keyed (store_event e cs)"
  by (simp add: store_event_def keyed_def)

lemma keyed_fold: "keyed cs \<Longrightarrow> keyed (fold store_event evts cs)"
  by (induction evts arbitrary: cs) (simp_all add: keyed_store)

lemma WaitForSeqAck_keyed:
  "keyed cs \<Longrightarrow> keyed (snd (WaitForSeqAck p polls cs)) \<and>
   (\<forall>e. fst (WaitForSeqAck p polls cs) = Some e \<longrightarrow>
      SrcPort e = p \<and> snd (WaitForSeqAck p polls cs) p = None \<and>
      (cs p = Some e \<or> e \<in> set (concat polls)))"
proof (induction p polls cs rule: WaitForSeqAck.induct)
  case (1 p cs)
  then show ?case by simp
next
  case (2 p evts polls cs)
  let ?cs = "fold store_event evts cs"
  have k: "keyed ?cs" using 2(2) by (rule keyed_fold)
  show ?case
  proof (cases "?cs p")
    case None
    then have "cs p = None"
      using fold_store_cases [of evts cs p] by auto
    with 2(1) [OF refl None k] None show ?thesis
      by (auto simp: Let_def)
  next
    case (Some e)
    with k fold_store_cases [of evts cs p] show ?thesis
      by (auto simp: Let_def keyed_def)
  qed
qed

text \<open>The first poll after an event for the port arrived returns the newest such event.\<close>

lemma WaitForSeqAck_arrival:
  assumes "cs p = None" and "\<forall>evts \<in> set before. \<forall>e \<in> set evts. SrcPort e \<noteq> p"
    and "SrcPort e = p" and "\<forall>e' \<in> set later. SrcPort e' \<noteq> p"
  shows "fst (WaitForSeqAck p (before @ (first @ e # later) # after) cs) = Some e"
  using assms
proof (induction before arbitrary: cs)
  case Nil
  have "fold store_event (first @ e # later) cs p = Some e"
    using Nil by (simp add: fold_store_other store_event_def)
  then show ?case by (simp add: Let_def del: fold_append)
next
  case (Cons evts before)
  then have "fold store_event evts cs p = None"
    by (simp add: fold_store_other)
  with Cons show ?case by (simp add: Let_def)
qed

section \<open>Properties\<close>

definition demo_synack :: packet where
  "demo_synack = \<lparr>layer_TCP = Some \<lparr>tcp_SrcPort = 443, tcp_DstPort = 51234, tcp_Seq = 76, tcp_Ack = 1000,
     tcp_SYN = True, tcp_ACK = True\<rparr>,
     layer_IPv4 = Some \<lparr>ip_SrcIP = [93, 184, 216, 34], ip_DstIP = [10, 0, 0, 1], ip_TTL = 54\<rparr>,
     layer_IPv6 = None\<rparr>"

text \<open>
  A captured packet becomes a connection event exactly when it is a SYN-ACK from a target
  port over IPv4 or IPv6.  The event turns the packet round: the packet's destination is our
  side, our next sequence number is the acknowledgement number of the SYN-ACK, the
  acknowledgement we owe is its sequence number plus one, and the hop limit is the one left
  on arrival.
\<close>

theorem processPacket_event:
  "processPacket_darwin ports p = Some evt \<longleftrightarrow>
   (\<exists>tcp. layer_TCP p = Some tcp \<and> tcp_SYN tcp \<and> tcp_ACK tcp \<and> ports (tcp_SrcPort tcp) \<and>
     SrcPort evt = tcp_DstPort tcp \<and> DstPort evt = tcp_SrcPort tcp \<and>
     Seq evt = tcp_Ack tcp \<and> Ack evt = tcp_Seq tcp + 1 \<and>
     ((\<exists>l. layer_IPv4 p = Some l \<and> SrcIP evt = nil_bytes (To4 (ip_DstIP l)) \<and>
           DstIP evt = nil_bytes (To4 (ip_SrcIP l)) \<and> HopLimit evt = ip_TTL l) \<or>
      (\<exists>l. layer_IPv4 p = None \<and> layer_IPv6 p = Some l \<and> SrcIP evt = nil_bytes (To16 (ip_DstIP l)) \<and>
           DstIP evt = nil_bytes (To16 (ip_SrcIP l)) \<and> HopLimit evt = ip_TTL l)))"
  by (cases evt) (auto simp: processPacket_darwin_def split: option.splits)

text \<open>
  The Windows capture agrees with the macOS one on IPv4 packets except that it reports no
  hop limit, and it reports no event for any other packet.
\<close>

theorem windows_capture_is_ipv4_only:
  "processPacket_windows ports p =
   (if layer_IPv4 p = None then None
    else map_option (\<lambda>e. e\<lparr>HopLimit := 0\<rparr>) (processPacket_darwin ports p))"
  by (auto simp: processPacket_windows_def processPacket_darwin_def split: option.splits)

text \<open>
  \<open>NewCapture\<close> accepts a list of ports but installs a filter for 443 alone, so no event is
  ever reported for a connection to another configured port, although \<open>processPacket\<close>
  would accept it: the fakes for such a connection carry the placeholder numbers.
\<close>

theorem other_ports_never_captured:
  assumes "layer_TCP p = Some tcp" and "tcp_SrcPort tcp \<noteq> 443"
  shows "capture_darwin ports p = None"
  using assms by (simp add: capture_darwin_def synAckFilter_def filter_port_def)

theorem other_ports_never_captured_witness:
  "capture_darwin [443, 8443]
     (demo_synack\<lparr>layer_TCP := map_option (tcp_SrcPort_update (\<lambda>_. 8443)) (layer_TCP demo_synack)\<rparr>) = None \<and>
   processPacket_darwin (portMap [443, 8443])
     (demo_synack\<lparr>layer_TCP := map_option (tcp_SrcPort_update (\<lambda>_. 8443)) (layer_TCP demo_synack)\<rparr>) \<noteq> None"
  using other_ports_never_captured
    [of "demo_synack\<lparr>layer_TCP := map_option (tcp_SrcPort_update (\<lambda>_. 8443)) (layer_TCP demo_synack)\<rparr>"
      "the (layer_TCP demo_synack)\<lparr>tcp_SrcPort := 8443\<rparr>" "[443, 8443]"]
  by (simp add: demo_synack_def processPacket_darwin_def portMap_def)

text \<open>
  Waiting for a connection's numbers never mixes connections up: an event returned for a
  local port was captured for that port, it is removed from the tracker so that it is
  returned once, and the tracker stays keyed by local port.
\<close>

theorem WaitForSeqAck_consumes:
  assumes "keyed cs" and "WaitForSeqAck p polls cs = (Some evt, cs')"
  shows "SrcPort evt = p \<and> cs' p = None \<and> keyed cs' \<and> (cs p = Some evt \<or> evt \<in> set (concat polls))"
  using WaitForSeqAck_keyed [OF assms(1), of p polls] assms(2) by simp

theorem WaitForSeqAck_consumes_witness:
  "WaitForSeqAck 51234 [[], [demo_conn4]] Map.empty = (Some demo_conn4, Map.empty) \<and> SrcPort demo_conn4 = 51234"
proof -
  have w: "WaitForSeqAck 51234 [[], [demo_conn4]] Map.empty = (Some demo_conn4, Map.empty)"
    by (simp add: store_event_def demo_conn4_def)
  from WaitForSeqAck_consumes [OF _ w] w show ?thesis by (simp add: keyed_def)
qed

end
