(* ===== verification/Event_Runs.thy ===== *)
theory Event_Runs
  imports Main
begin

text \<open>
  Runs of a component whose steps are a function of the event: the goroutines, the timers or
  the processes of a component interleave by the order of the events in a list, and an event
  that cannot happen in a state makes the run \<open>None\<close>.  The locale \<open>event_runs\<close> is what every such
  component has, \<open>bounded_runs\<close> adds a rank that its counted steps lower.
\<close>

locale event_runs =
  fixes exec :: "'e \<Rightarrow> 's \<Rightarrow> 's option" and run :: "'e list \<Rightarrow> 's \<Rightarrow> 's option"
  assumes run_none: "run [] s = Some s"
    and run_more: "run (e # es) s = Option.bind (exec e s) (run es)"
begin

lemma run_first:
  assumes "run (e # es) s = Some s'"
  obtains s1 where "exec e s = Some s1" "run es s1 = Some s'"
  using assms by (auto simp: run_more bind_eq_Some_conv)

lemma run_of_append: "run (es @ es') s = Option.bind (run es s) (run es')"
proof (induction es arbitrary: s)
  case (Cons e es)
  then show ?case by (cases "exec e s") (simp_all add: run_more)
qed (simp add: run_none)

text \<open>An invariant that the events of the run keep.\<close>

lemma run_keeps:
  assumes "run es s = Some s'" and "I s"
    and "\<And>e t t'. e \<in> set es \<Longrightarrow> exec e t = Some t' \<Longrightarrow> I t \<Longrightarrow> I t'"
  shows "I s'"
  using assms
proof (induction es arbitrary: s)
  case Nil
  then show ?case by (simp add: run_none)
next
  case (Cons e es)
  from Cons.prems(1) obtain s1 where s1: "exec e s = Some s1" "run es s1 = Some s'" by (rule run_first)
  have "I s1" using Cons.prems(2,3) s1(1) by (meson list.set_intros(1))
  then show ?case using Cons.IH [OF s1(2)] Cons.prems(3) by (meson list.set_intros(2))
qed

end

locale bounded_runs = event_runs exec run
  for exec :: "'e \<Rightarrow> 's \<Rightarrow> 's option" and run :: "'e list \<Rightarrow> 's \<Rightarrow> 's option" +
  fixes ok :: "'s \<Rightarrow> bool" and rank :: "'s \<Rightarrow> nat" and counts :: "'e \<Rightarrow> bool"
  assumes exec_ok: "exec e s = Some s' \<Longrightarrow> ok s \<Longrightarrow> ok s'"
    and exec_rank: "exec e s = Some s' \<Longrightarrow> ok s \<Longrightarrow> rank s' + (if counts e then 1 else 0) \<le> rank s"
begin

lemma run_bounded: "run es s = Some s' \<Longrightarrow> ok s \<Longrightarrow> rank s' + length (filter counts es) \<le> rank s"
proof (induction es arbitrary: s)
  case Nil
  then show ?case by (simp add: run_none)
next
  case (Cons e es)
  from Cons.prems(1) obtain s1 where s1: "exec e s = Some s1" "run es s1 = Some s'" by (rule run_first)
  from Cons.IH [OF s1(2) exec_ok [OF s1(1) Cons.prems(2)]] exec_rank [OF s1(1) Cons.prems(2)]
  show ?case by (auto split: if_splits)
qed

end

end
