(* ===== verification/Tracker.thy ===== *)
theory Tracker
  imports Capture Event_Runs
begin

text \<open>
  The capture goroutine against the handlers that wait for its events and against \<open>Stop\<close>:
  the packet loop of \<open>src/pkg/capture/capture_darwin.go\<close> (the one of
  \<open>capture_windows_pcap.go\<close> is the same) and the shared map of
  \<open>src/pkg/seqtrack/seqtracker_darwin.go\<close>.  \<open>Capture\<close> has one waiter that sees the events of
  its own polls; here any number of waiters and the loop interleave freely.
\<close>

section \<open>States and steps\<close>

text \<open>Where the loop is: at its check of \<open>done\<close>, in \<open>NextPacket\<close>, with a packet, or gone.\<close>

datatype cap_pc = AtTop | InNextPacket | WithPacket packet | LoopGone

datatype cap_stop = NotStopped | DoneClosed | HandleClosed

text \<open>A call of \<open>WaitForSeqAck\<close>: its port, and how much had been captured when it began and whether the slot was free.\<close>

record wait =
  w_port :: u16
  w_began :: nat
  w_free :: bool

text \<open>
  The map is kept with an index into the list of all events stored so far, so that two events
  with the same contents are told apart; \<open>tracked\<close> is the map the code has.
\<close>

record track =
  cap_at :: cap_pc
  stop_phase :: cap_stop
  stored :: "ConnInfo list"
  slots :: "u16 \<rightharpoonup> nat"
  waits :: "nat \<rightharpoonup> wait"
  results :: "(wait \<times> nat option) list"

definition tracked :: "track \<Rightarrow> conns" where
  "tracked s = (\<lambda>p. map_option ((!) (stored s)) (slots s p))"

datatype track_event =
    CheckDone | PacketArrives packet | ReadFails | ProcessPacket
  | CloseDone | CloseHandle
  | BeginWait nat u16 | Poll nat | Deadline nat

text \<open>\<open>st.conns.Store(evt.SrcPort, evt)\<close>.\<close>

definition store_captured :: "ConnInfo \<Rightarrow> track \<Rightarrow> track" where
  "store_captured evt s = s\<lparr>stored := stored s @ [evt], slots := (slots s)(SrcPort evt \<mapsto> length (stored s))\<rparr>"

text \<open>
  A packet arrives only while the handle is open; a read may fail at any time, and the loop
  goes round again unless \<open>done\<close> is closed.  A poll is one \<open>LoadAndDelete\<close>; the deadline may
  pass before any of them.  \<open>cap\<close> is what becomes of a packet (\<open>capture_darwin ports\<close>).
\<close>

fun track_step :: "(packet \<Rightarrow> ConnInfo option) \<Rightarrow> track_event \<Rightarrow> track \<Rightarrow> track option" where
  "track_step cap CheckDone s =
     (if cap_at s = AtTop
      then Some (s\<lparr>cap_at := (if stop_phase s = NotStopped then InNextPacket else LoopGone)\<rparr>) else None)"
| "track_step cap (PacketArrives p) s =
     (if cap_at s = InNextPacket \<and> stop_phase s \<noteq> HandleClosed then Some (s\<lparr>cap_at := WithPacket p\<rparr>) else None)"
| "track_step cap ReadFails s =
     (if cap_at s = InNextPacket
      then Some (s\<lparr>cap_at := (if stop_phase s = NotStopped then AtTop else LoopGone)\<rparr>) else None)"
| "track_step cap ProcessPacket s =
     (case cap_at s of
        WithPacket p \<Rightarrow>
          Some ((case cap p of None \<Rightarrow> s | Some evt \<Rightarrow> store_captured evt s)\<lparr>cap_at := AtTop\<rparr>)
      | _ \<Rightarrow> None)"
| "track_step cap CloseDone s = (if stop_phase s = NotStopped then Some (s\<lparr>stop_phase := DoneClosed\<rparr>) else None)"
| "track_step cap CloseHandle s = (if stop_phase s = DoneClosed then Some (s\<lparr>stop_phase := HandleClosed\<rparr>) else None)"
| "track_step cap (BeginWait w p) s =
     (if waits s w = None
      then Some (s\<lparr>waits := (waits s)(w \<mapsto> \<lparr>w_port = p, w_began = length (stored s), w_free = (slots s p = None)\<rparr>)\<rparr>)
      else None)"
| "track_step cap (Poll w) s =
     (case waits s w of
        None \<Rightarrow> None
      | Some x \<Rightarrow>
          (case slots s (w_port x) of
             None \<Rightarrow> Some s
           | Some i \<Rightarrow> Some (s\<lparr>slots := (slots s)(w_port x := None), waits := (waits s)(w := None),
                            results := results s @ [(x, Some i)]\<rparr>)))"
| "track_step cap (Deadline w) s =
     (case waits s w of
        None \<Rightarrow> None
      | Some x \<Rightarrow> Some (s\<lparr>waits := (waits s)(w := None), results := results s @ [(x, None)]\<rparr>))"

primrec track_run :: "(packet \<Rightarrow> ConnInfo option) \<Rightarrow> track_event list \<Rightarrow> track \<Rightarrow> track option" where
  "track_run cap [] s = Some s"
| "track_run cap (e # es) s = Option.bind (track_step cap e s) (track_run cap es)"

text \<open>\<open>NewSeqTracker\<close> starts the loop on an empty map.\<close>

definition NewSeqTracker :: track where
  "NewSeqTracker = \<lparr>cap_at = AtTop, stop_phase = NotStopped, stored = [], slots = Map.empty, waits = Map.empty, results = []\<rparr>"

section \<open>The map\<close>

text \<open>The steps do to the map what the functions of \<open>Capture\<close> do to it.\<close>

lemma tracked_store:
  assumes "\<forall>p i. slots s p = Some i \<longrightarrow> i < length (stored s)"
  shows "tracked (store_captured evt s) = store_event evt (tracked s)"
  using assms by (auto simp: tracked_def store_captured_def store_event_def nth_append fun_eq_iff map_option_case
      split: option.split)

definition handed :: "track \<Rightarrow> nat list" where
  "handed s = List.map_filter snd (results s)"

text \<open>
  What every step keeps: a slot holds an event of its port that has not been handed out, and
  one that came later than the beginning of any wait that found the slot free; what was
  handed out fits the wait it was handed to.
\<close>

definition fits :: "track \<Rightarrow> wait \<Rightarrow> nat \<Rightarrow> bool" where
  "fits s x i \<longleftrightarrow> i < length (stored s) \<and> SrcPort (stored s ! i) = w_port x \<and> (w_free x \<longrightarrow> w_began x \<le> i)"

definition track_inv :: "track \<Rightarrow> bool" where
  "track_inv s \<longleftrightarrow>
     (\<forall>p i. slots s p = Some i \<longrightarrow> i < length (stored s) \<and> SrcPort (stored s ! i) = p \<and> i \<notin> set (handed s)) \<and>
     (\<forall>w x i. waits s w = Some x \<longrightarrow> slots s (w_port x) = Some i \<longrightarrow> w_free x \<longrightarrow> w_began x \<le> i) \<and>
     (\<forall>w x. waits s w = Some x \<longrightarrow> w_began x \<le> length (stored s)) \<and>
     (\<forall>(x, r) \<in> set (results s). \<forall>i. r = Some i \<longrightarrow> fits s x i) \<and> distinct (handed s)"

lemma handed_snoc [simp]:
  "handed (s\<lparr>results := rs\<rparr>) = List.map_filter snd rs"
  by (simp add: handed_def)

lemma map_filter_snoc [simp]:
  "List.map_filter f (xs @ [x]) = List.map_filter f xs @ (case f x of None \<Rightarrow> [] | Some y \<Rightarrow> [y])"
  by (simp add: List.map_filter_def split: option.split)

lemma handed_fits: "track_inv s \<Longrightarrow> i \<in> set (handed s) \<Longrightarrow> i < length (stored s)"
  by (force simp: track_inv_def handed_def List.map_filter_def fits_def)

lemma track_inv_store:
  assumes "track_inv s"
  shows "track_inv (store_captured evt s)"
proof -
  have "length (stored s) \<notin> set (handed s)" using handed_fits [OF assms] by blast
  moreover have "fits (store_captured evt s) x i" if "fits s x i" for x i
    using that by (auto simp: fits_def store_captured_def nth_append)
  moreover have "handed (store_captured evt s) = handed s" "results (store_captured evt s) = results s"
    "waits (store_captured evt s) = waits s"
    by (simp_all add: handed_def store_captured_def)
  ultimately show ?thesis using assms unfolding track_inv_def
    by (simp add: store_captured_def nth_append) fastforce
qed

lemma track_inv_upd [simp]:
  "track_inv (s\<lparr>cap_at := c\<rparr>) = track_inv s"
  "track_inv (s\<lparr>stop_phase := ph\<rparr>) = track_inv s"
  by (simp_all add: track_inv_def handed_def fits_def)

lemma track_inv_poll:
  assumes inv: "track_inv s" and w: "waits s w = Some x" and i: "slots s (w_port x) = Some i"
  shows "track_inv (s\<lparr>slots := (slots s)(w_port x := None), waits := (waits s)(w := None), results := results s @ [(x, Some i)]\<rparr>)"
    (is "track_inv ?s")
proof -
  have f: "fits ?s y j = fits s y j" for y j by (simp add: fits_def)
  have x: "fits s x i" "i \<notin> set (handed s)" using inv w i by (auto simp: track_inv_def fits_def)
  have h: "handed ?s = handed s @ [i]" by (simp add: handed_def)
  have ne: "j \<noteq> i" if "slots s p = Some j" "p \<noteq> w_port x" for p j
  proof -
    have "SrcPort (stored s ! j) = p" using inv that(1) by (simp add: track_inv_def)
    moreover have "SrcPort (stored s ! i) = w_port x" using x(1) by (simp add: fits_def)
    ultimately show ?thesis using that(2) by auto
  qed
  note I = inv [unfolded track_inv_def]
  show ?thesis unfolding track_inv_def h
  proof (intro conjI)
    show "\<forall>p j. slots ?s p = Some j \<longrightarrow> j < length (stored ?s) \<and> SrcPort (stored ?s ! j) = p \<and> j \<notin> set (handed s @ [i])"
      using I by (simp add: ne)
    show "\<forall>w' y j. waits ?s w' = Some y \<longrightarrow> slots ?s (w_port y) = Some j \<longrightarrow> w_free y \<longrightarrow> w_began y \<le> j"
      using I by simp
    show "\<forall>w' y. waits ?s w' = Some y \<longrightarrow> w_began y \<le> length (stored ?s)"
      using I by simp
    show "\<forall>(y, r) \<in> set (results ?s). \<forall>j. r = Some j \<longrightarrow> fits ?s y j"
      using I x(1) by (simp add: f)
    show "distinct (handed s @ [i])" using I x(2) by simp
  qed
qed

lemma track_inv_begin:
  assumes inv: "track_inv s"
  shows "track_inv (s\<lparr>waits := (waits s)(w \<mapsto> \<lparr>w_port = p, w_began = length (stored s), w_free = (slots s p = None)\<rparr>)\<rparr>)"
    (is "track_inv ?s")
proof -
  have f: "fits ?s y j = fits s y j" for y j by (simp add: fits_def)
  have h: "handed ?s = handed s" by (simp add: handed_def)
  from inv show ?thesis unfolding track_inv_def h by (auto simp: f split: if_splits)
qed

lemma track_inv_deadline:
  assumes inv: "track_inv s"
  shows "track_inv (s\<lparr>waits := (waits s)(w := None), results := results s @ [(x, None)]\<rparr>)"
    (is "track_inv ?s")
proof -
  have f: "fits ?s y j = fits s y j" for y j by (simp add: fits_def)
  have h: "handed ?s = handed s" by (simp add: handed_def)
  from inv show ?thesis unfolding track_inv_def h by (auto simp: f split: if_splits)
qed

lemma track_step_inv:
  assumes "track_step cap e s = Some s'" and "track_inv s"
  shows "track_inv s'"
proof (cases e)
  case ProcessPacket
  with assms(1) obtain p where
    "s' = (case cap p of None \<Rightarrow> s | Some evt \<Rightarrow> store_captured evt s)\<lparr>cap_at := AtTop\<rparr>"
    by (auto split: cap_pc.splits)
  moreover have "track_inv (case cap p of None \<Rightarrow> s | Some evt \<Rightarrow> store_captured evt s)"
    using assms(2) by (simp add: track_inv_store split: option.split)
  ultimately show ?thesis by simp
next
  case (BeginWait w p)
  with assms(1) track_inv_begin [OF assms(2)] show ?thesis by (auto split: if_splits)
next
  case (Poll w)
  with assms obtain x where x: "waits s w = Some x" by (auto split: option.splits)
  show ?thesis
  proof (cases "slots s (w_port x)")
    case None
    with Poll x assms show ?thesis by simp
  next
    case (Some i)
    with Poll x assms(1) track_inv_poll [OF assms(2) x Some] show ?thesis by simp
  qed
next
  case (Deadline w)
  with assms(1) track_inv_deadline [OF assms(2)] show ?thesis by (auto split: option.splits)
qed (use assms in \<open>auto split: if_splits\<close>)

interpretation track_runs: event_runs "track_step cap" "track_run cap" for cap
  by unfold_locales simp_all

lemma track_run_inv: "track_run cap es s = Some s' \<Longrightarrow> track_inv s \<Longrightarrow> track_inv s'"
  by (erule track_runs.run_keeps) (auto intro: track_step_inv)

lemma start_inv: "track_inv NewSeqTracker"
  by (simp add: track_inv_def NewSeqTracker_def handed_def)

text \<open>Where stored events come from.\<close>

fun in_hand :: "cap_pc \<Rightarrow> packet set" where
  "in_hand (WithPacket p) = {p}"
| "in_hand _ = {}"

lemma track_step_source:
  assumes "track_step cap e s = Some s'"
  shows "set (stored s') \<subseteq> set (stored s) \<union> {evt. \<exists>p \<in> in_hand (cap_at s). cap p = Some evt}"
    and "in_hand (cap_at s') \<subseteq> in_hand (cap_at s) \<union> {p. e = PacketArrives p}"
  using assms by (cases e; auto simp: store_captured_def split: if_splits cap_pc.splits option.splits)+

lemma track_run_source:
  "track_run cap es s = Some s' \<Longrightarrow>
   set (stored s') \<subseteq> set (stored s) \<union> {evt. \<exists>p. (p \<in> in_hand (cap_at s) \<or> PacketArrives p \<in> set es) \<and> cap p = Some evt}"
proof (induction es arbitrary: s)
  case (Cons e es)
  from Cons.prems obtain s1 where s1: "track_step cap e s = Some s1" "track_run cap es s1 = Some s'"
    by (rule track_runs.run_first)
  from Cons.IH [OF s1(2)] track_step_source [OF s1(1)] show ?case by fastforce
qed simp

text \<open>The loop once \<open>Stop\<close> has begun.\<close>

fun cap_rank :: "cap_pc \<Rightarrow> nat" where
  "cap_rank InNextPacket = 3"
| "cap_rank (WithPacket _) = 2"
| "cap_rank AtTop = 1"
| "cap_rank LoopGone = 0"

fun may_store :: "cap_pc \<Rightarrow> nat" where
  "may_store InNextPacket = 1"
| "may_store (WithPacket _) = 1"
| "may_store _ = 0"

fun loop_event :: "track_event \<Rightarrow> bool" where
  "loop_event CheckDone = True"
| "loop_event (PacketArrives _) = True"
| "loop_event ReadFails = True"
| "loop_event ProcessPacket = True"
| "loop_event _ = False"

lemma track_step_stopping:
  assumes "track_step cap e s = Some s'" and "stop_phase s \<noteq> NotStopped"
  shows "stop_phase s' \<noteq> NotStopped"
    and "length (stored s') + may_store (cap_at s') \<le> length (stored s) + may_store (cap_at s)"
    and "cap_rank (cap_at s') + (if loop_event e then 1 else 0) \<le> cap_rank (cap_at s)"
  using assms by (cases e; auto simp: store_captured_def split: if_splits cap_pc.splits option.splits)+

interpretation stopping_runs: bounded_runs "track_step cap" "track_run cap" "\<lambda>s. stop_phase s \<noteq> NotStopped"
  "\<lambda>s. cap_rank (cap_at s)" loop_event for cap
  by unfold_locales (use track_step_stopping in blast)+

lemma track_run_stopping:
  assumes "track_run cap es s = Some s'" and "stop_phase s \<noteq> NotStopped"
  shows "length (stored s') + may_store (cap_at s') \<le> length (stored s) + may_store (cap_at s)"
    and "cap_rank (cap_at s') + length (filter loop_event es) \<le> cap_rank (cap_at s)"
proof -
  let ?n = "\<lambda>s. length (stored s) + may_store (cap_at s)"
  have "stop_phase t' \<noteq> NotStopped \<and> ?n t' \<le> ?n s"
    if "track_step cap e t = Some t'" "stop_phase t \<noteq> NotStopped \<and> ?n t \<le> ?n s" for e t t'
    using track_step_stopping(1,2) [OF that(1)] that(2) by linarith
  with assms have "stop_phase s' \<noteq> NotStopped \<and> ?n s' \<le> ?n s"
    by (intro track_runs.run_keeps [OF assms(1), where I = "\<lambda>t. stop_phase t \<noteq> NotStopped \<and> ?n t \<le> ?n s"]) blast+
  then show "?n s' \<le> ?n s" ..
qed (rule stopping_runs.run_bounded [OF assms])

lemma loop_progress:
  assumes "cap_at s \<noteq> LoopGone"
  shows "\<exists>e s'. loop_event e \<and> track_step cap e s = Some s'"
proof (cases "cap_at s")
  case AtTop
  then have "track_step cap CheckDone s \<noteq> None" by simp
  then show ?thesis by (intro exI [of _ CheckDone]) auto
next
  case InNextPacket
  then have "track_step cap ReadFails s \<noteq> None" by simp
  then show ?thesis by (intro exI [of _ ReadFails]) auto
next
  case (WithPacket p)
  then have "track_step cap ProcessPacket s \<noteq> None" by simp
  then show ?thesis by (intro exI [of _ ProcessPacket]) auto
qed (use assms in simp)

section \<open>Properties\<close>

text \<open>
  C18: A captured SYN-ACK is handed out at most once, and to a connection it can belong to: in
  every run of the capture loop, any number of waiting handlers and \<open>Stop\<close>, every event in the
  tracker comes from a captured packet; two handlers are never handed the same one; a handler
  is handed one captured for its local port; and when the tracker held nothing for the port as
  the handler began to wait, one that was captured after that.
\<close>

theorem synack_handed_out_once:
  assumes "track_run cap es NewSeqTracker = Some s"
  shows "distinct (handed s) \<and>
    set (stored s) \<subseteq> {evt. \<exists>p. PacketArrives p \<in> set es \<and> cap p = Some evt} \<and>
    list_all (\<lambda>(x, r). case r of None \<Rightarrow> True
      | Some i \<Rightarrow> i < length (stored s) \<and> SrcPort (stored s ! i) = w_port x \<and> (\<not> w_free x \<or> w_began x \<le> i)) (results s)"
proof -
  have "track_inv s" using track_run_inv [OF assms start_inv] .
  then show ?thesis
    using track_run_source [OF assms]
    by (auto simp: track_inv_def list_all_iff fits_def NewSeqTracker_def split: option.split)
qed

text \<open>Two connections from the same port, one after the other.\<close>

definition demo_synack2 :: packet where
  "demo_synack2 = demo_synack\<lparr>layer_TCP := map_option (tcp_Ack_update (\<lambda>_. 5000)) (layer_TCP demo_synack)\<rparr>"

definition demo_late :: "track_event list" where
  "demo_late = [CheckDone, BeginWait 1 51234, Poll 1, Deadline 1, PacketArrives demo_synack, ProcessPacket,
     BeginWait 2 51234, Poll 2, CheckDone, PacketArrives demo_synack2, ProcessPacket]"

definition demo_cap :: "packet \<Rightarrow> ConnInfo option" where
  "demo_cap = capture_darwin [443]"

lemma demo_caps:
  "demo_cap demo_synack = Some \<lparr>SrcIP = [10, 0, 0, 1], DstIP = [93, 184, 216, 34], SrcPort = 51234, DstPort = 443,
     Seq = 1000, Ack = 77, HopLimit = 54\<rparr>" (is "_ = Some ?e1")
  "demo_cap demo_synack2 = Some \<lparr>SrcIP = [10, 0, 0, 1], DstIP = [93, 184, 216, 34], SrcPort = 51234, DstPort = 443,
     Seq = 5000, Ack = 77, HopLimit = 54\<rparr>"
  by (simp_all add: demo_cap_def capture_darwin_def synAckFilter_def filter_port_def processPacket_darwin_def portMap_def
      demo_synack_def demo_synack2_def)

lemma demo_late_run:
  "\<exists>s. track_run demo_cap demo_late NewSeqTracker = Some s \<and> map SrcPort (stored s) = [51234, 51234] \<and>
     map Seq (stored s) = [1000, 5000] \<and>
     results s = [(\<lparr>w_port = 51234, w_began = 0, w_free = True\<rparr>, None), (\<lparr>w_port = 51234, w_began = 1, w_free = False\<rparr>, Some 0)]"
  by (simp add: demo_late_def NewSeqTracker_def demo_caps store_captured_def)

theorem synack_handed_out_once_witness:
  "\<exists>s. track_run demo_cap demo_late NewSeqTracker = Some s \<and> handed s = [0] \<and> distinct (handed s)"
proof -
  obtain s where s: "track_run demo_cap demo_late NewSeqTracker = Some s"
    and r: "results s = [(\<lparr>w_port = 51234, w_began = 0, w_free = True\<rparr>, None), (\<lparr>w_port = 51234, w_began = 1, w_free = False\<rparr>, Some 0)]"
    using demo_late_run by blast
  from synack_handed_out_once [OF s] s r show ?thesis by (auto simp: handed_def)
qed

text \<open>
  What the tracker does not forget: a SYN-ACK that arrives after its handler has given up
  (or that no handler ever waits for, as those of the engine's own DNS-over-HTTPS connections)
  stays, and the next connection from that local port is handed its numbers at once, although
  the SYN-ACK of that connection is captured a moment later.
\<close>

theorem late_synack_misleads_next:
  "\<exists>s x i. track_run demo_cap demo_late NewSeqTracker = Some s \<and> (x, Some i) \<in> set (results s) \<and> i < w_began x \<and>
     Seq (stored s ! i) = 1000 \<and> Seq (last (stored s)) = 5000 \<and>
     tracked s (w_port x) = Some (last (stored s))"
proof -
  have "map_option (\<lambda>s. (map Seq (stored s), results s, tracked s 51234 = Some (last (stored s))))
      (track_run demo_cap demo_late NewSeqTracker) =
    Some ([1000, 5000], [(\<lparr>w_port = 51234, w_began = 0, w_free = True\<rparr>, None),
      (\<lparr>w_port = 51234, w_began = 1, w_free = False\<rparr>, Some 0)], True)"
    by (simp add: demo_late_def NewSeqTracker_def demo_caps store_captured_def tracked_def)
  then obtain s where s: "track_run demo_cap demo_late NewSeqTracker = Some s" "map Seq (stored s) = [1000, 5000]"
    "results s = [(\<lparr>w_port = 51234, w_began = 0, w_free = True\<rparr>, None), (\<lparr>w_port = 51234, w_began = 1, w_free = False\<rparr>, Some 0)]"
    "tracked s 51234 = Some (last (stored s))" by auto
  from s(2) obtain a b where "stored s = [a, b]" "Seq a = 1000" "Seq b = 5000" by (auto simp: map_eq_Cons_conv)
  with s show ?thesis by (intro exI [of _ s] exI [of _ "\<lparr>w_port = 51234, w_began = 1, w_free = False\<rparr>"] exI [of _ 0]) simp
qed

text \<open>
  C19: Stopping the capture ends its loop: once \<open>done\<close> is closed, the loop takes at most three
  more steps, stores at most one more event, and can take a step until it is gone, whatever
  packets still arrive and whatever the handlers do.
\<close>

theorem capture_loop_ends:
  assumes "track_run cap es NewSeqTracker = Some s" and "stop_phase s \<noteq> NotStopped" and "track_run cap es' s = Some s'"
  shows "length (filter loop_event es') \<le> 3 \<and> length (stored s') \<le> length (stored s) + 1 \<and>
    (cap_at s' = LoopGone \<or> (\<exists>e s''. loop_event e \<and> track_step cap e s' = Some s''))"
proof -
  have "may_store (cap_at s) \<le> 1" "cap_rank (cap_at s) \<le> 3" by (cases "cap_at s"; simp)+
  with track_run_stopping [OF assms(3,2)] loop_progress [of s' cap] show ?thesis by auto
qed

theorem capture_loop_ends_witness:
  "\<exists>s s'. track_run demo_cap [CheckDone, CloseDone] NewSeqTracker = Some s \<and>
     track_run demo_cap [PacketArrives demo_synack, CloseHandle, ProcessPacket, CheckDone] s = Some s' \<and>
     cap_at s' = LoopGone \<and> length (stored s') \<le> length (stored s) + 1"
proof -
  obtain s where s: "track_run demo_cap [CheckDone, CloseDone] NewSeqTracker = Some s" "cap_at s = InNextPacket"
    "stop_phase s = DoneClosed" by (simp add: NewSeqTracker_def)
  moreover from s obtain s' where s': "track_run demo_cap [PacketArrives demo_synack, CloseHandle, ProcessPacket, CheckDone] s = Some s'"
    "cap_at s' = LoopGone" by (simp add: demo_caps store_captured_def)
  ultimately show ?thesis using capture_loop_ends [OF s(1) _ s'(1)] by auto
qed

end
