(* ===== verification/Tun_Handler.thy ===== *)
theory Tun_Handler
  imports Capture Fake_Hello
begin

text \<open>
  The TCP side of the transparent proxy: \<open>src/pkg/tun/fakettl.go\<close> and \<open>NewConnectionEx\<close> and
  \<open>injectAndForward\<close> of \<open>src/pkg/tun/handler.go\<close>.

  What the handler does to the outside is the list of its actions, in order.  What the
  outside answers is an argument: the outcome of the dial, of the application's first read,
  of each send and of the write to the server, and the events captured while it waits.
  Logging and the destination name it logs are left out, except for the type assertion on
  the remote address made while computing that name, which panics.
\<close>

section \<open>The TTL of a fake\<close>

definition hopMargin :: int where
  "hopMargin = 3"

definition fakeTTL :: "int \<Rightarrow> u8 \<Rightarrow> int" where
  "fakeTTL configured observed =
     (if observed = 0 then configured
      else
        let initial = (if observed > 128 then 255 else if observed > 64 then 128 else 64);
            ttl = initial - uint observed - hopMargin;
            ttl = (if ttl < 1 then 1 else ttl);
            ttl = (if ttl > configured then configured else ttl)
        in ttl)"

section \<open>The handler\<close>

datatype action =
    Dial
  | SendFake ConnInfo bytes int
  | Sleep
  | WriteServer bytes
  | Pipe
  | CloseServer
  | CloseApp
  | Panic

text \<open>At most three fakes; the first failed send ends the loop (and is its last action).\<close>

fun send_fakes :: "nat \<Rightarrow> nat \<Rightarrow> (nat \<Rightarrow> bool) \<Rightarrow> action \<Rightarrow> action list" where
  "send_fakes 0 i send_ok act = []"
| "send_fakes (Suc n) i send_ok act = act # (if send_ok i then send_fakes n (i + 1) send_ok act else [])"

text \<open>
  The environment of one connection: the first read (\<open>None\<close> on error), the two TCP addresses
  of the server connection (\<open>None\<close> when the address is not a \<open>*net.TCPAddr\<close>), whether it
  is a \<open>*net.TCPConn\<close>, the tracker and the events captured per poll, and the outcomes of
  the sends and of the write.
\<close>

record env =
  first_read :: "bytes option"
  local_addr :: "(ip \<times> int) option"
  remote_addr :: "(ip \<times> int) option"
  is_tcp_conn :: bool
  tracker :: "conns option"
  polls :: "ConnInfo list list"
  send_ok :: "nat \<Rightarrow> bool"
  write_ok :: bool

text \<open>\<open>GetSeqAck\<close> asserts the local address of a TCP connection, which always holds for one.\<close>

definition seq_ack_of :: "env \<Rightarrow> u32 \<times> u32 \<times> u8" where
  "seq_ack_of e =
     fst (GetSeqAck (tracker e)
       (if is_tcp_conn e then map_option (\<lambda>a. word_of_int (snd a)) (local_addr e) else None) (polls e))"

definition injectAndForward :: "int \<Rightarrow> env \<Rightarrow> action list" where
  "injectAndForward cfgTTL e =
     (case first_read e of
        None \<Rightarrow> []
      | Some clientHello \<Rightarrow>
          if ParseSNI clientHello \<noteq> Some [] \<and> remote_addr e = None then [Panic]
          else
            let (seq, ack, hopLimit) = seq_ack_of e in
            (case (local_addr e, remote_addr e) of
               (Some (lip, lport), Some (rip, rport)) \<Rightarrow>
                 let connInfo = \<lparr>SrcIP = lip, DstIP = rip, SrcPort = word_of_int lport,
                                 DstPort = word_of_int rport, Seq = seq, Ack = ack, HopLimit = hopLimit\<rparr>;
                     ttl = fakeTTL cfgTTL hopLimit
                 in send_fakes 3 0 (send_ok e) (SendFake connInfo TLSClientHello ttl) @ [Sleep] @
                    (if write_ok e then [WriteServer clientHello, Pipe] else [WriteServer clientHello])
             | _ \<Rightarrow> []))"

text \<open>
  \<open>NewConnectionEx\<close>: the deferred closes run last, the server connection's before the
  application's.  A nil connection or an invalid destination ends it at once.
\<close>

definition NewConnectionEx ::
    "(u16 \<Rightarrow> bool) \<Rightarrow> int \<Rightarrow> bool \<Rightarrow> u16 \<Rightarrow> bool \<Rightarrow> env \<Rightarrow> action list" where
  "NewConnectionEx targetPorts cfgTTL valid dstPort dial_ok e =
     (if \<not> valid then []
      else
        [Dial] @
        (if \<not> dial_ok then []
         else (if \<not> targetPorts dstPort then [Pipe] else injectAndForward cfgTTL e) @ [CloseServer]) @
        [CloseApp])"

section \<open>Facts\<close>

lemma send_fakes_replicate:
  "\<exists>k \<le> n. send_fakes n i ok act = replicate k act \<and> (0 < n \<longrightarrow> 0 < k)"
proof (induction n arbitrary: i)
  case (Suc n)
  from Suc.IH [of "i + 1"] obtain k where k: "k \<le> n" "send_fakes n (i + 1) ok act = replicate k act"
    by blast
  show ?case
  proof (cases "ok i")
    case True
    with k show ?thesis by (intro exI [of _ "Suc k"]) simp
  next
    case False
    then show ?thesis by (intro exI [of _ 1]) simp
  qed
qed simp

lemma injectAndForward_trace:
  assumes "first_read e = Some hello" and "local_addr e = Some (lip, lport)"
    and "remote_addr e = Some (rip, rport)" and "seq_ack_of e = (seq, ack, hop)"
  shows "\<exists>k. 1 \<le> k \<and> k \<le> 3 \<and> injectAndForward cfgTTL e =
    replicate k (SendFake \<lparr>SrcIP = lip, DstIP = rip, SrcPort = word_of_int lport, DstPort = word_of_int rport,
      Seq = seq, Ack = ack, HopLimit = hop\<rparr> TLSClientHello (fakeTTL cfgTTL hop)) @
    [Sleep, WriteServer hello] @ (if write_ok e then [Pipe] else [])"
  using send_fakes_replicate [of 3 0 "send_ok e" "SendFake \<lparr>SrcIP = lip, DstIP = rip, SrcPort = word_of_int lport,
      DstPort = word_of_int rport, Seq = seq, Ack = ack, HopLimit = hop\<rparr> TLSClientHello (fakeTTL cfgTTL hop)"]
    assms by (fastforce simp: injectAndForward_def)

lemma fakeTTL_margin:
  assumes "initial \<in> {64, 128, 255}" and "4 \<le> h" and "h < initial"
    and "uint observed = initial - h"
  shows "fakeTTL configured observed \<le> h - 3"
proof -
  have "observed \<noteq> 0" using assms(3,4) by auto
  moreover have "observed > 128 \<longleftrightarrow> uint observed > 128" "observed > 64 \<longleftrightarrow> uint observed > 64"
    by (simp_all add: word_less_def)
  ultimately show ?thesis
    using assms by (auto simp: fakeTTL_def Let_def hopMargin_def)
qed

section \<open>Concrete connection\<close>

definition demo_env :: env where
  "demo_env = \<lparr>first_read = Some TLSClientHello, local_addr = Some ([10, 0, 0, 1], 51234),
     remote_addr = Some ([93, 184, 216, 34], 443), is_tcp_conn = True, tracker = Some Map.empty,
     polls = [[], [the (processPacket_darwin (portMap [443]) demo_synack)]],
     send_ok = (\<lambda>_. True), write_ok = True\<rparr>"

definition demo_event :: ConnInfo where
  "demo_event = \<lparr>SrcIP = [10, 0, 0, 1], DstIP = [93, 184, 216, 34], SrcPort = 51234, DstPort = 443,
     Seq = 1000, Ack = 77, HopLimit = 54\<rparr>"

lemma demo_event_captured: "processPacket_darwin (portMap [443]) demo_synack = Some demo_event"
  by (simp add: processPacket_darwin_def portMap_def demo_synack_def demo_event_def)

lemma demo_env_sel:
  "first_read demo_env = Some TLSClientHello" "local_addr demo_env = Some ([10, 0, 0, 1], 51234)"
  "remote_addr demo_env = Some ([93, 184, 216, 34], 443)" "is_tcp_conn demo_env"
  "tracker demo_env = Some Map.empty" "polls demo_env = [[]] @ ([] @ demo_event # []) # []"
  by (simp_all add: demo_env_def demo_event_captured)

lemma demo_seq_ack: "seq_ack_of demo_env = (1000, 77, 54)"
  by (simp add: seq_ack_of_def GetSeqAck_def demo_env_sel store_event_def) (simp add: demo_event_def)

section \<open>Properties\<close>

text \<open>
  Whatever hop limit was observed, a fake's TTL is at least 1 and at most the configured
  one, and without an observation it is the configured one.
\<close>

theorem fakeTTL_bounds:
  assumes "1 \<le> configured"
  shows "1 \<le> fakeTTL configured observed \<and> fakeTTL configured observed \<le> configured \<and>
    fakeTTL configured 0 = configured"
  using assms by (auto simp: fakeTTL_def Let_def)

theorem fakeTTL_bounds_witness:
  "1 \<le> fakeTTL 8 54 \<and> fakeTTL 8 54 \<le> 8 \<and> fakeTTL 8 0 = 8"
  using fakeTTL_bounds [of 8 54] by simp

text \<open>
  C30: A fake dies at least three hops before the server: if the server sent its SYN-ACK with
  one of the usual initial hop limits 64, 128 or 255 and the SYN-ACK crossed \<open>h\<close> hops, four
  or more, then the fake's TTL is at most \<open>h - 3\<close>, even where the observed value makes the
  code guess a smaller initial value than the server's.
\<close>

theorem fakeTTL_dies_before_server:
  assumes "initial \<in> {64, 128, 255}" and "4 \<le> h" and "h < initial"
    and "uint observed = initial - h"
  shows "fakeTTL configured observed \<le> h - 3"
  using assms by (rule fakeTTL_margin)

theorem fakeTTL_dies_before_server_witness:
  "fakeTTL 8 54 \<le> 10 - 3 \<and> fakeTTL 8 54 = 7"
  using fakeTTL_dies_before_server [of 64 10 54 8]
  by (simp add: fakeTTL_def hopMargin_def)

text \<open>
  C31: Once the application's ClientHello has been read on a target port, the handler sends one
  to three copies of the same fake, waits, writes the ClientHello to the server exactly once
  and unchanged, and only then pipes; no fake follows it, and a failing send does not keep
  the ClientHello back.  Both connections are closed at the end.
\<close>

theorem fakes_precede_client_hello:
  assumes "targetPorts dstPort" and "first_read e = Some hello"
    and "local_addr e = Some (lip, lport)" and "remote_addr e = Some (rip, rport)"
  shows "\<exists>k conn ttl. 1 \<le> k \<and> k \<le> 3 \<and> SrcIP conn = lip \<and> DstIP conn = rip \<and>
    NewConnectionEx targetPorts cfgTTL True dstPort True e =
      [Dial] @ replicate k (SendFake conn TLSClientHello ttl) @ [Sleep, WriteServer hello] @
      (if write_ok e then [Pipe] else []) @ [CloseServer, CloseApp]"
proof -
  obtain seq ack hop where "seq_ack_of e = (seq, ack, hop)" by (cases "seq_ack_of e")
  from injectAndForward_trace [OF assms(2-4) this, of cfgTTL] obtain k where
    "1 \<le> k" "k \<le> 3" "injectAndForward cfgTTL e =
      replicate k (SendFake \<lparr>SrcIP = lip, DstIP = rip, SrcPort = word_of_int lport, DstPort = word_of_int rport,
        Seq = seq, Ack = ack, HopLimit = hop\<rparr> TLSClientHello (fakeTTL cfgTTL hop)) @
      [Sleep, WriteServer hello] @ (if write_ok e then [Pipe] else [])" by blast
  with assms(1) show ?thesis
    by (intro exI [of _ k] exI [of _ "\<lparr>SrcIP = lip, DstIP = rip, SrcPort = word_of_int lport,
      DstPort = word_of_int rport, Seq = seq, Ack = ack, HopLimit = hop\<rparr>"] exI [of _ "fakeTTL cfgTTL hop"])
      (simp add: NewConnectionEx_def)
qed

theorem fakes_precede_client_hello_witness:
  "\<exists>k conn ttl. 1 \<le> k \<and> k \<le> 3 \<and> SrcIP conn = [10, 0, 0, 1] \<and> DstIP conn = [93, 184, 216, 34] \<and>
    NewConnectionEx (portMap [443]) 8 True 443 True demo_env =
      [Dial] @ replicate k (SendFake conn TLSClientHello ttl) @ [Sleep, WriteServer TLSClientHello] @
      [Pipe] @ [CloseServer, CloseApp]"
  using fakes_precede_client_hello [of "portMap [443]" 443 demo_env TLSClientHello "[10, 0, 0, 1]" 51234
      "[93, 184, 216, 34]" 443 8]
  by (simp add: demo_env_def portMap_def)

text \<open>
  C8: End to end on macOS: when the SYN-ACK of the connection the handler has dialled is
  captured while it waits (and no other SYN-ACK for the port), every fake it sends is
  addressed like the connection, carries the server's acknowledgement number as its sequence
  number and the server's sequence number plus one as its acknowledgement, and, with the
  SYN-ACK having crossed four or more hops from an initial hop limit of 64, 128 or 255, has
  a TTL that expires three hops or more before the server.
\<close>

theorem captured_synack_drives_fakes:
  assumes "first_read e = Some hello" and "local_addr e = Some (lip, lport)"
    and "remote_addr e = Some (rip, rport)" and "is_tcp_conn e"
    and "tracker e = Some cs" and "cs (word_of_int lport) = None"
    and "processPacket_darwin ports p = Some evt" and "layer_TCP p = Some tcp"
    and "tcp_DstPort tcp = word_of_int lport"
    and "polls e = before @ (first @ evt # later) # after"
    and "\<forall>evts \<in> set before. \<forall>e \<in> set evts. SrcPort e \<noteq> word_of_int lport"
    and "\<forall>e \<in> set later. SrcPort e \<noteq> word_of_int lport"
    and "initial \<in> {64, 128, 255}" and "4 \<le> h" and "h < initial" and "uint (HopLimit evt) = initial - h"
    and "SendFake conn payload ttl \<in> set (injectAndForward cfgTTL e)"
  shows "SrcIP conn = lip \<and> DstIP conn = rip \<and> SrcPort conn = word_of_int lport \<and>
    Seq conn = tcp_Ack tcp \<and> Ack conn = tcp_Seq tcp + 1 \<and> ttl \<le> h - 3 \<and> payload = TLSClientHello"
proof -
  have evt: "SrcPort evt = tcp_DstPort tcp" "Seq evt = tcp_Ack tcp" "Ack evt = tcp_Seq tcp + 1"
    using assms(7,8) by (auto simp: processPacket_darwin_def split: option.splits if_splits)
  have "fst (WaitForSeqAck (word_of_int lport) (polls e) cs) = Some evt"
    unfolding assms(10) using assms(6,9,11,12) evt(1) by (intro WaitForSeqAck_arrival) simp_all
  then have "seq_ack_of e = (Seq evt, Ack evt, HopLimit evt)"
    using assms(2,4,5) by (auto simp: seq_ack_of_def GetSeqAck_def split: prod.splits)
  from injectAndForward_trace [OF assms(1-3) this, of cfgTTL] assms(17)
  have "conn = \<lparr>SrcIP = lip, DstIP = rip, SrcPort = word_of_int lport, DstPort = word_of_int rport,
      Seq = Seq evt, Ack = Ack evt, HopLimit = HopLimit evt\<rparr>" "payload = TLSClientHello"
    "ttl = fakeTTL cfgTTL (HopLimit evt)"
    by (auto split: if_splits)
  then show ?thesis
    using evt fakeTTL_margin [OF assms(13-16), of cfgTTL] by simp
qed

theorem captured_synack_drives_fakes_witness:
  "SendFake demo_event TLSClientHello 7 \<in> set (injectAndForward 8 demo_env) \<and>
   Seq demo_event = 1000 \<and> Ack demo_event = 76 + 1 \<and> (7 :: int) \<le> 10 - 3"
proof -
  have t: "fakeTTL 8 54 = 7" by (simp add: fakeTTL_def hopMargin_def)
  have s: "SendFake demo_event TLSClientHello 7 \<in> set (injectAndForward 8 demo_env)"
    using injectAndForward_trace [OF demo_env_sel(1-3) demo_seq_ack, of 8]
    by (fastforce simp: t demo_event_def)
  have "SrcIP demo_event = [10, 0, 0, 1] \<and> DstIP demo_event = [93, 184, 216, 34] \<and>
    SrcPort demo_event = word_of_int 51234 \<and> Seq demo_event = 1000 \<and> Ack demo_event = 76 + 1 \<and>
    (7 :: int) \<le> 10 - 3 \<and> TLSClientHello = TLSClientHello"
    using captured_synack_drives_fakes [OF demo_env_sel(1-5) _ demo_event_captured _ _ demo_env_sel(6),
        of "the (layer_TCP demo_synack)" 64 10 demo_event TLSClientHello 7 8] s
    by (simp add: demo_synack_def demo_event_def)
  with s show ?thesis by blast
qed

end
