(* ===== verification/Pipe.thy ===== *)
theory Pipe
  imports Gecit_Prelude "HOL-Library.Sublist"
begin

text \<open>
  The relay between an application and its server (\<open>pipe\<close> in \<open>src/pkg/tun/handler.go\<close>): two
  goroutines, one for each direction, that read from one connection and write to the other
  until either fails, and then put the deadlines of both connections into the past.  Their
  steps interleave in any order.  A read waits until its peer sends, closes or fails or the
  read deadline passes, and a write until its peer takes the data or fails or the write
  deadline passes: what the peers do and what the process does by itself are told apart, so
  that the relay is seen to end by its own deadlines.
\<close>

section \<open>States and steps\<close>

text \<open>\<open>a\<close> is the application's connection, \<open>b\<close> the server's.\<close>

datatype side = AppSide | ServerSide

datatype dir = Upward | Downward

fun src :: "dir \<Rightarrow> side" where
  "src Upward = AppSide"
| "src Downward = ServerSide"

fun dst :: "dir \<Rightarrow> side" where
  "dst Upward = ServerSide"
| "dst Downward = AppSide"

text \<open>
  Where a goroutine is: about to set the read deadline, in \<open>Read\<close>, in \<open>Write\<close> with what it
  has read and whether that read also returned an error, before each of the two calls of
  \<open>SetDeadline\<close>, or done.
\<close>

datatype pc = Arm | Reading | Writing bytes bool | CloseA | CloseB | Finished

definition buffer_size :: nat where
  "buffer_size = 32 * 1024"

text \<open>
  The read deadline of a connection: none, in the future, or passed.  A write deadline is only
  ever set by \<open>SetDeadline(time.Now())\<close>, so it is none or passed.
\<close>

datatype timer = NoDeadline | Ahead | Passed

text \<open>
  The state: the goroutines, the read deadline of a connection, whether its write deadline has
  passed, what its peer has still to send, and what has been written to it.
\<close>

record pipe_state =
  pcs :: "dir \<Rightarrow> pc"
  read_deadline :: "side \<Rightarrow> timer"
  write_expired :: "side \<Rightarrow> bool"
  pending :: "side \<Rightarrow> bytes"
  delivered :: "side \<Rightarrow> bytes"

datatype pipe_event =
    SetReadDeadline dir
  | DeadlinePasses side
  | ReadData dir bytes bool
  | ReadTimeout dir
  | ReadError dir
  | WriteAll dir
  | WritePart dir nat
  | WriteTimeout dir
  | WriteError dir
  | SetDeadline dir side

text \<open>
  What needs no peer: the calls of the goroutines that do not wait, the clock, and the return
  of a call whose deadline has passed.  Data, the end or a failure of a stream and the room for
  a write come from the peers.
\<close>

fun unaided :: "pipe_event \<Rightarrow> bool" where
  "unaided (ReadData _ _ _) = False"
| "unaided (ReadError _) = False"
| "unaided (WriteAll _) = False"
| "unaided (WritePart _ _) = False"
| "unaided (WriteError _) = False"
| "unaided _ = True"

definition goto :: "dir \<Rightarrow> pc \<Rightarrow> pipe_state \<Rightarrow> pipe_state" where
  "goto d p s = s\<lparr>pcs := (pcs s)(d := p)\<rparr>"

definition set_read_deadline :: "side \<Rightarrow> timer \<Rightarrow> pipe_state \<Rightarrow> pipe_state" where
  "set_read_deadline c t s = s\<lparr>read_deadline := (read_deadline s)(c := t)\<rparr>"

definition expire :: "side \<Rightarrow> pipe_state \<Rightarrow> pipe_state" where
  "expire c s = set_read_deadline c Passed (s\<lparr>write_expired := (write_expired s)(c := True)\<rparr>)"

definition deliver :: "dir \<Rightarrow> bytes \<Rightarrow> pipe_state \<Rightarrow> pipe_state" where
  "deliver d bs s = s\<lparr>delivered := (delivered s)(dst d := delivered s (dst d) @ bs)\<rparr>"

text \<open>
  A read whose deadline has passed fails and returns no data, a read whose deadline has not
  passed fails only when the peer has closed or the connection is broken.  A write hands over
  its data in one or several parts; once its deadline has passed it fails and hands over no
  more.
\<close>

inductive pipe_step :: "pipe_state \<Rightarrow> pipe_event \<Rightarrow> pipe_state \<Rightarrow> bool" where
  arm: "pcs s d = Arm \<Longrightarrow> pipe_step s (SetReadDeadline d) (goto d Reading (set_read_deadline (src d) Ahead s))"
| deadline: "read_deadline s c = Ahead \<Longrightarrow> pipe_step s (DeadlinePasses c) (set_read_deadline c Passed s)"
| read_data: "pcs s d = Reading \<Longrightarrow> read_deadline s (src d) \<noteq> Passed \<Longrightarrow> pending s (src d) = chunk @ rest \<Longrightarrow>
    chunk \<noteq> [] \<Longrightarrow> length chunk \<le> buffer_size \<Longrightarrow>
    pipe_step s (ReadData d chunk err) (goto d (Writing chunk err) (s\<lparr>pending := (pending s)(src d := rest)\<rparr>))"
| read_timeout: "pcs s d = Reading \<Longrightarrow> read_deadline s (src d) = Passed \<Longrightarrow> pipe_step s (ReadTimeout d) (goto d CloseA s)"
| read_error: "pcs s d = Reading \<Longrightarrow> read_deadline s (src d) \<noteq> Passed \<Longrightarrow> pipe_step s (ReadError d) (goto d CloseA s)"
| write_all: "pcs s d = Writing chunk err \<Longrightarrow> \<not> write_expired s (dst d) \<Longrightarrow>
    pipe_step s (WriteAll d) (goto d (if err then CloseA else Arm) (deliver d chunk s))"
| write_part: "pcs s d = Writing chunk err \<Longrightarrow> \<not> write_expired s (dst d) \<Longrightarrow> 0 < n \<Longrightarrow> n < length chunk \<Longrightarrow>
    pipe_step s (WritePart d n) (goto d (Writing (drop n chunk) err) (deliver d (take n chunk) s))"
| write_timeout: "pcs s d = Writing chunk err \<Longrightarrow> write_expired s (dst d) \<Longrightarrow> pipe_step s (WriteTimeout d) (goto d CloseA s)"
| write_error: "pcs s d = Writing chunk err \<Longrightarrow> \<not> write_expired s (dst d) \<Longrightarrow> pipe_step s (WriteError d) (goto d CloseA s)"
| close_a: "pcs s d = CloseA \<Longrightarrow> pipe_step s (SetDeadline d AppSide) (goto d CloseB (expire AppSide s))"
| close_b: "pcs s d = CloseB \<Longrightarrow> pipe_step s (SetDeadline d ServerSide) (goto d Finished (expire ServerSide s))"

inductive pipe_run :: "pipe_state \<Rightarrow> pipe_event list \<Rightarrow> pipe_state \<Rightarrow> bool" where
  none: "pipe_run s [] s"
| more: "pipe_run s es s' \<Longrightarrow> pipe_step s' e s'' \<Longrightarrow> pipe_run s (es @ [e]) s''"

definition pipe_start :: "(side \<Rightarrow> bytes) \<Rightarrow> pipe_state" where
  "pipe_start input = \<lparr>pcs = (\<lambda>_. Arm), read_deadline = (\<lambda>_. NoDeadline), write_expired = (\<lambda>_. False),
     pending = input, delivered = (\<lambda>_. [])\<rparr>"

text \<open>\<open>wg.Wait\<close> returns when both goroutines are done.\<close>

definition pipe_returned :: "pipe_state \<Rightarrow> bool" where
  "pipe_returned s \<longleftrightarrow> pcs s Upward = Finished \<and> pcs s Downward = Finished"

section \<open>Facts\<close>

lemma pipe_sel [simp]:
  "pcs (goto d p s) = (pcs s)(d := p)" "read_deadline (goto d p s) = read_deadline s"
  "write_expired (goto d p s) = write_expired s" "pending (goto d p s) = pending s"
  "delivered (goto d p s) = delivered s"
  "pcs (set_read_deadline c t s) = pcs s" "read_deadline (set_read_deadline c t s) = (read_deadline s)(c := t)"
  "write_expired (set_read_deadline c t s) = write_expired s" "pending (set_read_deadline c t s) = pending s"
  "delivered (set_read_deadline c t s) = delivered s"
  "pcs (expire c s) = pcs s" "read_deadline (expire c s) = (read_deadline s)(c := Passed)"
  "write_expired (expire c s) = (write_expired s)(c := True)" "pending (expire c s) = pending s"
  "delivered (expire c s) = delivered s"
  "pcs (deliver d bs s) = pcs s" "read_deadline (deliver d bs s) = read_deadline s"
  "write_expired (deliver d bs s) = write_expired s" "pending (deliver d bs s) = pending s"
  "delivered (deliver d bs s) = (delivered s)(dst d := delivered s (dst d) @ bs)"
  by (simp_all add: goto_def set_read_deadline_def expire_def deliver_def)

lemma side_inj [simp]: "src d = src d' \<longleftrightarrow> d = d'" "dst d = dst d' \<longleftrightarrow> d = d'"
  by (cases d; cases d'; simp)+

text \<open>What a goroutine has read and not yet written.\<close>

fun in_flight :: "pc \<Rightarrow> bytes" where
  "in_flight (Writing chunk err) = chunk"
| "in_flight _ = []"

fun copying :: "pc \<Rightarrow> bool" where
  "copying Arm = True"
| "copying Reading = True"
| "copying (Writing _ _) = True"
| "copying _ = False"

definition bytes_inv :: "bytes \<Rightarrow> bytes \<Rightarrow> pc \<Rightarrow> bytes \<Rightarrow> bool" where
  "bytes_inv inp out p pend \<longleftrightarrow>
     (\<exists>lost. inp = out @ in_flight p @ lost @ pend \<and> (copying p \<longrightarrow> lost = []))"

lemma bytes_inv_simps:
  "bytes_inv inp out Arm pend \<longleftrightarrow> inp = out @ pend"
  "bytes_inv inp out Reading pend \<longleftrightarrow> inp = out @ pend"
  "bytes_inv inp out (Writing c err) pend \<longleftrightarrow> inp = out @ c @ pend"
  "bytes_inv inp out CloseA pend \<longleftrightarrow> (\<exists>lost. inp = out @ lost @ pend)"
  "bytes_inv inp out CloseB pend \<longleftrightarrow> (\<exists>lost. inp = out @ lost @ pend)"
  "bytes_inv inp out Finished pend \<longleftrightarrow> (\<exists>lost. inp = out @ lost @ pend)"
  by (auto simp: bytes_inv_def)

definition dir_inv :: "(side \<Rightarrow> bytes) \<Rightarrow> pipe_state \<Rightarrow> dir \<Rightarrow> bool" where
  "dir_inv input s d \<longleftrightarrow> bytes_inv (input (src d)) (delivered s (dst d)) (pcs s d) (pending s (src d))"

text \<open>A goroutine that is done has put both write deadlines into the past; one that reads has a deadline.\<close>

definition closed_inv :: "pipe_state \<Rightarrow> dir \<Rightarrow> bool" where
  "closed_inv s d \<longleftrightarrow> (pcs s d = CloseB \<longrightarrow> write_expired s AppSide) \<and>
     (pcs s d = Finished \<longrightarrow> write_expired s AppSide \<and> write_expired s ServerSide)"

definition armed_inv :: "pipe_state \<Rightarrow> dir \<Rightarrow> bool" where
  "armed_inv s d \<longleftrightarrow> (pcs s d = Reading \<longrightarrow> read_deadline s (src d) \<noteq> NoDeadline)"

lemma dir_inv_step:
  assumes "pipe_step s e s'" "dir_inv input s d"
  shows "dir_inv input s' d"
  using assms
proof (induction rule: pipe_step.induct)
  case (write_part s d' chunk err n)
  show ?case
  proof (cases "d' = d")
    case True
    with write_part have "input (src d) = delivered s (dst d) @ chunk @ pending s (src d)"
      by (simp add: dir_inv_def bytes_inv_simps)
    also have "\<dots> = (delivered s (dst d) @ take n chunk) @ drop n chunk @ pending s (src d)"
      by (simp add: append_assoc [symmetric] del: append_assoc) simp
    finally show ?thesis using True by (auto simp: dir_inv_def bytes_inv_simps)
  qed (use write_part in \<open>simp add: dir_inv_def\<close>)
qed (auto simp: dir_inv_def bytes_inv_simps)

lemma closed_inv_step: "pipe_step s e s' \<Longrightarrow> closed_inv s d \<Longrightarrow> closed_inv s' d"
  by (induction rule: pipe_step.induct) (auto simp: closed_inv_def)

lemma armed_inv_step: "pipe_step s e s' \<Longrightarrow> armed_inv s d \<Longrightarrow> armed_inv s' d"
  by (induction rule: pipe_step.induct) (auto simp: armed_inv_def)

lemma pipe_run_inv:
  assumes "pipe_run s es s'"
  shows "dir_inv input s d \<Longrightarrow> dir_inv input s' d" "closed_inv s d \<Longrightarrow> closed_inv s' d"
    "armed_inv s d \<Longrightarrow> armed_inv s' d"
  using assms by (induction rule: pipe_run.induct) (auto intro: dir_inv_step closed_inv_step armed_inv_step)

lemma pipe_start_inv:
  "dir_inv input (pipe_start input) d" "closed_inv (pipe_start input) d" "armed_inv (pipe_start input) d"
  by (simp_all add: dir_inv_def closed_inv_def armed_inv_def pipe_start_def bytes_inv_simps)

lemma write_expired_step: "pipe_step s e s' \<Longrightarrow> write_expired s c \<Longrightarrow> write_expired s' c"
  by (induction rule: pipe_step.induct) auto

text \<open>Once both write deadlines have passed nothing more is delivered.\<close>

lemma expired_no_delivery:
  assumes "pipe_run s es s'" "\<forall>c. write_expired s c"
  shows "delivered s' = delivered s \<and> (\<forall>c. write_expired s' c)"
  using assms
proof (induction rule: pipe_run.induct)
  case (more s es s' e s'')
  then have "delivered s' = delivered s" "\<forall>c. write_expired s' c" by auto
  with more(2) show ?case
    by (induction rule: pipe_step.induct) auto
qed simp

text \<open>A measure that every step makes smaller.\<close>

fun pc_rank :: "pc \<Rightarrow> nat" where
  "pc_rank Arm = 5"
| "pc_rank Reading = 3"
| "pc_rank (Writing chunk _) = 6 + length chunk"
| "pc_rank CloseA = 2"
| "pc_rank CloseB = 1"
| "pc_rank Finished = 0"

fun timer_rank :: "timer \<Rightarrow> nat" where
  "timer_rank Ahead = 1"
| "timer_rank _ = 0"

definition dir_rank :: "pipe_state \<Rightarrow> dir \<Rightarrow> nat" where
  "dir_rank s d = pc_rank (pcs s d) + timer_rank (read_deadline s (src d)) + 5 * length (pending s (src d))"

definition pipe_rank :: "pipe_state \<Rightarrow> nat" where
  "pipe_rank s = dir_rank s Upward + dir_rank s Downward"

lemmas rank_defs = pipe_rank_def dir_rank_def

lemma pipe_step_rank: "pipe_step s e s' \<Longrightarrow> pipe_rank s' < pipe_rank s"
proof (induction rule: pipe_step.induct)
  case (arm s d)
  then show ?case by (cases d; cases "read_deadline s (src d)") (simp_all add: rank_defs)
next
  case (deadline s c)
  then show ?case by (cases c) (simp_all add: rank_defs)
next
  case (read_data s d chunk rest err)
  then obtain x xs where "chunk = x # xs" by (cases chunk) auto
  with read_data show ?case by (cases d) (simp_all add: rank_defs)
next
  case (read_timeout s d)
  then show ?case by (cases d) (simp_all add: rank_defs)
next
  case (read_error s d)
  then show ?case by (cases d) (simp_all add: rank_defs)
next
  case (write_all s d chunk err)
  then show ?case by (cases d) (simp_all add: rank_defs)
next
  case (write_part s d chunk err n)
  then show ?case by (cases d) (simp_all add: rank_defs)
next
  case (write_timeout s d chunk err)
  then show ?case by (cases d) (simp_all add: rank_defs)
next
  case (write_error s d chunk err)
  then show ?case by (cases d) (simp_all add: rank_defs)
next
  case (close_a s d)
  then show ?case by (cases d; cases "read_deadline s AppSide") (simp_all add: rank_defs)
next
  case (close_b s d)
  then show ?case by (cases d; cases "read_deadline s ServerSide") (simp_all add: rank_defs)
qed

lemma pipe_run_rank: "pipe_run s es s' \<Longrightarrow> pipe_rank s' + length es \<le> pipe_rank s"
  by (induction rule: pipe_run.induct) (auto dest!: pipe_step_rank)

text \<open>A goroutine waits for room when it is in \<open>Write\<close> and the write deadline has not passed.\<close>

definition waits_for_room :: "pipe_state \<Rightarrow> dir \<Rightarrow> bool" where
  "waits_for_room s d \<longleftrightarrow> (case pcs s d of Writing _ _ \<Rightarrow> \<not> write_expired s (dst d) | _ \<Rightarrow> False)"

lemma goroutine_steps:
  assumes "pcs s d \<noteq> Finished" and "armed_inv s d" and "\<not> waits_for_room s d"
  shows "\<exists>e s'. unaided e \<and> pipe_step s e s'"
proof (cases "pcs s d")
  case Arm
  then show ?thesis by (intro exI [of _ "SetReadDeadline d"]) (auto intro: pipe_step.intros)
next
  case Reading
  show ?thesis
  proof (cases "read_deadline s (src d)")
    case Ahead
    then show ?thesis by (intro exI [of _ "DeadlinePasses (src d)"]) (auto intro: pipe_step.intros)
  next
    case Passed
    with Reading show ?thesis by (intro exI [of _ "ReadTimeout d"]) (auto intro: pipe_step.intros)
  qed (use Reading assms(2) in \<open>simp add: armed_inv_def\<close>)
next
  case (Writing chunk err)
  with assms(3) show ?thesis
    by (intro exI [of _ "WriteTimeout d"]) (auto simp: waits_for_room_def intro: pipe_step.intros)
next
  case CloseA
  then show ?thesis by (intro exI [of _ "SetDeadline d AppSide"]) (auto intro: pipe_step.intros)
next
  case CloseB
  then show ?thesis by (intro exI [of _ "SetDeadline d ServerSide"]) (auto intro: pipe_step.intros)
qed (use assms in simp)

text \<open>A goroutine that is done leaves the other nothing to wait for.\<close>

lemma finished_no_wait: "closed_inv s d \<Longrightarrow> pcs s d = Finished \<Longrightarrow> \<not> waits_for_room s d'"
  by (cases d') (auto simp: closed_inv_def waits_for_room_def split: pc.splits)

lemma relay_progress:
  assumes "\<And>d. closed_inv s d" and "\<And>d. armed_inv s d" and "\<not> pipe_returned s"
    and "\<not> (waits_for_room s Upward \<and> waits_for_room s Downward)"
  shows "\<exists>e s'. unaided e \<and> pipe_step s e s'"
proof -
  obtain d where d: "\<not> waits_for_room s d" using assms(4) by blast
  show ?thesis
  proof (cases "pcs s d = Finished")
    case False
    from goroutine_steps [OF this assms(2) d] show ?thesis .
  next
    case True
    obtain d' where d': "pcs s d' \<noteq> Finished" using assms(3) unfolding pipe_returned_def by blast
    from goroutine_steps [OF d' assms(2) finished_no_wait [OF assms(1) True]] show ?thesis .
  qed
qed

section \<open>Executing steps\<close>

text \<open>The step relation as a function of the event, to run it on concrete traffic.\<close>

fun pipe_exec :: "pipe_event \<Rightarrow> pipe_state \<Rightarrow> pipe_state option" where
  "pipe_exec (SetReadDeadline d) s =
     (if pcs s d = Arm then Some (goto d Reading (set_read_deadline (src d) Ahead s)) else None)"
| "pipe_exec (DeadlinePasses c) s =
     (if read_deadline s c = Ahead then Some (set_read_deadline c Passed s) else None)"
| "pipe_exec (ReadData d chunk err) s =
     (let n = length chunk in
      if pcs s d = Reading \<and> read_deadline s (src d) \<noteq> Passed \<and> chunk \<noteq> [] \<and> n \<le> buffer_size \<and>
         take n (pending s (src d)) = chunk
      then Some (goto d (Writing chunk err) (s\<lparr>pending := (pending s)(src d := drop n (pending s (src d)))\<rparr>))
      else None)"
| "pipe_exec (ReadTimeout d) s =
     (if pcs s d = Reading \<and> read_deadline s (src d) = Passed then Some (goto d CloseA s) else None)"
| "pipe_exec (ReadError d) s =
     (if pcs s d = Reading \<and> read_deadline s (src d) \<noteq> Passed then Some (goto d CloseA s) else None)"
| "pipe_exec (WriteAll d) s =
     (case pcs s d of
        Writing chunk err \<Rightarrow>
          if write_expired s (dst d) then None
          else Some (goto d (if err then CloseA else Arm) (deliver d chunk s))
      | _ \<Rightarrow> None)"
| "pipe_exec (WritePart d n) s =
     (case pcs s d of
        Writing chunk err \<Rightarrow>
          if \<not> write_expired s (dst d) \<and> 0 < n \<and> n < length chunk
          then Some (goto d (Writing (drop n chunk) err) (deliver d (take n chunk) s)) else None
      | _ \<Rightarrow> None)"
| "pipe_exec (WriteTimeout d) s =
     (case pcs s d of Writing _ _ \<Rightarrow> if write_expired s (dst d) then Some (goto d CloseA s) else None | _ \<Rightarrow> None)"
| "pipe_exec (WriteError d) s =
     (case pcs s d of Writing _ _ \<Rightarrow> if write_expired s (dst d) then None else Some (goto d CloseA s) | _ \<Rightarrow> None)"
| "pipe_exec (SetDeadline d AppSide) s =
     (if pcs s d = CloseA then Some (goto d CloseB (expire AppSide s)) else None)"
| "pipe_exec (SetDeadline d ServerSide) s =
     (if pcs s d = CloseB then Some (goto d Finished (expire ServerSide s)) else None)"

lemma pipe_exec_step: "pipe_exec e s = Some s' \<Longrightarrow> pipe_step s e s'"
proof (cases e)
  case (ReadData d chunk err)
  assume "pipe_exec e s = Some s'"
  with ReadData have g: "pcs s d = Reading" "read_deadline s (src d) \<noteq> Passed" "chunk \<noteq> []" "length chunk \<le> buffer_size"
    "take (length chunk) (pending s (src d)) = chunk"
    and s': "s' = goto d (Writing chunk err) (s\<lparr>pending := (pending s)(src d := drop (length chunk) (pending s (src d)))\<rparr>)"
    by (auto simp: Let_def split: if_splits)
  have "pending s (src d) = chunk @ drop (length chunk) (pending s (src d))"
    using append_take_drop_id [of "length chunk" "pending s (src d)"] g(5) by simp
  from read_data [OF g(1,2) this g(3,4)] show ?thesis by (simp add: ReadData s')
next
  case (WriteAll d)
  assume "pipe_exec e s = Some s'"
  with WriteAll obtain chunk err where "pcs s d = Writing chunk err" "\<not> write_expired s (dst d)"
    "s' = goto d (if err then CloseA else Arm) (deliver d chunk s)"
    by (auto split: if_splits pc.splits)
  with write_all [of s d chunk err] show ?thesis by (simp add: WriteAll)
next
  case (SetDeadline d c)
  then show "pipe_exec e s = Some s' \<Longrightarrow> ?thesis"
    by (cases c) (auto split: if_splits intro: pipe_step.intros)
qed (auto split: if_splits pc.splits intro: pipe_step.intros)

lemma pipe_step_exec: "pipe_step s e s' \<Longrightarrow> pipe_exec e s = Some s'"
  by (induction rule: pipe_step.induct) simp_all

definition pipe_execs :: "pipe_event list \<Rightarrow> pipe_state \<Rightarrow> pipe_state option" where
  "pipe_execs es s = foldl (\<lambda>x e. Option.bind x (pipe_exec e)) (Some s) es"

lemma pipe_execs_run: "pipe_execs es s = Some s' \<Longrightarrow> pipe_run s es s'"
proof (induction es arbitrary: s' rule: rev_induct)
  case (snoc e es)
  then obtain s1 where "pipe_execs es s = Some s1" "pipe_exec e s1 = Some s'"
    by (auto simp: pipe_execs_def bind_eq_Some_conv)
  with snoc show ?case by (auto intro: pipe_run.intros pipe_exec_step)
qed (auto simp: pipe_execs_def intro: pipe_run.none)

text \<open>The application sends two bytes and closes its sending half; the answer is cut.\<close>

definition demo_traffic :: "side \<Rightarrow> bytes" where
  "demo_traffic c = (case c of AppSide \<Rightarrow> [1, 2] | ServerSide \<Rightarrow> [7, 8, 9])"

definition demo_half_close :: "pipe_event list" where
  "demo_half_close =
     [SetReadDeadline Upward, SetReadDeadline Downward, ReadData Upward [1, 2] False, WriteAll Upward,
      ReadData Downward [7] False, WriteAll Downward, SetReadDeadline Upward, ReadError Upward,
      SetDeadline Upward AppSide, SetDeadline Upward ServerSide]"

definition demo_after_close :: "pipe_event list" where
  "demo_after_close =
     [SetReadDeadline Downward, ReadData Downward [8, 9] False, WriteTimeout Downward,
      SetDeadline Downward AppSide, SetDeadline Downward ServerSide]"

lemma demo_half_close_run:
  "\<exists>s. pipe_run (pipe_start demo_traffic) demo_half_close s \<and> pcs s Upward = Finished \<and>
     delivered s ServerSide = [1, 2] \<and> delivered s AppSide = [7] \<and>
     (\<exists>s'. pipe_run s demo_after_close s' \<and> pipe_returned s')"
proof -
  have "map_option (\<lambda>s. (pcs s Upward, delivered s ServerSide, delivered s AppSide,
        map_option pipe_returned (pipe_execs demo_after_close s)))
      (pipe_execs demo_half_close (pipe_start demo_traffic)) = Some (Finished, [1, 2], [7], Some True)"
    by (simp add: pipe_execs_def demo_half_close_def demo_after_close_def Let_def pipe_start_def
        demo_traffic_def goto_def set_read_deadline_def expire_def deliver_def buffer_size_def pipe_returned_def)
  then obtain s where s: "pipe_execs demo_half_close (pipe_start demo_traffic) = Some s" "pcs s Upward = Finished"
      "delivered s ServerSide = [1, 2]" "delivered s AppSide = [7]"
      "map_option pipe_returned (pipe_execs demo_after_close s) = Some True"
    by (cases "pipe_execs demo_half_close (pipe_start demo_traffic)") (simp_all only: option.map prod.inject option.inject option.distinct)
  then obtain s' where "pipe_execs demo_after_close s = Some s'" "pipe_returned s'"
    by (cases "pipe_execs demo_after_close s") simp_all
  with s show ?thesis using pipe_execs_run by blast
qed

section \<open>Properties\<close>

text \<open>
  The relay never alters, reorders, duplicates or invents bytes: under every interleaving
  of the two goroutines and every outcome of their reads and writes, what has been written
  to either side is a prefix of what the other side sent, and while a direction copies,
  nothing of what it has read is missing: it is written or about to be.
\<close>

theorem pipe_delivers_prefix:
  assumes "pipe_run (pipe_start input) es s"
  shows "prefix (delivered s (dst d)) (input (src d)) \<and>
    (copying (pcs s d) \<longrightarrow> input (src d) = delivered s (dst d) @ in_flight (pcs s d) @ pending s (src d))"
proof -
  have "dir_inv input s d" using pipe_run_inv(1) [OF assms pipe_start_inv(1)] .
  then show ?thesis by (auto simp: dir_inv_def bytes_inv_def)
qed

theorem pipe_delivers_prefix_witness:
  "\<exists>s. pipe_run (pipe_start demo_traffic) demo_half_close s \<and> prefix (delivered s AppSide) [7, 8, 9]"
proof -
  obtain s where r: "pipe_run (pipe_start demo_traffic) demo_half_close s" using demo_half_close_run by blast
  from pipe_delivers_prefix [OF r, of Downward] r show ?thesis by (auto simp: demo_traffic_def)
qed

text \<open>
  The relay returns: a run takes at most ten steps and five for every byte sent, and until both
  goroutines are done, so that \<open>wg.Wait\<close> returns, a step that needs no peer is possible.  The
  one exception is the code's: a write has no deadline until a goroutine ends, so the relay
  waits when both goroutines wait for room.
\<close>

theorem pipe_returns:
  assumes "pipe_run (pipe_start input) es s"
  shows "length es \<le> 10 + 5 * (length (input AppSide) + length (input ServerSide)) \<and>
    ((\<exists>e s'. unaided e \<and> pipe_step s e s') \<or> pipe_returned s \<or>
     waits_for_room s Upward \<and> waits_for_room s Downward)"
proof
  have "pipe_rank (pipe_start input) = 10 + 5 * (length (input AppSide) + length (input ServerSide))"
    by (simp add: rank_defs pipe_start_def)
  with pipe_run_rank [OF assms] show "length es \<le> 10 + 5 * (length (input AppSide) + length (input ServerSide))"
    by linarith
  show "(\<exists>e s'. unaided e \<and> pipe_step s e s') \<or> pipe_returned s \<or>
      waits_for_room s Upward \<and> waits_for_room s Downward"
    using relay_progress [of s] pipe_run_inv(2,3) [OF assms] pipe_start_inv(2,3) by blast
qed

theorem pipe_returns_witness:
  "\<exists>s. pipe_run (pipe_start demo_traffic) demo_half_close s \<and> length demo_half_close \<le> 35"
proof -
  obtain s where r: "pipe_run (pipe_start demo_traffic) demo_half_close s" using demo_half_close_run by blast
  from pipe_returns [OF r] r show ?thesis by (auto simp: demo_traffic_def)
qed

text \<open>
  The end of one direction ends the other: from the moment either goroutine is done,
  nothing more is delivered to either side, because the write deadlines of both connections
  have passed and are never moved again; this holds although the other goroutine may still
  set its read deadline anew and read once more.  A peer that closes only its sending half
  therefore loses the rest of the answer.
\<close>

theorem pipe_end_cuts_both:
  assumes "pipe_run (pipe_start input) es s" and "pcs s d = Finished" and "pipe_run s es' s'"
  shows "delivered s' = delivered s"
proof -
  have "closed_inv s d" using pipe_run_inv(2) [OF assms(1) pipe_start_inv(2)] .
  then have "\<forall>c. write_expired s c" using assms(2) by (metis closed_inv_def side.exhaust)
  from expired_no_delivery [OF assms(3) this] show ?thesis by simp
qed

theorem pipe_end_cuts_both_witness:
  "\<exists>s s'. pipe_run (pipe_start demo_traffic) demo_half_close s \<and> pipe_run s demo_after_close s' \<and>
     pipe_returned s' \<and> delivered s' AppSide = [7]"
proof -
  obtain s s' where r: "pipe_run (pipe_start demo_traffic) demo_half_close s" "pcs s Upward = Finished"
    "delivered s AppSide = [7]" "pipe_run s demo_after_close s'" "pipe_returned s'"
    using demo_half_close_run by blast
  from pipe_end_cuts_both [OF r(1,2,4)] r show ?thesis
    by (intro exI [of _ s] exI [of _ s']) simp
qed

text \<open>
  The idle timeout is one of each direction, not of the connection: a transfer in one direction
  is cut when the other has been silent for \<open>idleTimeout\<close>, although data flows.  Here the server
  sends three bytes, each read at once, while the application is silent: its read times out, and
  the last byte is lost.
\<close>

definition demo_download :: "pipe_event list" where
  "demo_download =
     [SetReadDeadline Upward, SetReadDeadline Downward, ReadData Downward [7] False, WriteAll Downward,
      SetReadDeadline Downward, ReadData Downward [8] False, WriteAll Downward, SetReadDeadline Downward,
      DeadlinePasses AppSide, ReadTimeout Upward, SetDeadline Upward AppSide, SetDeadline Upward ServerSide,
      ReadTimeout Downward, SetDeadline Downward AppSide, SetDeadline Downward ServerSide]"

definition demo_answer :: "side \<Rightarrow> bytes" where
  "demo_answer c = (case c of AppSide \<Rightarrow> [] | ServerSide \<Rightarrow> [7, 8, 9])"

theorem one_way_transfer_cut:
  "\<exists>s. pipe_run (pipe_start demo_answer) demo_download s \<and> pipe_returned s \<and>
     delivered s AppSide = [7, 8] \<and> pending s ServerSide = [9]"
proof -
  have "map_option (\<lambda>s. (pipe_returned s, delivered s AppSide, pending s ServerSide))
      (pipe_execs demo_download (pipe_start demo_answer)) = Some (True, [7, 8], [9])"
    by (simp add: pipe_execs_def demo_download_def Let_def pipe_start_def
        demo_answer_def goto_def set_read_deadline_def expire_def deliver_def buffer_size_def pipe_returned_def)
  then obtain s where "pipe_execs demo_download (pipe_start demo_answer) = Some s" "pipe_returned s"
      "delivered s AppSide = [7, 8]" "pending s ServerSide = [9]"
    by (cases "pipe_execs demo_download (pipe_start demo_answer)") (simp_all only: option.map prod.inject option.inject option.distinct simp_thms)
  then show ?thesis using pipe_execs_run by blast
qed

text \<open>Both goroutines can wait for room at once: two peers that send and do not read.\<close>

definition demo_no_room :: "pipe_event list" where
  "demo_no_room = [SetReadDeadline Upward, SetReadDeadline Downward, ReadData Upward [1, 2] False, ReadData Downward [7] False]"

theorem relay_may_wait_for_room:
  "\<exists>s. pipe_run (pipe_start demo_traffic) demo_no_room s \<and> waits_for_room s Upward \<and> waits_for_room s Downward"
proof -
  have "map_option (\<lambda>s. waits_for_room s Upward \<and> waits_for_room s Downward)
      (pipe_execs demo_no_room (pipe_start demo_traffic)) = Some True"
    by (simp add: pipe_execs_def demo_no_room_def Let_def pipe_start_def
        demo_traffic_def goto_def set_read_deadline_def buffer_size_def waits_for_room_def)
  then show ?thesis using pipe_execs_run
    by (cases "pipe_execs demo_no_room (pipe_start demo_traffic)") auto
qed

end
