(* ===== verification/Tun_Session.thy ===== *)
theory Tun_Session
  imports Tun_Handler Pipe Event_Runs
begin

text \<open>
  A whole TCP session of the transparent proxy: \<open>NewConnectionEx\<close> and \<open>injectAndForward\<close>
  (\<open>src/pkg/tun/handler.go\<close>) step by step, with the bytes.  \<open>Tun_Handler\<close> says which actions the
  handler performs, \<open>Pipe\<close> what the two copying goroutines do to the streams; here the first
  read takes the ClientHello out of the application's stream, the handler forwards it, and the
  relay goes on with the rest.  The first read has a deadline of five seconds, which is taken
  away when it has returned; the dial gives up after five seconds as well.
\<close>

section \<open>States and steps\<close>

datatype ses_pc =
    Dialing | ReadingHello | SendingFakes nat nat bytes action | Sleeping bytes | WritingHello bytes
  | Relaying | ClosingServer | ClosingApp | SessionDone

record session =
  ses_at :: ses_pc
  ses_io :: pipe_state
  ses_trace :: "action list"

datatype ses_event =
    DialReturns | HelloRead | HelloDeadline | HelloTimeout | HelloFails | FakeSent | Slept | HelloWritten nat | Relay pipe_event | RelayReturns
  | ServerClosed | AppClosed

text \<open>
  The parameters of a connection: the target ports, the configured TTL, the port, the outcome
  of the dial, and the answers of the outside to \<open>injectAndForward\<close>.
\<close>

record session_env =
  se_ports :: "u16 \<Rightarrow> bool"
  se_ttl :: int
  se_port :: u16
  se_dial_ok :: bool
  se_env :: env

text \<open>
  The steps that need no peer: those of the handler that do not wait, the clock, the return of a
  call with a deadline (the dial, the first read: when the environment answers it, the answer has
  come in time), and those of the relay.  Only the failure of the first read before its deadline
  and the write of the ClientHello, which has no deadline, wait for the other end.
\<close>

fun ses_unaided :: "ses_event \<Rightarrow> bool" where
  "ses_unaided HelloFails = False"
| "ses_unaided (HelloWritten _) = False"
| "ses_unaided (Relay e) = unaided e"
| "ses_unaided _ = True"

definition ses_goto :: "ses_pc \<Rightarrow> session \<Rightarrow> session" where
  "ses_goto p s = s\<lparr>ses_at := p\<rparr>"

definition ses_act :: "action list \<Rightarrow> ses_pc \<Rightarrow> session \<Rightarrow> session" where
  "ses_act acts p s = s\<lparr>ses_at := p, ses_trace := ses_trace s @ acts\<rparr>"

text \<open>\<open>make([]byte, 16384)\<close>: what one read of the first bytes can return at most.\<close>

definition hello_size :: nat where
  "hello_size = 16384"

text \<open>
  The first read takes what it returns out of the application's stream (at least one byte:
  a read into a buffer that is not empty blocks until there is something or fails).
\<close>

definition take_hello :: "bytes \<Rightarrow> pipe_state \<Rightarrow> pipe_state option" where
  "take_hello hello io =
     (let n = length hello in
      if hello \<noteq> [] \<and> n \<le> hello_size \<and> take n (pending io AppSide) = hello
      then Some (io\<lparr>pending := (pending io)(AppSide := drop n (pending io AppSide))\<rparr>) else None)"

text \<open>What follows the read: the assertion, the numbers, the addresses.\<close>

definition after_hello :: "session_env \<Rightarrow> bytes \<Rightarrow> session \<Rightarrow> session" where
  "after_hello se hello s =
     (let e = se_env se in
      if ParseSNI hello \<noteq> Some [] \<and> remote_addr e = None then ses_act [Panic] ClosingServer s
      else
        let (seq, ack, hopLimit) = seq_ack_of e in
        (case (local_addr e, remote_addr e) of
           (Some (lip, lport), Some (rip, rport)) \<Rightarrow>
             let connInfo = \<lparr>SrcIP = lip, DstIP = rip, SrcPort = word_of_int lport,
                             DstPort = word_of_int rport, Seq = seq, Ack = ack, HopLimit = hopLimit\<rparr>
             in ses_goto (SendingFakes 3 0 hello (SendFake connInfo TLSClientHello (fakeTTL (se_ttl se) hopLimit))) s
         | _ \<Rightarrow> ses_goto ClosingServer s))"

fun ses_step :: "session_env \<Rightarrow> ses_event \<Rightarrow> session \<Rightarrow> session option" where
  "ses_step se DialReturns s =
     (if ses_at s = Dialing
      then Some (if \<not> se_dial_ok se then ses_act [Dial] ClosingApp s
                 else if se_ports se (se_port se)
                 then ses_act [Dial] ReadingHello (s\<lparr>ses_io := set_read_deadline AppSide Ahead (ses_io s)\<rparr>)
                 else ses_act [Dial, Pipe] Relaying s)
      else None)"
| "ses_step se HelloRead s =
     (if ses_at s = ReadingHello \<and> read_deadline (ses_io s) AppSide \<noteq> Passed
      then (case first_read (se_env se) of
              None \<Rightarrow> None
            | Some hello \<Rightarrow>
                map_option (\<lambda>io. after_hello se hello (s\<lparr>ses_io := set_read_deadline AppSide NoDeadline io\<rparr>))
                  (take_hello hello (ses_io s)))
      else None)"
| "ses_step se HelloDeadline s =
     (if ses_at s = ReadingHello \<and> first_read (se_env se) = None \<and> read_deadline (ses_io s) AppSide = Ahead
      then Some (s\<lparr>ses_io := set_read_deadline AppSide Passed (ses_io s)\<rparr>) else None)"
| "ses_step se HelloTimeout s =
     (if ses_at s = ReadingHello \<and> first_read (se_env se) = None \<and> read_deadline (ses_io s) AppSide = Passed
      then Some (ses_goto ClosingServer s) else None)"
| "ses_step se HelloFails s =
     (if ses_at s = ReadingHello \<and> first_read (se_env se) = None \<and> read_deadline (ses_io s) AppSide \<noteq> Passed
      then Some (ses_goto ClosingServer s) else None)"
| "ses_step se FakeSent s =
     (case ses_at s of
        SendingFakes (Suc n) i hello act \<Rightarrow>
          Some (ses_act [act] (if send_ok (se_env se) i \<and> n > 0 then SendingFakes n (i + 1) hello act else Sleeping hello) s)
      | _ \<Rightarrow> None)"
| "ses_step se Slept s = (case ses_at s of Sleeping hello \<Rightarrow> Some (ses_act [Sleep] (WritingHello hello) s) | _ \<Rightarrow> None)"
| "ses_step se (HelloWritten n) s =
     (case ses_at s of
        WritingHello hello \<Rightarrow>
          if write_ok (se_env se) then
            (if n = length hello
             then Some (ses_act [WriteServer hello, Pipe] Relaying (s\<lparr>ses_io := deliver Upward hello (ses_io s)\<rparr>)) else None)
          else if n \<le> length hello
          then Some (ses_act [WriteServer hello] ClosingServer (s\<lparr>ses_io := deliver Upward (take n hello) (ses_io s)\<rparr>))
          else None
      | _ \<Rightarrow> None)"
| "ses_step se (Relay e) s =
     (if ses_at s = Relaying then map_option (\<lambda>io. s\<lparr>ses_io := io\<rparr>) (pipe_exec e (ses_io s)) else None)"
| "ses_step se RelayReturns s =
     (if ses_at s = Relaying \<and> pipe_returned (ses_io s) then Some (ses_goto ClosingServer s) else None)"
| "ses_step se ServerClosed s = (if ses_at s = ClosingServer then Some (ses_act [CloseServer] ClosingApp s) else None)"
| "ses_step se AppClosed s = (if ses_at s = ClosingApp then Some (ses_act [CloseApp] SessionDone s) else None)"

primrec ses_run :: "session_env \<Rightarrow> ses_event list \<Rightarrow> session \<Rightarrow> session option" where
  "ses_run se [] s = Some s"
| "ses_run se (e # es) s = Option.bind (ses_step se e s) (ses_run se es)"

definition new_session :: "(side \<Rightarrow> bytes) \<Rightarrow> session" where
  "new_session input = \<lparr>ses_at = Dialing, ses_io = pipe_start input, ses_trace = []\<rparr>"

section \<open>Facts\<close>

lemma ses_sel [simp]:
  "ses_at (ses_goto p s) = p" "ses_io (ses_goto p s) = ses_io s" "ses_trace (ses_goto p s) = ses_trace s"
  "ses_at (ses_act acts p s) = p" "ses_io (ses_act acts p s) = ses_io s" "ses_trace (ses_act acts p s) = ses_trace s @ acts"
  by (simp_all add: ses_goto_def ses_act_def)

text \<open>The handler's actions that are still to come.\<close>

fun ses_rest :: "session_env \<Rightarrow> ses_pc \<Rightarrow> action list" where
  "ses_rest se Dialing = NewConnectionEx (se_ports se) (se_ttl se) True (se_port se) (se_dial_ok se) (se_env se)"
| "ses_rest se ReadingHello = injectAndForward (se_ttl se) (se_env se) @ [CloseServer, CloseApp]"
| "ses_rest se (SendingFakes n i hello act) =
     send_fakes n i (send_ok (se_env se)) act @ [Sleep] @
     (if write_ok (se_env se) then [WriteServer hello, Pipe] else [WriteServer hello]) @ [CloseServer, CloseApp]"
| "ses_rest se (Sleeping hello) =
     [Sleep] @ (if write_ok (se_env se) then [WriteServer hello, Pipe] else [WriteServer hello]) @ [CloseServer, CloseApp]"
| "ses_rest se (WritingHello hello) =
     (if write_ok (se_env se) then [WriteServer hello, Pipe] else [WriteServer hello]) @ [CloseServer, CloseApp]"
| "ses_rest se Relaying = [CloseServer, CloseApp]"
| "ses_rest se ClosingServer = [CloseServer, CloseApp]"
| "ses_rest se ClosingApp = [CloseApp]"
| "ses_rest se SessionDone = []"

lemma after_hello_rest:
  assumes "first_read (se_env se) = Some hello"
  shows "ses_trace (after_hello se hello s) @ ses_rest se (ses_at (after_hello se hello s)) =
    ses_trace s @ injectAndForward (se_ttl se) (se_env se) @ [CloseServer, CloseApp]"
  using assms by (auto simp: after_hello_def injectAndForward_def Let_def split: prod.splits option.splits)

lemma ses_step_trace:
  assumes "ses_step se e s = Some s'"
  shows "ses_trace s' @ ses_rest se (ses_at s') = ses_trace s @ ses_rest se (ses_at s)"
proof (cases e)
  case HelloRead
  with assms show ?thesis
    by (auto split: if_splits option.splits simp: after_hello_rest)
next
  case HelloTimeout
  with assms show ?thesis by (auto simp: injectAndForward_def split: if_splits)
next
  case HelloFails
  with assms show ?thesis by (auto simp: injectAndForward_def split: if_splits)
next
  case FakeSent
  with assms obtain n i hello act where a: "ses_at s = SendingFakes (Suc n) i hello act"
    by (auto split: ses_pc.splits nat.splits)
  with assms FakeSent show ?thesis by (cases n) auto
qed (use assms in \<open>auto simp: NewConnectionEx_def split: if_splits ses_pc.splits option.splits\<close>)

text \<open>What the streams look like at each point.\<close>

definition quiet :: "pipe_state \<Rightarrow> bool" where
  "quiet io \<longleftrightarrow> (\<forall>d. pcs io d = Arm) \<and> (\<forall>c. delivered io c = [])"

definition cut :: "(side \<Rightarrow> bytes) \<Rightarrow> pipe_state \<Rightarrow> bool" where
  "cut input io \<longleftrightarrow> prefix (delivered io ServerSide) (input AppSide) \<and> prefix (delivered io AppSide) (input ServerSide)"

definition held_back :: "(side \<Rightarrow> bytes) \<Rightarrow> bytes \<Rightarrow> pipe_state \<Rightarrow> bool" where
  "held_back input hello io \<longleftrightarrow> quiet io \<and> input AppSide = hello @ pending io AppSide \<and> pending io ServerSide = input ServerSide"

definition flowing :: "(side \<Rightarrow> bytes) \<Rightarrow> pipe_state \<Rightarrow> bool" where
  "flowing input io \<longleftrightarrow> dir_inv input io Upward \<and> dir_inv input io Downward"

fun streams_ok :: "(side \<Rightarrow> bytes) \<Rightarrow> ses_pc \<Rightarrow> pipe_state \<Rightarrow> bool" where
  "streams_ok input Dialing io = held_back input [] io"
| "streams_ok input ReadingHello io = held_back input [] io"
| "streams_ok input (SendingFakes n i hello act) io = held_back input hello io"
| "streams_ok input (Sleeping hello) io = held_back input hello io"
| "streams_ok input (WritingHello hello) io = held_back input hello io"
| "streams_ok input Relaying io = flowing input io"
| "streams_ok input _ io = cut input io"

lemma held_back_deadline [simp]: "held_back input hello (set_read_deadline c t io) = held_back input hello io"
  by (simp add: held_back_def quiet_def)

lemma held_back_cut: "held_back input hello io \<Longrightarrow> cut input io"
  by (simp add: held_back_def cut_def quiet_def)

lemma held_back_flowing: "held_back input [] io \<Longrightarrow> flowing input io"
  by (simp add: held_back_def flowing_def quiet_def dir_inv_def bytes_inv_simps)

lemma written_flowing: "held_back input hello io \<Longrightarrow> flowing input (deliver Upward hello io)"
  by (simp add: held_back_def flowing_def quiet_def dir_inv_def bytes_inv_simps)

lemma written_cut: "held_back input hello io \<Longrightarrow> cut input (deliver Upward (take n hello) io)"
  by (simp add: held_back_def cut_def quiet_def prefix_def)
    (metis append_take_drop_id append.assoc)

lemma flowing_cut: "flowing input io \<Longrightarrow> cut input io"
  by (auto simp: flowing_def cut_def dir_inv_def bytes_inv_def)

lemma flowing_exec: "pipe_exec e io = Some io' \<Longrightarrow> flowing input io \<Longrightarrow> flowing input io'"
  using pipe_exec_step dir_inv_step unfolding flowing_def by blast

lemma take_hello_held:
  assumes "take_hello hello io = Some io'" and "held_back input [] io"
  shows "held_back input hello io'"
proof -
  from assms(1) have t: "take (length hello) (pending io AppSide) = hello"
    and io': "io' = io\<lparr>pending := (pending io)(AppSide := drop (length hello) (pending io AppSide))\<rparr>"
    by (auto simp: take_hello_def Let_def split: if_splits)
  from append_take_drop_id [of "length hello" "pending io AppSide"]
  have "pending io AppSide = hello @ drop (length hello) (pending io AppSide)" by (simp add: t)
  with assms(2) show ?thesis by (simp add: io' held_back_def quiet_def)
qed

lemma after_hello_streams:
  assumes "held_back input hello (ses_io s)"
  shows "streams_ok input (ses_at (after_hello se hello s)) (ses_io (after_hello se hello s))"
  using assms by (auto simp: after_hello_def Let_def held_back_cut split: prod.splits option.splits)

lemma ses_step_streams:
  assumes "ses_step se e s = Some s'" and "streams_ok input (ses_at s) (ses_io s)"
  shows "streams_ok input (ses_at s') (ses_io s')"
proof (cases e)
  case HelloRead
  with assms obtain hello io where h: "take_hello hello (ses_io s) = Some io"
      "s' = after_hello se hello (s\<lparr>ses_io := set_read_deadline AppSide NoDeadline io\<rparr>)" "held_back input [] (ses_io s)"
    by (auto split: if_splits option.splits)
  show ?thesis using take_hello_held [OF h(1,3)] by (simp add: h(2) after_hello_streams)
qed (use assms in \<open>auto split: if_splits ses_pc.splits nat.splits
    intro: held_back_cut held_back_flowing written_flowing written_cut flowing_cut flowing_exec\<close>)

interpretation ses_runs: event_runs "ses_step se" "ses_run se" for se
  by unfold_locales simp_all

lemma ses_run_inv:
  "ses_run se es s = Some s' \<Longrightarrow> streams_ok input (ses_at s) (ses_io s) \<Longrightarrow>
   streams_ok input (ses_at s') (ses_io s') \<and>
   ses_trace s' @ ses_rest se (ses_at s') = ses_trace s @ ses_rest se (ses_at s)"
  by (erule ses_runs.run_keeps) (auto intro: ses_step_streams simp: ses_step_trace)

lemma streams_cut: "streams_ok input p io \<Longrightarrow> cut input io"
  by (cases p) (auto intro: held_back_cut flowing_cut)

text \<open>On a target port nothing reaches the server before a fake is on its way.\<close>

fun is_fake :: "action \<Rightarrow> bool" where
  "is_fake (SendFake conn payload ttl) = (payload = TLSClientHello)"
| "is_fake _ = False"

fun past_fakes :: "ses_pc \<Rightarrow> bool" where
  "past_fakes (Sleeping _) = True"
| "past_fakes (WritingHello _) = True"
| "past_fakes Relaying = True"
| "past_fakes _ = False"

fun fakes_due :: "ses_pc \<Rightarrow> bool" where
  "fakes_due (SendingFakes n i hello act) = (n > 0 \<and> is_fake act)"
| "fakes_due _ = True"

definition faked_inv :: "session \<Rightarrow> bool" where
  "faked_inv s \<longleftrightarrow> fakes_due (ses_at s) \<and>
     (past_fakes (ses_at s) \<or> delivered (ses_io s) ServerSide \<noteq> [] \<longrightarrow> list_ex is_fake (ses_trace s))"

lemma after_hello_faked:
  assumes "faked_inv s" and "ses_at s = ReadingHello"
  shows "faked_inv (after_hello se hello s)"
  using assms by (auto simp: faked_inv_def after_hello_def Let_def list_ex_iff split: prod.splits option.splits)

lemma take_hello_delivered: "take_hello hello io = Some io' \<Longrightarrow> delivered io' = delivered io"
  by (auto simp: take_hello_def Let_def split: if_splits)

lemma ses_step_faked:
  assumes "ses_step se e s = Some s'" and "faked_inv s" and "se_ports se (se_port se)"
  shows "faked_inv s'"
proof (cases e)
  case HelloRead
  with assms(1) obtain hello io where h: "take_hello hello (ses_io s) = Some io"
      "s' = after_hello se hello (s\<lparr>ses_io := set_read_deadline AppSide NoDeadline io\<rparr>)" "ses_at s = ReadingHello"
    by (auto split: if_splits option.splits)
  with assms(2) have "faked_inv (s\<lparr>ses_io := set_read_deadline AppSide NoDeadline io\<rparr>)"
    by (simp add: faked_inv_def take_hello_delivered [OF h(1)])
  with after_hello_faked h show ?thesis by simp
next
  case FakeSent
  with assms(1) obtain n i hello act where "ses_at s = SendingFakes (Suc n) i hello act"
    "s' = ses_act [act] (if send_ok (se_env se) i \<and> n > 0 then SendingFakes n (i + 1) hello act else Sleeping hello) s"
    by (auto split: ses_pc.splits nat.splits)
  with assms(2) show ?thesis by (auto simp: faked_inv_def)
next
  case (Relay pe)
  with assms show ?thesis by (auto simp: faked_inv_def split: if_splits)
qed (use assms in \<open>auto simp: faked_inv_def split: if_splits ses_pc.splits\<close>)

lemma ses_run_faked:
  "ses_run se es s = Some s' \<Longrightarrow> faked_inv s \<Longrightarrow> se_ports se (se_port se) \<Longrightarrow> faked_inv s'"
  by (erule ses_runs.run_keeps) (auto intro: ses_step_faked)

text \<open>The fakes still to be sent when the port is no target port: none are ever due.\<close>

lemma ses_step_due: "ses_step se e s = Some s' \<Longrightarrow> fakes_due (ses_at s) \<Longrightarrow> fakes_due (ses_at s')"
  by (cases e) (auto simp: after_hello_def Let_def split: if_splits ses_pc.splits nat.splits prod.splits option.splits)

lemma ses_run_due: "ses_run se es s = Some s' \<Longrightarrow> fakes_due (ses_at s) \<Longrightarrow> fakes_due (ses_at s')"
  by (erule ses_runs.run_keeps) (auto intro: ses_step_due)

text \<open>A measure that every step makes smaller.\<close>

fun ses_pc_rank :: "ses_pc \<Rightarrow> nat" where
  "ses_pc_rank Dialing = 12"
| "ses_pc_rank ReadingHello = 10"
| "ses_pc_rank (SendingFakes n i hello act) = 5 + n"
| "ses_pc_rank (Sleeping hello) = 5"
| "ses_pc_rank (WritingHello hello) = 4"
| "ses_pc_rank Relaying = 3"
| "ses_pc_rank ClosingServer = 2"
| "ses_pc_rank ClosingApp = 1"
| "ses_pc_rank SessionDone = 0"

definition ses_rank :: "session \<Rightarrow> nat" where
  "ses_rank s = ses_pc_rank (ses_at s) + pipe_rank (ses_io s)"

lemma pipe_rank_deliver [simp]: "pipe_rank (deliver d bs io) = pipe_rank io"
  by (simp add: pipe_rank_def dir_rank_def)

lemma pipe_rank_deadline:
  "pipe_rank (set_read_deadline c t io) + timer_rank (read_deadline io c) = pipe_rank io + timer_rank t"
  by (cases c) (simp_all add: rank_defs)

lemma pipe_rank_arm: "pipe_rank (set_read_deadline c t io) \<le> pipe_rank io + timer_rank t"
  using pipe_rank_deadline [of c t io] by linarith

lemma take_hello_rank: "take_hello hello io = Some io' \<Longrightarrow> pipe_rank io' \<le> pipe_rank io"
  by (auto simp: take_hello_def Let_def rank_defs split: if_splits)

lemma ses_step_rank:
  assumes "ses_step se e s = Some s'"
  shows "ses_rank s' < ses_rank s"
proof (cases e)
  case HelloRead
  with assms obtain hello io where h: "take_hello hello (ses_io s) = Some io"
      "s' = after_hello se hello (s\<lparr>ses_io := set_read_deadline AppSide NoDeadline io\<rparr>)" "ses_at s = ReadingHello"
    by (auto split: if_splits option.splits)
  have "ses_pc_rank (ses_at s') \<le> 8" "ses_io s' = set_read_deadline AppSide NoDeadline io"
    by (auto simp: h(2) after_hello_def Let_def split: prod.splits option.splits)
  with take_hello_rank [OF h(1)] pipe_rank_arm [of AppSide NoDeadline io] h(3) show ?thesis by (simp add: ses_rank_def)
next
  case DialReturns
  with assms pipe_rank_arm [of AppSide Ahead "ses_io s"] show ?thesis by (auto simp: ses_rank_def split: if_splits)
next
  case HelloDeadline
  with assms pipe_rank_deadline [of AppSide Passed "ses_io s"] show ?thesis by (auto simp: ses_rank_def split: if_splits)
next
  case (Relay pe)
  with assms show ?thesis using pipe_exec_step pipe_step_rank
    by (fastforce simp: ses_rank_def split: if_splits)
qed (use assms in \<open>auto simp: ses_rank_def split: if_splits ses_pc.splits nat.splits\<close>)

interpretation ses_ends: bounded_runs "ses_step se" "ses_run se" "\<lambda>_. True" ses_rank "\<lambda>_. True" for se
  by unfold_locales (auto dest: ses_step_rank)

lemma ses_run_rank: "ses_run se es s = Some s' \<Longrightarrow> ses_rank s' + length es \<le> ses_rank s"
  using ses_ends.run_bounded [of se es s s'] by simp

text \<open>
  The first read belongs to the stream: what it returns is the beginning of what the application
  sends, at least one byte and at most the buffer.
\<close>

definition fits_stream :: "(side \<Rightarrow> bytes) \<Rightarrow> session_env \<Rightarrow> bool" where
  "fits_stream input se \<longleftrightarrow>
     (case first_read (se_env se) of None \<Rightarrow> True
      | Some hello \<Rightarrow> hello \<noteq> [] \<and> length hello \<le> hello_size \<and> prefix hello (input AppSide))"

text \<open>
  The deadlines: the first read has one, a goroutine of the relay that reads has one, and one
  that is done has put the write deadlines into the past.
\<close>

definition deadlines_inv :: "session_env \<Rightarrow> session \<Rightarrow> bool" where
  "deadlines_inv se s \<longleftrightarrow> (\<forall>d. closed_inv (ses_io s) d \<and> armed_inv (ses_io s) d) \<and>
     (ses_at s = ReadingHello \<longrightarrow> read_deadline (ses_io s) AppSide \<noteq> NoDeadline \<and>
       (first_read (se_env se) \<noteq> None \<longrightarrow> read_deadline (ses_io s) AppSide \<noteq> Passed))"

definition relay_fresh :: "ses_pc \<Rightarrow> pipe_state \<Rightarrow> bool" where
  "relay_fresh p io \<longleftrightarrow> (p = Dialing \<or> p = ReadingHello \<longrightarrow> (\<forall>d. pcs io d = Arm))"

lemma streams_fresh: "streams_ok input p io \<Longrightarrow> relay_fresh p io"
  by (cases p) (simp_all add: relay_fresh_def held_back_def quiet_def)

lemma pc_inv_simps [simp]:
  "closed_inv (set_read_deadline c t io) d = closed_inv io d" "closed_inv (deliver d' bs io) d = closed_inv io d"
  "armed_inv (deliver d' bs io) d = armed_inv io d"
  by (simp_all add: closed_inv_def armed_inv_def)

lemma armed_deadline: "pcs io d = Arm \<Longrightarrow> armed_inv (set_read_deadline c t io) d"
  by (simp add: armed_inv_def)

lemma take_hello_pcs: "take_hello hello io = Some io' \<Longrightarrow> pcs io' = pcs io \<and> write_expired io' = write_expired io"
  by (auto simp: take_hello_def Let_def split: if_splits)

lemma relay_exec_inv: "pipe_exec e io = Some io' \<Longrightarrow> closed_inv io d \<and> armed_inv io d \<Longrightarrow> closed_inv io' d \<and> armed_inv io' d"
  using closed_inv_step armed_inv_step pipe_exec_step by blast

lemma ses_step_deadlines:
  assumes "ses_step se e s = Some s'" and "deadlines_inv se s" and "relay_fresh (ses_at s) (ses_io s)"
  shows "deadlines_inv se s'"
proof (cases e)
  case HelloRead
  with assms obtain hello io where h: "take_hello hello (ses_io s) = Some io" "ses_at s = ReadingHello"
      "s' = after_hello se hello (s\<lparr>ses_io := set_read_deadline AppSide NoDeadline io\<rparr>)"
    by (auto split: if_splits option.splits)
  from h(2) assms(3) take_hello_pcs [OF h(1)] have a: "pcs io d = Arm" for d by (simp add: relay_fresh_def)
  have "ses_io s' = set_read_deadline AppSide NoDeadline io" "ses_at s' \<noteq> ReadingHello"
    by (auto simp: h(3) after_hello_def Let_def split: prod.splits option.splits)
  then show ?thesis by (simp add: deadlines_inv_def closed_inv_def armed_inv_def a)
next
  case (Relay pe)
  with assms relay_exec_inv show ?thesis by (fastforce simp: deadlines_inv_def split: if_splits)
qed (use assms in \<open>auto simp: deadlines_inv_def relay_fresh_def armed_deadline split: if_splits ses_pc.splits nat.splits\<close>)

lemma ses_run_deadlines:
  assumes "ses_run se es s = Some s'" and "streams_ok input (ses_at s) (ses_io s)" and "deadlines_inv se s"
  shows "deadlines_inv se s'"
proof -
  have "streams_ok input (ses_at s') (ses_io s') \<and> deadlines_inv se s'"
    using assms(1) conjI [OF assms(2,3)]
    by (rule ses_runs.run_keeps) (blast intro: ses_step_streams ses_step_deadlines streams_fresh)
  then show ?thesis ..
qed

text \<open>Where a session waits for its peers: to hand the ClientHello over, or in both directions of the relay.\<close>

definition waits_for_peers :: "session \<Rightarrow> bool" where
  "waits_for_peers s \<longleftrightarrow> (\<exists>hello. ses_at s = WritingHello hello) \<or>
     ses_at s = Relaying \<and> waits_for_room (ses_io s) Upward \<and> waits_for_room (ses_io s) Downward"

lemma ses_progress:
  assumes "streams_ok input (ses_at s) (ses_io s)" and "fits_stream input se" and "deadlines_inv se s"
    and "ses_at s \<noteq> SessionDone" and "fakes_due (ses_at s)" and "\<not> waits_for_peers s"
  shows "\<exists>e s'. ses_unaided e \<and> ses_step se e s = Some s'"
proof (cases "ses_at s")
  case Dialing
  then show ?thesis by (intro exI [of _ DialReturns]) simp
next
  case ReadingHello
  show ?thesis
  proof (cases "first_read (se_env se)")
    case None
    from ReadingHello assms(3) have "read_deadline (ses_io s) AppSide \<noteq> NoDeadline" by (simp add: deadlines_inv_def)
    with None ReadingHello show ?thesis
      by (cases "read_deadline (ses_io s) AppSide")
        (auto intro: exI [of _ HelloDeadline] exI [of _ HelloTimeout])
  next
    case (Some hello)
    from ReadingHello assms(1) have "pending (ses_io s) AppSide = input AppSide" by (simp add: held_back_def)
    moreover from Some assms(2) have "hello \<noteq> []" "length hello \<le> hello_size" "prefix hello (input AppSide)"
      by (simp_all add: fits_stream_def)
    ultimately have "take_hello hello (ses_io s) \<noteq> None" by (auto simp: take_hello_def elim: prefixE)
    with Some ReadingHello assms(3) show ?thesis by (intro exI [of _ HelloRead]) (auto simp: deadlines_inv_def)
  qed
next
  case (SendingFakes n i hello act)
  with assms(5) obtain m where "n = Suc m" by (cases n) auto
  with SendingFakes show ?thesis by (intro exI [of _ FakeSent]) simp
next
  case (Sleeping hello)
  then show ?thesis by (intro exI [of _ Slept]) simp
next
  case Relaying
  show ?thesis
  proof (cases "pipe_returned (ses_io s)")
    case True
    with Relaying show ?thesis by (intro exI [of _ RelayReturns]) simp
  next
    case False
    from Relaying assms(6) have "\<not> (waits_for_room (ses_io s) Upward \<and> waits_for_room (ses_io s) Downward)"
      by (simp add: waits_for_peers_def)
    with relay_progress [of "ses_io s"] assms(3) False
    obtain e io where "unaided e" "pipe_step (ses_io s) e io" unfolding deadlines_inv_def by blast
    with Relaying pipe_step_exec show ?thesis by (intro exI [of _ "Relay e"]) fastforce
  qed
next
  case ClosingServer
  then show ?thesis by (intro exI [of _ ServerClosed]) simp
next
  case ClosingApp
  then show ?thesis by (intro exI [of _ AppClosed]) simp
qed (use assms in \<open>simp_all add: waits_for_peers_def\<close>)

text \<open>Also where it waits, the session goes on when the peer takes the data.\<close>

lemma waits_step:
  assumes "waits_for_peers s"
  shows "\<exists>e s'. ses_step se e s = Some s'"
proof (cases "\<exists>hello. ses_at s = WritingHello hello")
  case True
  then obtain hello where "ses_at s = WritingHello hello" by blast
  then show ?thesis by (intro exI [of _ "HelloWritten (length hello)"]) simp
next
  case False
  with assms have r: "ses_at s = Relaying" "waits_for_room (ses_io s) Upward" by (auto simp: waits_for_peers_def)
  then obtain chunk err where "pcs (ses_io s) Upward = Writing chunk err" "\<not> write_expired (ses_io s) (dst Upward)"
    by (auto simp: waits_for_room_def split: pc.splits)
  with r(1) show ?thesis by (intro exI [of _ "Relay (WriteAll Upward)"]) simp
qed

lemma new_session_ok:
  "streams_ok input (ses_at (new_session input)) (ses_io (new_session input))" "faked_inv (new_session input)"
  "fakes_due (ses_at (new_session input))" "ses_trace (new_session input) = []"
  "deadlines_inv se (new_session input)"
  "ses_rank (new_session input) = 22 + 5 * (length (input AppSide) + length (input ServerSide))"
  by (simp_all add: new_session_def held_back_def quiet_def pipe_start_def faked_inv_def ses_rank_def rank_defs
      deadlines_inv_def closed_inv_def armed_inv_def)

section \<open>Properties\<close>

text \<open>
  C15: A session never corrupts a stream: at every moment of every run what the server has
  received is a prefix of what the application has sent, the ClientHello that was held back
  included, and the other way round; while the relay copies, nothing read is missing; on a
  target port nothing reaches the server before a fake has been sent; and the actions of a
  finished session are those of \<open>NewConnectionEx\<close>.
\<close>

theorem session_keeps_streams:
  assumes "ses_run se es (new_session input) = Some s"
  shows "prefix (delivered (ses_io s) (dst d)) (input (src d)) \<and>
    (ses_at s = Relaying \<and> copying (pcs (ses_io s) d) \<longrightarrow>
      input (src d) = delivered (ses_io s) (dst d) @ in_flight (pcs (ses_io s) d) @ pending (ses_io s) (src d)) \<and>
    (se_ports se (se_port se) \<and> delivered (ses_io s) ServerSide \<noteq> [] \<longrightarrow> list_ex is_fake (ses_trace s)) \<and>
    (ses_at s = SessionDone \<longrightarrow>
      ses_trace s = NewConnectionEx (se_ports se) (se_ttl se) True (se_port se) (se_dial_ok se) (se_env se))"
proof -
  note i = ses_run_inv [OF assms new_session_ok(1)]
  have c: "prefix (delivered (ses_io s) (dst d)) (input (src d))"
    using streams_cut [OF i [THEN conjunct1]] by (cases d) (simp_all add: cut_def)
  have f: "ses_at s = Relaying \<and> copying (pcs (ses_io s) d) \<longrightarrow>
      input (src d) = delivered (ses_io s) (dst d) @ in_flight (pcs (ses_io s) d) @ pending (ses_io s) (src d)"
  proof
    assume a: "ses_at s = Relaying \<and> copying (pcs (ses_io s) d)"
    with i have "dir_inv input (ses_io s) d" by (cases d) (simp_all add: flowing_def)
    with a show "input (src d) = delivered (ses_io s) (dst d) @ in_flight (pcs (ses_io s) d) @ pending (ses_io s) (src d)"
      by (auto simp: dir_inv_def bytes_inv_def)
  qed
  have t: "ses_trace s = NewConnectionEx (se_ports se) (se_ttl se) True (se_port se) (se_dial_ok se) (se_env se)"
    if "ses_at s = SessionDone"
    using i that by (simp add: new_session_def)
  show ?thesis using c f t ses_run_faked [OF assms new_session_ok(2)] by (auto simp: faked_inv_def)
qed

text \<open>
  C16: Every session ends by itself, whatever the peers do or fail to do: it takes at most
  twenty-two steps and five for every byte sent, and until both connections are closed a step
  that needs no peer is possible: the dial and the first read end by their deadlines, an idle
  relay ends by the idle timeout, and when one direction of the relay has ended, the deadlines
  it puts into the past end the other.  The exceptions are the code's: the write of the
  ClientHello, and the relay when both its directions wait in \<open>Write\<close>, have no deadline, and go
  on only when a peer takes data, closes or fails.
\<close>

theorem session_ends:
  assumes "ses_run se es (new_session input) = Some s" and "fits_stream input se"
  shows "length es \<le> 22 + 5 * (length (input AppSide) + length (input ServerSide)) \<and>
    (ses_at s = SessionDone \<or> (\<exists>e s'. ses_unaided e \<and> ses_step se e s = Some s') \<or>
     ((\<exists>hello. ses_at s = WritingHello hello) \<or>
      ses_at s = Relaying \<and> waits_for_room (ses_io s) Upward \<and> waits_for_room (ses_io s) Downward) \<and>
     (\<exists>e s'. ses_step se e s = Some s'))"
proof (intro conjI)
  note inv = ses_run_inv [OF assms(1) new_session_ok(1), THEN conjunct1]
    and due = ses_run_due [OF assms(1) new_session_ok(3)]
    and dl = ses_run_deadlines [OF assms(1) new_session_ok(1,5)]
  show "length es \<le> 22 + 5 * (length (input AppSide) + length (input ServerSide))"
    using ses_run_rank [OF assms(1)] new_session_ok(6) [of input] by simp
  show "ses_at s = SessionDone \<or> (\<exists>e s'. ses_unaided e \<and> ses_step se e s = Some s') \<or>
     ((\<exists>hello. ses_at s = WritingHello hello) \<or>
      ses_at s = Relaying \<and> waits_for_room (ses_io s) Upward \<and> waits_for_room (ses_io s) Downward) \<and>
     (\<exists>e s'. ses_step se e s = Some s')"
    using ses_progress [OF inv assms(2) dl _ due] waits_step [of s se]
    unfolding waits_for_peers_def by blast
qed

text \<open>A session on port 443 whose application sends its ClientHello and one more byte.\<close>

definition demo_session :: session_env where
  "demo_session = \<lparr>se_ports = portMap [443], se_ttl = 8, se_port = 443, se_dial_ok = True, se_env = demo_env\<rparr>"

definition demo_streams :: "side \<Rightarrow> bytes" where
  "demo_streams c = (case c of AppSide \<Rightarrow> TLSClientHello @ [1] | ServerSide \<Rightarrow> [7])"

definition demo_session_start :: "ses_event list" where
  "demo_session_start = [DialReturns, HelloRead, FakeSent, FakeSent, FakeSent, Slept, HelloWritten (length TLSClientHello),
     Relay (SetReadDeadline Upward), Relay (ReadData Upward [1] False), Relay (WriteAll Upward)]"

lemma demo_hello: "length TLSClientHello = 75" "TLSClientHello \<noteq> []"
proof -
  show "length TLSClientHello = 75"
    using client_hello_shape(1) [of "bytes_of_string ''www.google.com''"] by (simp add: TLSClientHello_def)
  then show "TLSClientHello \<noteq> []" by auto
qed

lemma demo_fits: "fits_stream demo_streams demo_session"
  by (simp add: fits_stream_def demo_session_def demo_env_sel demo_streams_def demo_hello hello_size_def)

lemma demo_session_run:
  "\<exists>s. ses_run demo_session demo_session_start (new_session demo_streams) = Some s \<and> ses_at s = Relaying \<and>
     delivered (ses_io s) ServerSide = TLSClientHello @ [1] \<and> pcs (ses_io s) Upward = Arm \<and> se_ports demo_session (se_port demo_session)"
proof -
  have e: "send_ok demo_env = (\<lambda>_. True)" "write_ok demo_env" by (simp_all add: demo_env_def)
  have p: "portMap [443] 443" by (simp add: portMap_def)
  show ?thesis
    by (simp add: demo_session_start_def new_session_def demo_session_def p take_hello_def Let_def pipe_start_def
        demo_streams_def demo_env_sel(1-3) demo_hello hello_size_def after_hello_def demo_seq_ack ses_act_def ses_goto_def e
        deliver_def goto_def set_read_deadline_def buffer_size_def)
qed

theorem session_keeps_streams_witness:
  "\<exists>s. ses_run demo_session demo_session_start (new_session demo_streams) = Some s \<and>
     prefix (delivered (ses_io s) ServerSide) (TLSClientHello @ [1]) \<and> list_ex is_fake (ses_trace s)"
proof -
  obtain s where s: "ses_run demo_session demo_session_start (new_session demo_streams) = Some s"
    "delivered (ses_io s) ServerSide = TLSClientHello @ [1]" "se_ports demo_session (se_port demo_session)"
    using demo_session_run by (elim exE conjE)
  from session_keeps_streams [OF s(1), of Upward] s(2,3) have "list_ex is_fake (ses_trace s)" by simp
  with s(1,2) show ?thesis by (intro exI [of _ s]) simp
qed

theorem session_ends_witness:
  "\<exists>s. ses_run demo_session demo_session_start (new_session demo_streams) = Some s \<and>
     length demo_session_start \<le> 407 \<and> (\<exists>e s'. ses_unaided e \<and> ses_step demo_session e s = Some s')"
proof -
  obtain s where s: "ses_run demo_session demo_session_start (new_session demo_streams) = Some s"
      "ses_at s = Relaying" "pcs (ses_io s) Upward = Arm"
    using demo_session_run by (elim exE conjE)
  have "22 + 5 * (length (demo_streams AppSide) + length (demo_streams ServerSide)) = 407"
    by (simp add: demo_streams_def demo_hello)
  moreover have "\<not> waits_for_room (ses_io s) Upward" by (simp add: waits_for_room_def s(3))
  ultimately show ?thesis using session_ends [OF s(1) demo_fits] s by (intro exI [of _ s]) auto
qed

end
