(* ===== verification/Udp_Relay.thy ===== *)
theory Udp_Relay
  imports Gecit_Prelude Event_Runs "HOL-Library.Sublist"
begin

text \<open>
  The UDP relay (\<open>NewPacketConnectionEx\<close> in \<open>src/pkg/tun/handler.go\<close>): the handler forwards
  datagrams from the application while a goroutine forwards those of the server; when the
  handler's loop ends it waits for the goroutine, and its deferred calls then close both
  connections and report the end.  A step of either is a function of the event that
  happens; the order of events is free.
\<close>

section \<open>States and steps\<close>

text \<open>Where the handler and the goroutine are; the last four points are the wait and the deferred calls.\<close>

datatype up_pc = UpArm | UpRead | UpWrite bytes | UpJoin | UpCloseReal | UpCloseConn | UpOnClose | UpDone

datatype down_pc = DownArm | DownRead | DownWrite bytes | DownDone

record relay =
  up_at :: up_pc
  down_at :: down_pc
  from_app :: "bytes list"
  from_server :: "bytes list"
  to_server :: "bytes list"
  to_app :: "bytes list"
  real_open :: bool
  conn_open :: bool
  on_close :: bool                \<comment> \<open>whether the caller passed a function to call at the end\<close>
  on_close_calls :: nat

datatype udp_event =
    UpDeadline | UpReceives | UpReadFails | UpSends | UpWriteFails
  | Joined | ClosesReal | ClosesConn | CallsOnClose
  | DownDeadline | DownReceives | DownReadFails | DownSends | DownWriteFails

text \<open>
  A read takes the next datagram, whole, or fails (the deadline of 30 seconds has passed, or
  the connection has an error); a write that fails has sent nothing.
\<close>

fun udp_step :: "udp_event \<Rightarrow> relay \<Rightarrow> relay option" where
  "udp_step UpDeadline s = (if up_at s = UpArm then Some (s\<lparr>up_at := UpRead\<rparr>) else None)"
| "udp_step UpReceives s =
     (case (up_at s, from_app s) of
        (UpRead, d # ds) \<Rightarrow> Some (s\<lparr>up_at := UpWrite d, from_app := ds\<rparr>)
      | _ \<Rightarrow> None)"
| "udp_step UpReadFails s = (if up_at s = UpRead then Some (s\<lparr>up_at := UpJoin\<rparr>) else None)"
| "udp_step UpSends s =
     (case up_at s of UpWrite d \<Rightarrow> Some (s\<lparr>up_at := UpArm, to_server := to_server s @ [d]\<rparr>) | _ \<Rightarrow> None)"
| "udp_step UpWriteFails s = (case up_at s of UpWrite d \<Rightarrow> Some (s\<lparr>up_at := UpJoin\<rparr>) | _ \<Rightarrow> None)"
| "udp_step Joined s =
     (if up_at s = UpJoin \<and> down_at s = DownDone then Some (s\<lparr>up_at := UpCloseReal\<rparr>) else None)"
| "udp_step ClosesReal s =
     (if up_at s = UpCloseReal then Some (s\<lparr>up_at := UpCloseConn, real_open := False\<rparr>) else None)"
| "udp_step ClosesConn s =
     (if up_at s = UpCloseConn then Some (s\<lparr>up_at := UpOnClose, conn_open := False\<rparr>) else None)"
| "udp_step CallsOnClose s =
     (if up_at s = UpOnClose
      then Some (s\<lparr>up_at := UpDone, on_close_calls := on_close_calls s + (if on_close s then 1 else 0)\<rparr>) else None)"
| "udp_step DownDeadline s = (if down_at s = DownArm then Some (s\<lparr>down_at := DownRead\<rparr>) else None)"
| "udp_step DownReceives s =
     (case (down_at s, from_server s) of
        (DownRead, d # ds) \<Rightarrow> Some (s\<lparr>down_at := DownWrite d, from_server := ds\<rparr>)
      | _ \<Rightarrow> None)"
| "udp_step DownReadFails s = (if down_at s = DownRead then Some (s\<lparr>down_at := DownDone\<rparr>) else None)"
| "udp_step DownSends s =
     (case down_at s of DownWrite d \<Rightarrow> Some (s\<lparr>down_at := DownArm, to_app := to_app s @ [d]\<rparr>) | _ \<Rightarrow> None)"
| "udp_step DownWriteFails s = (case down_at s of DownWrite d \<Rightarrow> Some (s\<lparr>down_at := DownDone\<rparr>) | _ \<Rightarrow> None)"

text \<open>
  The call: without a connection or with an invalid destination only the deferred report is
  left to do, and a given connection stays open; when the server cannot be dialled, the
  connection is closed first.  \<open>app\<close> and \<open>server\<close> are what the two peers will send.
\<close>

definition NewPacketConnectionEx :: "bool \<Rightarrow> bool \<Rightarrow> bool \<Rightarrow> bool \<Rightarrow> bytes list \<Rightarrow> bytes list \<Rightarrow> relay" where
  "NewPacketConnectionEx conn valid dial_ok onClose app server =
     (let s = \<lparr>up_at = UpArm, down_at = DownArm, from_app = app, from_server = server, to_server = [], to_app = [],
        real_open = True, conn_open = conn, on_close = onClose, on_close_calls = 0\<rparr>
      in if \<not> conn \<or> \<not> valid then s\<lparr>up_at := UpOnClose, down_at := DownDone, real_open := False\<rparr>
         else if \<not> dial_ok then s\<lparr>up_at := UpCloseConn, down_at := DownDone, real_open := False\<rparr>
         else s)"

primrec udp_run :: "udp_event list \<Rightarrow> relay \<Rightarrow> relay option" where
  "udp_run [] s = Some s"
| "udp_run (e # es) s = Option.bind (udp_step e s) (udp_run es)"

section \<open>Invariants and rank\<close>

fun up_sent :: "bytes list \<Rightarrow> bytes list \<Rightarrow> bytes list \<Rightarrow> up_pc \<Rightarrow> bool" where
  "up_sent inp out pend UpArm = (inp = out @ pend)"
| "up_sent inp out pend UpRead = (inp = out @ pend)"
| "up_sent inp out pend (UpWrite d) = (inp = out @ d # pend)"
| "up_sent inp out pend _ = prefix out inp"

fun down_sent :: "bytes list \<Rightarrow> bytes list \<Rightarrow> bytes list \<Rightarrow> down_pc \<Rightarrow> bool" where
  "down_sent inp out pend (DownWrite d) = (inp = out @ d # pend)"
| "down_sent inp out pend DownDone = prefix out inp"
| "down_sent inp out pend _ = (inp = out @ pend)"

definition sent_inv :: "bytes list \<Rightarrow> bytes list \<Rightarrow> relay \<Rightarrow> bool" where
  "sent_inv app server s \<longleftrightarrow> up_sent app (to_server s) (from_app s) (up_at s) \<and>
     down_sent server (to_app s) (from_server s) (down_at s)"

lemma sent_prefix: "sent_inv app server s \<Longrightarrow> prefix (to_server s) app \<and> prefix (to_app s) server"
  by (cases "up_at s"; cases "down_at s") (auto simp: sent_inv_def)

fun dialled :: "up_pc \<Rightarrow> bool" where
  "dialled UpCloseConn = False"
| "dialled UpOnClose = False"
| "dialled UpDone = False"
| "dialled _ = True"

text \<open>What is open at each point; \<open>conn\<close> and \<open>valid\<close> are the guards of the call.\<close>

definition open_inv :: "bool \<Rightarrow> bool \<Rightarrow> relay \<Rightarrow> bool" where
  "open_inv conn valid s \<longleftrightarrow>
     real_open s = dialled (up_at s) \<and>
     conn_open s = (conn \<and> (\<not> valid \<or> dialled (up_at s) \<or> up_at s = UpCloseConn)) \<and>
     (dialled (up_at s) \<or> up_at s = UpCloseConn \<longrightarrow> conn \<and> valid) \<and>
     (down_at s \<noteq> DownDone \<longrightarrow> dialled (up_at s) \<and> up_at s \<noteq> UpCloseReal) \<and>
     on_close_calls s = (if up_at s = UpDone \<and> on_close s then 1 else 0)"

fun up_rank :: "up_pc \<Rightarrow> nat" where
  "up_rank UpArm = 7"
| "up_rank UpRead = 6"
| "up_rank (UpWrite _) = 8"
| "up_rank UpJoin = 4"
| "up_rank UpCloseReal = 3"
| "up_rank UpCloseConn = 2"
| "up_rank UpOnClose = 1"
| "up_rank UpDone = 0"

fun down_rank :: "down_pc \<Rightarrow> nat" where
  "down_rank DownArm = 2"
| "down_rank DownRead = 1"
| "down_rank (DownWrite _) = 3"
| "down_rank DownDone = 0"

definition udp_rank :: "relay \<Rightarrow> nat" where
  "udp_rank s = up_rank (up_at s) + 3 * length (from_app s) + down_rank (down_at s) + 3 * length (from_server s)"

lemmas udp_splits = if_splits up_pc.splits down_pc.splits list.splits

lemma udp_step_sent: "udp_step e s = Some s' \<Longrightarrow> sent_inv app server s \<Longrightarrow> sent_inv app server s'"
  by (cases e) (auto simp: sent_inv_def split: udp_splits)

lemma udp_step_open: "udp_step e s = Some s' \<Longrightarrow> open_inv conn valid s \<Longrightarrow> open_inv conn valid s'"
  by (cases e) (simp_all add: open_inv_def split: udp_splits, safe?, simp_all)

lemma udp_step_rank: "udp_step e s = Some s' \<Longrightarrow> udp_rank s' < udp_rank s \<and> on_close s' = on_close s"
  by (cases e) (auto simp: udp_rank_def split: udp_splits)

interpretation udp_runs: bounded_runs udp_step udp_run "\<lambda>_. True" udp_rank "\<lambda>_. True"
  by unfold_locales (auto dest: udp_step_rank)

lemma udp_run_sent: "udp_run es s = Some s' \<Longrightarrow> sent_inv app server s \<Longrightarrow> sent_inv app server s'"
  by (erule udp_runs.run_keeps) (auto intro: udp_step_sent)

lemma udp_run_open: "udp_run es s = Some s' \<Longrightarrow> open_inv conn valid s \<Longrightarrow> open_inv conn valid s'"
  by (erule udp_runs.run_keeps) (auto intro: udp_step_open)

lemma udp_run_rank:
  assumes "udp_run es s = Some s'"
  shows "udp_rank s' + length es \<le> udp_rank s" and "on_close s' = on_close s"
proof -
  show "udp_rank s' + length es \<le> udp_rank s" using udp_runs.run_bounded [OF assms] by simp
  show "on_close s' = on_close s"
    using assms by (rule udp_runs.run_keeps) (auto dest: udp_step_rank)
qed

lemma start_invs:
  "sent_inv app server (NewPacketConnectionEx conn valid dial_ok onClose app server)"
  "open_inv conn valid (NewPacketConnectionEx conn valid dial_ok onClose app server)"
  "on_close (NewPacketConnectionEx conn valid dial_ok onClose app server) = onClose"
  "udp_rank (NewPacketConnectionEx conn valid dial_ok onClose app server) \<le> 9 + 3 * (length app + length server)"
  by (auto simp: NewPacketConnectionEx_def Let_def sent_inv_def open_inv_def udp_rank_def)

text \<open>A step remains until the handler has returned.\<close>

lemma udp_progress:
  assumes "up_at s \<noteq> UpDone"
  shows "\<exists>e s'. udp_step e s = Some s'"
proof (cases "up_at s")
  case UpJoin
  show ?thesis
  proof (cases "down_at s")
    case DownArm
    then have "udp_step DownDeadline s = Some (s\<lparr>down_at := DownRead\<rparr>)" by simp
    then show ?thesis by blast
  next
    case DownRead
    then have "udp_step DownReadFails s = Some (s\<lparr>down_at := DownDone\<rparr>)" by simp
    then show ?thesis by blast
  next
    case (DownWrite d)
    then have "udp_step DownWriteFails s = Some (s\<lparr>down_at := DownDone\<rparr>)" by simp
    then show ?thesis by blast
  next
    case DownDone
    with UpJoin have "udp_step Joined s = Some (s\<lparr>up_at := UpCloseReal\<rparr>)" by simp
    then show ?thesis by blast
  qed
next
  case UpArm
  then have "udp_step UpDeadline s = Some (s\<lparr>up_at := UpRead\<rparr>)" by simp
  then show ?thesis by blast
next
  case UpRead
  then have "udp_step UpReadFails s = Some (s\<lparr>up_at := UpJoin\<rparr>)" by simp
  then show ?thesis by blast
next
  case (UpWrite d)
  then have "udp_step UpWriteFails s = Some (s\<lparr>up_at := UpJoin\<rparr>)" by simp
  then show ?thesis by blast
next
  case UpCloseReal
  then have "udp_step ClosesReal s \<noteq> None" by simp
  then show ?thesis by blast
next
  case UpCloseConn
  then have "udp_step ClosesConn s \<noteq> None" by simp
  then show ?thesis by blast
next
  case UpOnClose
  then have "udp_step CallsOnClose s \<noteq> None" by simp
  then show ?thesis by blast
qed (use assms in simp)

text \<open>The events that use a connection.\<close>

fun uses_connections :: "udp_event \<Rightarrow> bool" where
  "uses_connections Joined = False"
| "uses_connections ClosesReal = False"
| "uses_connections ClosesConn = False"
| "uses_connections CallsOnClose = False"
| "uses_connections _ = True"

lemma uses_open:
  assumes "udp_step e s = Some s'" and "uses_connections e" and "open_inv conn valid s"
  shows "real_open s \<and> conn_open s"
  using assms by (cases e) (auto simp: open_inv_def split: udp_splits)

section \<open>Properties\<close>

text \<open>
  C17: The UDP relay forwards datagrams whole, in order and unchanged, each at most once: what
  has been written to either side is a prefix of what the other sent, under every
  interleaving and every failure; and nothing is read from or written to a connection that
  the relay has closed.
\<close>

theorem udp_datagrams_in_order:
  assumes "udp_run es (NewPacketConnectionEx conn valid dial_ok onClose app server) = Some s"
  shows "prefix (to_server s) app \<and> prefix (to_app s) server \<and>
    (uses_connections e \<and> udp_step e s = Some s' \<longrightarrow> real_open s \<and> conn_open s)"
proof -
  have "sent_inv app server s" "open_inv conn valid s"
    using udp_run_sent [OF assms] udp_run_open [OF assms] start_invs(1,2) by blast+
  then show ?thesis using uses_open sent_prefix by blast
qed

definition demo_udp :: "udp_event list" where
  "demo_udp = [UpDeadline, DownDeadline, UpReceives, UpSends, DownReceives, UpDeadline, UpReadFails, DownSends,
     DownDeadline, DownReadFails, Joined, ClosesReal, ClosesConn, CallsOnClose]"

lemma demo_udp_run:
  "udp_run demo_udp (NewPacketConnectionEx True True True True [[1, 2]] [[7], [8, 9]]) =
     Some \<lparr>up_at = UpDone, down_at = DownDone, from_app = [], from_server = [[8, 9]], to_server = [[1, 2]], to_app = [[7]],
       real_open = False, conn_open = False, on_close = True, on_close_calls = 1\<rparr>"
  by (simp add: demo_udp_def NewPacketConnectionEx_def)

theorem udp_datagrams_in_order_witness:
  "\<exists>s. udp_run demo_udp (NewPacketConnectionEx True True True True [[1, 2]] [[7], [8, 9]]) = Some s \<and>
     to_app s = [[7]] \<and> prefix (to_app s) [[7], [8, 9]]"
  using udp_datagrams_in_order [OF demo_udp_run] demo_udp_run by auto

text \<open>
  The UDP relay returns and cleans up: with finite traffic a run takes at most nine steps
  and three for every datagram, a step remains until the handler has returned, and when it
  has, the goroutine is done, the server's connection is closed, so is the application's
  (unless the destination was invalid), and the end has been reported exactly once.
\<close>

theorem udp_relay_returns:
  assumes "udp_run es (NewPacketConnectionEx conn valid dial_ok onClose app server) = Some s"
  shows "length es \<le> 9 + 3 * (length app + length server) \<and>
    (if up_at s = UpDone
     then down_at s = DownDone \<and> \<not> real_open s \<and> conn_open s = (conn \<and> \<not> valid) \<and>
       on_close_calls s = (if onClose then 1 else 0)
     else \<exists>e s'. udp_step e s = Some s')"
proof -
  have "open_inv conn valid s" "on_close s = onClose"
    using udp_run_open [OF assms start_invs(2)] udp_run_rank(2) [OF assms] start_invs(3) by auto
  moreover have "length es \<le> 9 + 3 * (length app + length server)"
    using udp_run_rank(1) [OF assms] start_invs(4) [of conn valid dial_ok onClose app server] by linarith
  ultimately show ?thesis using udp_progress [of s] by (auto simp: open_inv_def)
qed

theorem udp_relay_returns_witness:
  "\<exists>s. udp_run demo_udp (NewPacketConnectionEx True True True True [[1, 2]] [[7], [8, 9]]) = Some s \<and>
     up_at s = UpDone \<and> \<not> real_open s \<and> \<not> conn_open s \<and> on_close_calls s = 1 \<and> length demo_udp \<le> 18"
  using udp_relay_returns [OF demo_udp_run] demo_udp_run by auto

end
