(* ===== verification/Neighbour_Darwin.thy ===== *)
theory Neighbour_Darwin
  imports Rawsock Go_Ip
begin

text \<open>
  IPv6 injection on macOS: finding the hardware address of the default gateway in the output
  of \<open>netstat\<close> and \<open>ndp\<close> (\<open>src/pkg/rawsock/neighbor_darwin.go\<close>), and the injector that
  caches it (\<open>src/pkg/rawsock/inject_darwin.go\<close>).  The system's answers at a send (the
  interface, the two outputs, the clock) are an environment.
\<close>

section \<open>net.ParseMAC\<close>

text \<open>Go's \<open>xtoi2\<close>: two hexadecimal digits, and \<open>e\<close> after them unless the string ends.\<close>

definition xtoi2 :: "string \<Rightarrow> char \<Rightarrow> u8 option" where
  "xtoi2 s e =
     (if length s > 2 \<and> s ! 2 \<noteq> e then None
      else case s of
          a # b # _ \<Rightarrow>
            (case (hex_value a, hex_value b) of
               (Some x, Some y) \<Rightarrow> Some (of_nat (16 * x + y))
             | _ \<Rightarrow> None)
        | _ \<Rightarrow> None)"

fun mac_octets :: "char \<Rightarrow> nat \<Rightarrow> string \<Rightarrow> bytes option" where
  "mac_octets e 0 s = Some []"
| "mac_octets e (Suc n) s =
     (case xtoi2 s e of None \<Rightarrow> None | Some b \<Rightarrow> map_option ((#) b) (mac_octets e n (drop 3 s)))"

fun mac_pairs :: "char \<Rightarrow> nat \<Rightarrow> string \<Rightarrow> bytes option" where
  "mac_pairs e 0 s = Some []"
| "mac_pairs e (Suc n) s =
     (case (xtoi2 (take 2 s) CHR 0x00, xtoi2 (drop 2 s) e) of
        (Some a, Some b) \<Rightarrow> map_option (\<lambda>r. a # b # r) (mac_pairs e n (drop 5 s))
      | _ \<Rightarrow> None)"

definition ParseMAC :: "string \<Rightarrow> bytes option" where
  "ParseMAC s =
     (let l = length s in
      if l < 14 then None
      else if s ! 2 = CHR '':'' \<or> s ! 2 = CHR ''-'' then
        if (l + 1) mod 3 \<noteq> 0 then None
        else if (l + 1) div 3 \<notin> {6, 8, 20} then None
        else mac_octets (s ! 2) ((l + 1) div 3) s
      else if s ! 4 = CHR ''.'' then
        if (l + 1) mod 5 \<noteq> 0 then None
        else if 2 * (l + 1) div 5 \<notin> {6, 8, 20} then None
        else mac_pairs (s ! 4) (2 * (l + 1) div 5 div 2) s
      else None)"

section \<open>The tables\<close>

text \<open>\<open>strings.EqualFold\<close>, on ASCII strings.\<close>

definition EqualFold :: "string \<Rightarrow> string \<Rightarrow> bool" where
  "EqualFold s t \<longleftrightarrow> map lower s = map lower t"

text \<open>An address up to its zone.\<close>

definition cut_zone :: "string \<Rightarrow> string" where
  "cut_zone s = takeWhile (\<lambda>c. c \<noteq> CHR ''%'') s"

fun gateway_scan :: "string \<Rightarrow> string list \<Rightarrow> string" where
  "gateway_scan iface [] = ''''"
| "gateway_scan iface (line # ls) =
     (let f = Fields line in
      if length f < 4 \<or> f ! 0 \<noteq> ''default'' \<or> f ! 3 \<noteq> iface then gateway_scan iface ls
      else f ! 1)"

definition ipv6DefaultGateway :: "string \<Rightarrow> string \<Rightarrow> string" where
  "ipv6DefaultGateway netstatOut iface = gateway_scan iface (Split newline netstatOut)"

datatype v6_error =
    NoSuchInterface | NoAddresses | NoGlobalAddress | NetstatFailed | NoDefaultRoute
  | NdpFailed | NeighborParse | NeighborMissing | InjectFailed

fun neighbor_scan :: "string \<Rightarrow> string list \<Rightarrow> v6_error + bytes" where
  "neighbor_scan want [] = Inl NeighborMissing"
| "neighbor_scan want (line # ls) =
     (let f = Fields line in
      if length f < 3 then neighbor_scan want ls
      else if \<not> EqualFold (cut_zone (f ! 0)) want then neighbor_scan want ls
      else (case ParseMAC (f ! 1) of None \<Rightarrow> Inl NeighborParse | Some mac \<Rightarrow> Inr mac))"

definition neighborMAC :: "string \<Rightarrow> string \<Rightarrow> v6_error + bytes" where
  "neighborMAC ndpOut gateway = neighbor_scan (cut_zone gateway) (Split newline ndpOut)"

section \<open>The injector\<close>

text \<open>An address of an interface: an \<open>*net.IPNet\<close>, or another kind.\<close>

datatype net_addr = IPNet ip | OtherAddr

record net_interface =
  HardwareAddr :: bytes
  Addrs :: "net_addr list option"

fun global_ipv6 :: "net_addr list \<Rightarrow> ip option" where
  "global_ipv6 [] = None"
| "global_ipv6 (OtherAddr # as) = global_ipv6 as"
| "global_ipv6 (IPNet p # as) =
     (if To4 p \<noteq> None then global_ipv6 as
      else case To16 p of
          None \<Rightarrow> global_ipv6 as
        | Some q \<Rightarrow> if IsLoopback q \<or> IsLinkLocalUnicast q then global_ipv6 as else Some q)"

definition sourceIPv6 :: "net_interface option \<Rightarrow> v6_error + (ip \<times> bytes)" where
  "sourceIPv6 ifi =
     (case ifi of
        None \<Rightarrow> Inl NoSuchInterface
      | Some i \<Rightarrow>
          (case Addrs i of
             None \<Rightarrow> Inl NoAddresses
           | Some as \<Rightarrow>
               (case global_ipv6 as of
                  None \<Rightarrow> Inl NoGlobalAddress
                | Some ip \<Rightarrow> Inr (ip, HardwareAddr i))))"

text \<open>
  What a send meets: the clock (in nanoseconds) when it checks the cache and when it has
  resolved, the interface, the outputs of the two programs, and whether the frame goes out.
\<close>

record v6_env =
  env_since :: int
  env_now :: int
  env_ifi :: "net_interface option"
  env_netstat :: "string option"
  env_ndp :: "string option"
  env_write_ok :: bool

record ipv6Injector =
  inj_srcMAC :: bytes
  inj_dstMAC :: "bytes option"
  inj_resolvedAt :: int

definition newIPv6Injector :: ipv6Injector where
  "newIPv6Injector = \<lparr>inj_srcMAC = [], inj_dstMAC = None, inj_resolvedAt = 0\<rparr>"

definition neighborTTL :: int where
  "neighborTTL = 60 * 10 ^ 9"

definition lookup_gateway :: "string \<Rightarrow> v6_env \<Rightarrow> v6_error + (bytes \<times> bytes)" where
  "lookup_gateway iface env =
     (case sourceIPv6 (env_ifi env) of
        Inl e \<Rightarrow> Inl e
      | Inr (_, srcMAC) \<Rightarrow>
          (case env_netstat env of
             None \<Rightarrow> Inl NetstatFailed
           | Some out \<Rightarrow>
               (let gateway = ipv6DefaultGateway out iface in
                if gateway = '''' then Inl NoDefaultRoute
                else (case env_ndp env of
                        None \<Rightarrow> Inl NdpFailed
                      | Some ndpOut \<Rightarrow>
                          (case neighborMAC ndpOut gateway of
                             Inl e \<Rightarrow> Inl e
                           | Inr dstMAC \<Rightarrow> Inr (srcMAC, dstMAC))))))"

definition resolve :: "string \<Rightarrow> v6_env \<Rightarrow> ipv6Injector \<Rightarrow> v6_error option \<times> ipv6Injector" where
  "resolve iface env i =
     (if inj_dstMAC i \<noteq> None \<and> env_since env - inj_resolvedAt i < neighborTTL then (None, i)
      else (case lookup_gateway iface env of
              Inl e \<Rightarrow> (Some e, i)
            | Inr (srcMAC, dstMAC) \<Rightarrow>
                (None, \<lparr>inj_srcMAC = srcMAC, inj_dstMAC = Some dstMAC, inj_resolvedAt = env_now env\<rparr>)))"

definition v6_send ::
    "string \<Rightarrow> v6_env \<Rightarrow> ConnInfo \<Rightarrow> bytes \<Rightarrow> int \<Rightarrow> ipv6Injector \<Rightarrow> v6_error option \<times> bytes option \<times> ipv6Injector" where
  "v6_send iface env conn payload ttl i =
     (case resolve iface env i of
        (Some e, i) \<Rightarrow> (Some e, None, i)
      | (None, i) \<Rightarrow>
          let ipPacket = BuildPacket Darwin conn payload ttl;
              frame = BuildEthernetFrame (inj_srcMAC i) (nil_bytes (inj_dstMAC i)) ipPacket
          in if env_write_ok env then (None, Some frame, i) else (Some InjectFailed, None, i))"

section \<open>Hardware addresses in print\<close>

definition hex_digit :: "nat \<Rightarrow> char" where
  "hex_digit n = char_of (if n < 10 then 48 + n else 87 + n)"

text \<open>An octet with two digits (\<open>%02x\<close>), and without a leading zero (\<open>%x\<close>).\<close>

definition octet_padded :: "u8 \<Rightarrow> string" where
  "octet_padded b = [hex_digit (unat b div 16), hex_digit (unat b mod 16)]"

definition octet_short :: "u8 \<Rightarrow> string" where
  "octet_short b = (if unat b < 16 then [hex_digit (unat b)] else octet_padded b)"

definition print_mac :: "(u8 \<Rightarrow> string) \<Rightarrow> bytes \<Rightarrow> string" where
  "print_mac octet mac = Join (map octet mac) '':''"

lemma hex_value_digit: "n < 16 \<Longrightarrow> hex_value (hex_digit n) = Some n"
  by (auto simp: hex_value_def hex_digit_def Let_def)

lemma xtoi2_padded:
  "xtoi2 (octet_padded b) e = Some b" "xtoi2 (octet_padded b @ e # s) e = Some b"
proof -
  have "unat b div 16 < 16" using unat_u8 [of b] by (simp add: less_mult_imp_div_less)
  then have "hex_value (hex_digit (unat b div 16)) = Some (unat b div 16)"
    "hex_value (hex_digit (unat b mod 16)) = Some (unat b mod 16)"
    by (simp_all add: hex_value_digit)
  moreover have "(of_nat (16 * (unat b div 16) + unat b mod 16) :: u8) = b"
    by (simp only: mult_div_mod_eq) simp
  ultimately show "xtoi2 (octet_padded b) e = Some b" "xtoi2 (octet_padded b @ e # s) e = Some b"
    unfolding xtoi2_def octet_padded_def by (simp_all only: list.size append.simps list.case option.case prod.case nth_Cons_numeral) simp_all
qed

lemma mac_octets_padded:
  "mac_octets CHR '':'' (length mac) (print_mac octet_padded mac) = Some mac"
proof (induction mac)
  case (Cons b mac)
  show ?case
  proof (cases mac)
    case Nil
    then show ?thesis by (simp add: print_mac_def xtoi2_padded)
  next
    case (Cons c r)
    then have p: "print_mac octet_padded (b # mac) = octet_padded b @ CHR '':'' # print_mac octet_padded mac"
      by (simp add: print_mac_def)
    have "drop 3 (print_mac octet_padded (b # mac)) = print_mac octet_padded mac"
      unfolding p by (simp add: octet_padded_def)
    then show ?thesis using Cons.IH xtoi2_padded(2) by (simp add: p)
  qed
qed (simp add: print_mac_def)

lemma length_print_padded: "mac \<noteq> [] \<Longrightarrow> length (print_mac octet_padded mac) + 1 = 3 * length mac"
  by (induction mac rule: induct_list012) (simp_all add: print_mac_def octet_padded_def)

lemma hex_digit_plain: "n < 16 \<Longrightarrow> hex_digit n \<notin> {CHR '':'', CHR ''-'', CHR ''.''}"
  using hex_value_digit [of n] by (auto simp: hex_value_def)

lemma print_mac_chars:
  assumes "\<forall>b \<in> set mac. set (octet b) \<subseteq> hex_digit ` {..<16}"
  shows "set (print_mac octet mac) \<subseteq> insert CHR '':'' (hex_digit ` {..<16})"
  using assms unfolding print_mac_def
  by (induction mac rule: induct_list012) auto

lemma octet_chars:
  "set (octet_padded b) \<subseteq> hex_digit ` {..<16}" "set (octet_short b) \<subseteq> hex_digit ` {..<16}"
proof -
  have "unat b div 16 < 16" using unat_u8 [of b] by (simp add: less_mult_imp_div_less)
  then show "set (octet_padded b) \<subseteq> hex_digit ` {..<16}" by (auto simp: octet_padded_def)
  then show "set (octet_short b) \<subseteq> hex_digit ` {..<16}" by (auto simp: octet_short_def)
qed

text \<open>What \<open>ParseMAC\<close> makes of a printed address.\<close>

lemma ParseMAC_padded:
  assumes "length mac \<in> {6, 8, 20}"
  shows "ParseMAC (print_mac octet_padded mac) = Some mac"
proof -
  let ?s = "print_mac octet_padded mac"
  have ne: "mac \<noteq> []" using assms by auto
  then have l: "length ?s + 1 = 3 * length mac" by (rule length_print_padded)
  obtain b c r where "mac = b # c # r" using assms by (cases mac; cases "tl mac") auto
  then have "?s ! 2 = CHR '':''" by (simp add: print_mac_def octet_padded_def)
  moreover have "14 \<le> length ?s" using l assms by auto
  ultimately show ?thesis
    using assms mac_octets_padded [of mac] unfolding ParseMAC_def Let_def l by auto
qed

lemma length_octet_short: "length (octet_short b) = (if unat b < 16 then 1 else 2)"
  by (simp add: octet_short_def octet_padded_def)

lemma length_print_short:
  "mac \<noteq> [] \<Longrightarrow> length (print_mac octet_short mac) + 1 + length (filter (\<lambda>b. unat b < 16) mac) = 3 * length mac"
proof (induction mac rule: induct_list012)
  case (3 b c r)
  have "print_mac octet_short (b # c # r) = octet_short b @ '':'' @ print_mac octet_short (c # r)"
    by (simp add: print_mac_def)
  then show ?case using 3(2) by (simp add: length_octet_short)
qed (simp_all add: print_mac_def length_octet_short)

lemma ParseMAC_short:
  assumes "length mac = 6"
  shows "ParseMAC (print_mac octet_short mac) = (if \<exists>b \<in> set mac. unat b < 16 then None else Some mac)"
proof (cases "\<exists>b \<in> set mac. unat b < 16")
  case True
  let ?s = "print_mac octet_short mac"
  have "length (filter (\<lambda>b. unat b < 16) mac) > 0" using True by (auto simp: filter_empty_conv)
  moreover have "mac \<noteq> []" using assms by auto
  ultimately have l: "length ?s < 17" using length_print_short [of mac] assms by linarith
  have "CHR ''.'' \<notin> set ?s"
  proof
    assume "CHR ''.'' \<in> set ?s"
    then obtain n where "n < 16" "hex_digit n = CHR ''.''"
      using print_mac_chars [of mac octet_short] octet_chars(2) by force
    then show False using hex_digit_plain by auto
  qed
  moreover have "14 \<le> length ?s \<Longrightarrow> ?s ! 4 \<in> set ?s" by (rule nth_mem) simp
  ultimately have "14 \<le> length ?s \<Longrightarrow> ?s ! 4 \<noteq> CHR ''.''" by metis
  moreover have "length ?s = 14 \<or> length ?s = 15 \<or> length ?s = 16 \<or> length ?s < 14" using l by linarith
  ultimately have "ParseMAC ?s = None" by (auto simp: ParseMAC_def)
  with True show ?thesis by simp
next
  case False
  then have "map octet_short mac = map octet_padded mac" by (auto simp: octet_short_def)
  then have "print_mac octet_short mac = print_mac octet_padded mac"
    unfolding print_mac_def by (rule arg_cong)
  with False ParseMAC_padded [of mac] assms show ?thesis by simp
qed

section \<open>Scanning the tables\<close>

definition text_of :: "string list \<Rightarrow> string" where
  "text_of ls = Join ls [newline] @ [newline]"

definition default_line :: "string \<Rightarrow> string \<Rightarrow> bool" where
  "default_line iface l \<longleftrightarrow> length (Fields l) \<ge> 4 \<and> Fields l ! 0 = ''default'' \<and> Fields l ! 3 = iface"

definition entry_line :: "string \<Rightarrow> string \<Rightarrow> bool" where
  "entry_line want l \<longleftrightarrow> length (Fields l) \<ge> 3 \<and> EqualFold (cut_zone (Fields l ! 0)) want"

lemma Split_text_of:
  "\<forall>l \<in> set ls. newline \<notin> set l \<Longrightarrow> ls \<noteq> [] \<Longrightarrow> Split newline (text_of ls) = ls @ [[]]"
  by (simp add: text_of_def Split_Join_line)

lemma gateway_scan_skip:
  "\<forall>l \<in> set pre. \<not> default_line iface l \<Longrightarrow> gateway_scan iface (pre @ ls) = gateway_scan iface ls"
  by (induction pre) (auto simp: default_line_def Let_def)

lemma neighbor_scan_skip:
  "\<forall>l \<in> set pre. \<not> entry_line want l \<Longrightarrow> neighbor_scan want (pre @ ls) = neighbor_scan want ls"
  by (induction pre) (auto simp: entry_line_def Let_def)

section \<open>Properties\<close>

text \<open>
  C28: The gateway's hardware address is found in the two tables: the gateway is that of the
  first default route of the interface, whatever the lines before and after, and its
  address that of the first entry whose address agrees up to letter case and zone.
  \<open>ndp\<close> prints an octet below 16 with one digit; \<open>net.ParseMAC\<close> takes two, so a gateway with
  such an octet is an error, and IPv6 fakes are never sent on its network.
\<close>

theorem ndp_gateway_found:
  assumes "\<forall>l \<in> set (r1 @ route # r2). newline \<notin> set l"
    and "\<forall>l \<in> set r1. \<not> default_line iface l"
    and "Fields route = ''default'' # gw # flags # iface # fs"
    and "\<forall>l \<in> set (n1 @ entry # n2). newline \<notin> set l"
    and "\<forall>l \<in> set n1. \<not> entry_line (cut_zone gw) l"
    and "Fields entry = addr # print_mac octet_short mac # ifc # gs"
    and "EqualFold (cut_zone addr) (cut_zone gw)" and "length mac = 6"
  shows "ipv6DefaultGateway (text_of (r1 @ route # r2)) iface = gw \<and>
    neighborMAC (text_of (n1 @ entry # n2)) gw =
      (if \<exists>b \<in> set mac. unat b < 16 then Inl NeighborParse else Inr mac)"
proof
  show "ipv6DefaultGateway (text_of (r1 @ route # r2)) iface = gw"
    using gateway_scan_skip [OF assms(2)] assms(3)
    by (simp add: ipv6DefaultGateway_def Split_text_of [OF assms(1)])
  show "neighborMAC (text_of (n1 @ entry # n2)) gw =
      (if \<exists>b \<in> set mac. unat b < 16 then Inl NeighborParse else Inr mac)"
    using neighbor_scan_skip [OF assms(5)] assms(6,7) ParseMAC_short [OF assms(8)]
    by (simp add: neighborMAC_def Split_text_of [OF assms(4)])
qed

definition demo_routes :: "string list" where
  "demo_routes = [''Internet6:'', ''default fe80::1%utun0 UGcIg utun0'', ''default fe80::1%en0 UGcg en0'']"

definition demo_entry :: "bytes \<Rightarrow> string" where
  "demo_entry mac = ''fe80::1%en0  '' @ print_mac octet_short mac @ '' en0 4s R''"

theorem ndp_gateway_found_witness:
  "ipv6DefaultGateway (text_of demo_routes) ''en0'' = ''fe80::1%en0'' \<and>
   neighborMAC (text_of [''Neighbor'', demo_entry [0x4c, 0x2e, 0xfe, 0x36, 0x2c, 0xe7]]) ''fe80::1%en0'' =
     Inr [0x4c, 0x2e, 0xfe, 0x36, 0x2c, 0xe7] \<and>
   neighborMAC (text_of [''Neighbor'', demo_entry [0x4c, 0x2e, 0xfe, 0x36, 0x0c, 0xe7]]) ''fe80::1%en0'' =
     Inl NeighborParse"
proof -
  let ?r1 = "[''Internet6:'', ''default fe80::1%utun0 UGcIg utun0'']" and ?route = "''default fe80::1%en0 UGcg en0''"
  let ?m1 = "[0x4c, 0x2e, 0xfe, 0x36, 0x2c, 0xe7] :: bytes" and ?m2 = "[0x4c, 0x2e, 0xfe, 0x36, 0x0c, 0xe7] :: bytes"
  have r: "\<forall>l \<in> set (?r1 @ ?route # []). newline \<notin> set l" "\<forall>l \<in> set ?r1. \<not> default_line ''en0'' l"
    "Fields ?route = [''default'', ''fe80::1%en0'', ''UGcg'', ''en0'']"
    by (simp_all add: newline_def default_line_def Fields_def is_space_def)
  have e: "\<not> entry_line (cut_zone ''fe80::1%en0'') ''Neighbor''"
    by (simp add: entry_line_def Fields_def is_space_def)
  have n1: "newline \<notin> set (demo_entry ?m1) \<and>
      Fields (demo_entry ?m1) = [''fe80::1%en0'', print_mac octet_short ?m1, ''en0'', ''4s'', ''R'']" by code_simp
  have n2: "newline \<notin> set (demo_entry ?m2) \<and>
      Fields (demo_entry ?m2) = [''fe80::1%en0'', print_mac octet_short ?m2, ''en0'', ''4s'', ''R'']" by code_simp
  have l: "newline \<notin> set ''Neighbor''" by (simp add: newline_def)
  have f: "EqualFold (cut_zone ''fe80::1%en0'') (cut_zone ''fe80::1%en0'')" by (simp add: EqualFold_def)
  have "ipv6DefaultGateway (text_of (?r1 @ ?route # [])) ''en0'' = ''fe80::1%en0'' \<and>
    neighborMAC (text_of ([''Neighbor''] @ demo_entry m # [])) ''fe80::1%en0'' =
      (if \<exists>b \<in> set m. unat b < 16 then Inl NeighborParse else Inr m)" if "m = ?m1 \<or> m = ?m2" for m
    by (rule ndp_gateway_found [OF r, where addr = "''fe80::1%en0''" and ifc = "''en0''" and gs = "[''4s'', ''R'']"])
       (use that n1 n2 e l f in auto)
  from this [of ?m1] this [of ?m2] show ?thesis by (simp add: demo_routes_def)
qed

text \<open>A fake asked for: what the send meets, and its arguments.\<close>

type_synonym v6_request = "v6_env \<times> ConnInfo \<times> bytes \<times> int"

definition v6_after :: "string \<Rightarrow> v6_request list \<Rightarrow> ipv6Injector" where
  "v6_after iface ws =
     fold (\<lambda>(env, conn, payload, ttl) i. snd (snd (v6_send iface env conn payload ttl i))) ws newIPv6Injector"

definition resolved_by :: "string \<Rightarrow> v6_env set \<Rightarrow> ipv6Injector \<Rightarrow> bool" where
  "resolved_by iface E i \<longleftrightarrow>
     (\<forall>d. inj_dstMAC i = Some d \<longrightarrow>
        (\<exists>env \<in> E. lookup_gateway iface env = Inr (inj_srcMAC i, d) \<and> inj_resolvedAt i = env_now env))"

lemma resolve_cases:
  assumes "resolve iface env i = (r, i')"
  obtains "i' = i" "inj_dstMAC i \<noteq> None" "env_since env - inj_resolvedAt i < neighborTTL" "r = None"
  | e where "i' = i" "r = Some e" "lookup_gateway iface env = Inl e"
  | s d where "r = None" "lookup_gateway iface env = Inr (s, d)"
      "i' = \<lparr>inj_srcMAC = s, inj_dstMAC = Some d, inj_resolvedAt = env_now env\<rparr>"
  using assms by (auto simp: resolve_def split: if_splits sum.splits)

lemma v6_send_state: "snd (snd (v6_send iface env conn payload ttl i)) = snd (resolve iface env i)"
  by (auto simp: v6_send_def Let_def split: prod.splits option.splits)

lemma resolve_resolved_by:
  assumes "resolved_by iface E i"
  shows "resolved_by iface (insert env E) (snd (resolve iface env i))"
proof -
  obtain r i' where r: "resolve iface env i = (r, i')" by fastforce
  with assms show ?thesis by (cases rule: resolve_cases [OF r]) (auto simp: resolved_by_def)
qed

lemma v6_after_resolved_by: "resolved_by iface (fst ` set ws) (v6_after iface ws)"
proof (induction ws rule: rev_induct)
  case (snoc w ws)
  then show ?case
    using resolve_resolved_by [OF snoc, of "fst w"] by (cases w) (simp add: v6_after_def v6_send_state)
qed (simp add: v6_after_def resolved_by_def newIPv6Injector_def)

text \<open>
  C27: After any sequence of sends, an IPv6 fake that goes out is the frame that
  \<open>SendFake\<close> builds for the hardware addresses of the interface and its default gateway, as
  the system gave them at this very send or at an earlier one whose answer is less than
  60 seconds old; a gateway that has changed is followed after a minute at most.
\<close>

theorem gateway_mac_fresh:
  assumes "v6_send iface env conn payload ttl (v6_after iface ws) = (None, Some frame, i')"
    and "To4 (DstIP conn) = None"
  shows "\<exists>env' src dst. lookup_gateway iface env' = Inr (src, dst) \<and>
    SendFake_darwin (Some (src, dst)) conn payload ttl = Some (WritePacketData frame) \<and>
    (env' = env \<or> env' \<in> fst ` set ws \<and> env_since env - env_now env' < 60 * 10 ^ 9)"
proof -
  let ?i = "v6_after iface ws"
  from assms(1) have r: "resolve iface env ?i = (None, i')"
    and f: "frame = BuildEthernetFrame (inj_srcMAC i') (nil_bytes (inj_dstMAC i')) (BuildPacket Darwin conn payload ttl)"
    by (auto simp: v6_send_def Let_def split: prod.splits option.splits if_splits)
  from r show ?thesis
  proof (cases rule: resolve_cases)
    case 1
    then obtain d where d: "inj_dstMAC ?i = Some d" by auto
    with v6_after_resolved_by [of iface ws] obtain env' where
      "env' \<in> fst ` set ws" "lookup_gateway iface env' = Inr (inj_srcMAC ?i, d)" "inj_resolvedAt ?i = env_now env'"
      by (auto simp: resolved_by_def)
    with 1 d f assms(2) show ?thesis
      by (intro exI [of _ env'] exI [of _ "inj_srcMAC ?i"] exI [of _ d])
         (simp add: SendFake_darwin_def injector_send_def neighborTTL_def)
  next
    case (3 s d)
    with f assms(2) show ?thesis
      by (intro exI [of _ env] exI [of _ s] exI [of _ d]) (simp add: SendFake_darwin_def injector_send_def)
  qed simp
qed

definition demo_v6_env :: "int \<Rightarrow> bytes \<Rightarrow> v6_env" where
  "demo_v6_env now mac = \<lparr>env_since = now, env_now = now,
     env_ifi = Some \<lparr>HardwareAddr = [2, 2, 2, 2, 2, 2], Addrs = Some [IPNet (SrcIP demo_conn6)]\<rparr>,
     env_netstat = Some (text_of demo_routes), env_ndp = Some (text_of [demo_entry mac]), env_write_ok = True\<rparr>"

theorem gateway_mac_fresh_witness:
  "\<exists>frame i'. v6_send ''en0'' (demo_v6_env 70000000000 [48, 48, 48, 48, 48, 48]) demo_conn6 [1] 8
      (v6_after ''en0'' [(demo_v6_env 0 [32, 32, 32, 32, 32, 32], demo_conn6, [1], 8)]) =
      (None, Some frame, i') \<and>
    SendFake_darwin (Some ([2, 2, 2, 2, 2, 2], [48, 48, 48, 48, 48, 48])) demo_conn6 [1] 8 =
      Some (WritePacketData frame)"
proof -
  let ?e0 = "demo_v6_env 0 [32, 32, 32, 32, 32, 32]" and ?e1 = "demo_v6_env 70000000000 [48, 48, 48, 48, 48, 48]"
  have l0: "lookup_gateway ''en0'' ?e0 = Inr ([2, 2, 2, 2, 2, 2], [32, 32, 32, 32, 32, 32])" by code_simp
  have l1: "lookup_gateway ''en0'' ?e1 = Inr ([2, 2, 2, 2, 2, 2], [48, 48, 48, 48, 48, 48])" by code_simp
  have t: "env_since ?e0 = 0" "env_now ?e0 = 0" "env_since ?e1 = 70000000000" "env_write_ok ?e1"
    by (simp_all add: demo_v6_env_def)
  let ?i = "v6_after ''en0'' [(?e0, demo_conn6, [1], 8)]"
  have "?i = \<lparr>inj_srcMAC = [2, 2, 2, 2, 2, 2], inj_dstMAC = Some [32, 32, 32, 32, 32, 32], inj_resolvedAt = 0\<rparr>"
    by (simp add: v6_after_def v6_send_state resolve_def newIPv6Injector_def l0 t)
  then obtain frame i' where s: "v6_send ''en0'' ?e1 demo_conn6 [1] 8 ?i = (None, Some frame, i')"
    by (simp add: v6_send_def resolve_def l1 t neighborTTL_def Let_def)
  moreover have "To4 (DstIP demo_conn6) = None"
    by (simp add: demo_conn6_def To4_def v4_in_v6_prefix_def numeral_eq_Suc)
  ultimately obtain env' src dst where "lookup_gateway ''en0'' env' = Inr (src, dst)"
    "SendFake_darwin (Some (src, dst)) demo_conn6 [1] 8 = Some (WritePacketData frame)" "env' = ?e1"
    using gateway_mac_fresh [of "''en0''" ?e1 demo_conn6 "[1]" 8 "[(?e0, demo_conn6, [1], 8)]" frame i'] t by auto
  with s l1 show ?thesis by auto
qed

end
