(* ===== verification/Interfaces.thy ===== *)
theory Interfaces
  imports Neighbour_Darwin
begin

text \<open>
  Which network interface the engine of macOS and Windows works on
  (\<open>detectPhysicalInterface\<close> of \<open>src/pkg/tun/manager.go\<close>), and what the Windows raw socket
  finds out for itself: its device and the two hardware addresses of its frames
  (\<open>src/pkg/rawsock/rawsock_windows_pcap.go\<close>), read from the tables \<open>route\<close> and \<open>arp\<close> print;
  and the device of the Windows capture (\<open>src/pkg/capture/capture_windows_pcap.go\<close>).
\<close>

section \<open>The physical interface\<close>

text \<open>An interface as \<open>net.Interfaces\<close> lists it; its addresses are none when they cannot be read.\<close>

record nic =
  nic_name :: string
  nic_up :: bool
  nic_loopback :: bool
  nic_mac :: bytes
  nic_addrs :: "net_addr list"

text \<open>An IPv4 address that is neither a loopback address nor that of the TUN device.\<close>

definition outside_v4 :: "ip \<Rightarrow> bool" where
  "outside_v4 p \<longleftrightarrow> (case To4 p of None \<Rightarrow> False | Some q \<Rightarrow> \<not> IsLoopback q \<and> q \<noteq> [10, 0, 85, 1])"

definition global_v6 :: "ip \<Rightarrow> bool" where
  "global_v6 p \<longleftrightarrow> To4 p = None \<and>
     (case To16 p of None \<Rightarrow> False | Some q \<Rightarrow> \<not> IsLoopback q \<and> \<not> IsLinkLocalUnicast q)"

definition virtual_prefixes :: "string list" where
  "virtual_prefixes = [''utun'', ''bridge'', ''veth'', ''vmnet'', ''lo'']"

text \<open>The loop over the addresses of one interface: its name is returned, or the loop goes on with the fallback.\<close>

fun addr_loop :: "string \<Rightarrow> string \<Rightarrow> net_addr list \<Rightarrow> string + string" where
  "addr_loop name fallback [] = Inr fallback"
| "addr_loop name fallback (OtherAddr # as) = addr_loop name fallback as"
| "addr_loop name fallback (IPNet p # as) =
     (if outside_v4 p then Inl name
      else addr_loop name (if fallback = '''' \<and> global_v6 p then name else fallback) as)"

fun nic_loop :: "string \<Rightarrow> nic list \<Rightarrow> string" where
  "nic_loop fallback [] = fallback"
| "nic_loop fallback (n # ns) =
     (if \<not> nic_up n \<or> nic_loopback n then nic_loop fallback ns
      else let name = (if list_ex (\<lambda>p. prefix p (nic_name n)) virtual_prefixes then '''' else nic_name n) in
        if name = '''' then nic_loop fallback ns
        else (case addr_loop name fallback (nic_addrs n) of
                Inl found \<Rightarrow> found
              | Inr fallback \<Rightarrow> nic_loop fallback ns))"

definition detectPhysicalInterface :: "nic list \<Rightarrow> string" where
  "detectPhysicalInterface ifaces = nic_loop '''' ifaces"

section \<open>The Windows raw socket\<close>

definition broadcast_mac :: bytes where
  "broadcast_mac = replicate 6 0xff"

text \<open>The gateway of the first default route, and the first entry for it that parses.\<close>

definition route_gateway :: "string \<Rightarrow> string" where
  "route_gateway out =
     (case find (\<lambda>f. length f \<ge> 3 \<and> f ! 0 = ''0.0.0.0'' \<and> f ! 1 = ''0.0.0.0'')
         (map (\<lambda>line. Fields (TrimSpace line)) (Split newline out)) of
        None \<Rightarrow> ''''
      | Some f \<Rightarrow> f ! 2)"

definition colons :: "string \<Rightarrow> string" where
  "colons = map (\<lambda>c. if c = CHR ''-'' then CHR '':'' else c)"

fun arp_scan :: "string \<Rightarrow> string list \<Rightarrow> bytes option" where
  "arp_scan gwIP [] = None"
| "arp_scan gwIP (line # ls) =
     (let f = Fields (TrimSpace line) in
      if length f \<ge> 2 \<and> f ! 0 = gwIP then
        (case ParseMAC (colons (f ! 1)) of Some mac \<Rightarrow> Some mac | None \<Rightarrow> arp_scan gwIP ls)
      else arp_scan gwIP ls)"

definition gatewayMAC :: "string option \<Rightarrow> string option \<Rightarrow> bytes option" where
  "gatewayMAC route_out arp_out =
     (case route_out of
        None \<Rightarrow> None
      | Some out \<Rightarrow>
          let gwIP = route_gateway out in
          if gwIP = '''' then None
          else (case arp_out of None \<Rightarrow> None | Some out \<Rightarrow> arp_scan gwIP (Split newline out)))"

definition outside_addr :: "net_addr \<Rightarrow> bool" where
  "outside_addr a \<longleftrightarrow> (case a of OtherAddr \<Rightarrow> False | IPNet p \<Rightarrow> outside_v4 p)"

definition discoverMACs :: "nic list \<Rightarrow> string option \<Rightarrow> string option \<Rightarrow> bytes \<times> bytes" where
  "discoverMACs ifaces route_out arp_out =
     (case find (\<lambda>n. nic_up n \<and> \<not> nic_loopback n \<and> nic_mac n \<noteq> [] \<and> list_ex outside_addr (nic_addrs n)) ifaces of
        None \<Rightarrow> (replicate 6 0, broadcast_mac)
      | Some n \<Rightarrow>
          (nic_mac n, case gatewayMAC route_out arp_out of None \<Rightarrow> broadcast_mac | Some mac \<Rightarrow> mac))"

record pcap_dev =
  dev_name :: string
  dev_addrs :: "ip list"

definition defaultInterface :: "pcap_dev list option \<Rightarrow> string option" where
  "defaultInterface devs =
     (case devs of
        None \<Rightarrow> None
      | Some ds \<Rightarrow> map_option dev_name (find (\<lambda>d. list_ex outside_v4 (dev_addrs d)) ds))"

text \<open>\<open>New\<close>: the device opened and the hardware addresses, or an error; the interface is not used.\<close>

definition New_windows ::
    "string \<Rightarrow> pcap_dev list option \<Rightarrow> (string \<Rightarrow> bool) \<Rightarrow> nic list \<Rightarrow> string option \<Rightarrow> string option \<Rightarrow>
     (string \<times> bytes \<times> bytes) option" where
  "New_windows iface devs open_ok ifaces route_out arp_out =
     (case defaultInterface devs of
        None \<Rightarrow> None
      | Some dev \<Rightarrow> if \<not> open_ok dev then None else Some (dev, discoverMACs ifaces route_out arp_out))"

section \<open>The Windows capture\<close>

text \<open>Addresses are compared in print, where the two forms of an IPv4 address agree.\<close>

definition same_ip :: "ip \<Rightarrow> ip \<Rightarrow> bool" where
  "same_ip p q \<longleftrightarrow> p = q \<or> (To16 p \<noteq> None \<and> To16 p = To16 q)"

definition resolvePcapDevice :: "net_addr list option \<Rightarrow> pcap_dev list option \<Rightarrow> string option" where
  "resolvePcapDevice addrs devs =
     (case addrs of
        None \<Rightarrow> None
      | Some [] \<Rightarrow> None
      | Some as \<Rightarrow>
          (case devs of
             None \<Rightarrow> None
           | Some ds \<Rightarrow>
               map_option dev_name
                 (find (\<lambda>d. list_ex (\<lambda>q. list_ex (\<lambda>a. case a of IPNet p \<Rightarrow> same_ip p q | OtherAddr \<Rightarrow> False) as)
                    (dev_addrs d)) ds)))"

section \<open>Facts\<close>

text \<open>An interface is eligible when it is up, no loopback, and not of a virtual kind by its name.\<close>

definition eligible :: "nic \<Rightarrow> bool" where
  "eligible n \<longleftrightarrow> nic_up n \<and> \<not> nic_loopback n \<and> nic_name n \<noteq> '''' \<and>
     \<not> list_ex (\<lambda>p. prefix p (nic_name n)) virtual_prefixes"

definition has_v4 :: "nic \<Rightarrow> bool" where
  "has_v4 n = list_ex outside_addr (nic_addrs n)"

definition has_v6 :: "nic \<Rightarrow> bool" where
  "has_v6 n = list_ex (\<lambda>a. case a of OtherAddr \<Rightarrow> False | IPNet p \<Rightarrow> global_v6 p) (nic_addrs n)"

definition name_of :: "string \<Rightarrow> nic option \<Rightarrow> string" where
  "name_of def n = (case n of None \<Rightarrow> def | Some n \<Rightarrow> nic_name n)"

lemma addr_loop_result:
  "name \<noteq> '''' \<Longrightarrow> addr_loop name fallback as =
     (if list_ex outside_addr as then Inl name
      else Inr (if fallback = '''' \<and> list_ex (\<lambda>a. case a of OtherAddr \<Rightarrow> False | IPNet p \<Rightarrow> global_v6 p) as
                then name else fallback))"
  by (induction name fallback as rule: addr_loop.induct) (auto simp: outside_addr_def)

lemma nic_loop_skip: "\<not> eligible n \<Longrightarrow> nic_loop fallback (n # ns) = nic_loop fallback ns"
  by (auto simp: eligible_def Let_def)

lemma nic_loop_eligible:
  assumes "eligible n"
  shows "nic_loop fallback (n # ns) =
    (if has_v4 n then nic_name n else nic_loop (if fallback = '''' \<and> has_v6 n then nic_name n else fallback) ns)"
  using assms by (auto simp: eligible_def has_v4_def has_v6_def addr_loop_result)

lemma nic_loop_result:
  "nic_loop fallback ns =
     (case find (\<lambda>n. eligible n \<and> has_v4 n) ns of
        Some n \<Rightarrow> nic_name n
      | None \<Rightarrow> if fallback \<noteq> '''' then fallback else name_of '''' (find (\<lambda>n. eligible n \<and> has_v6 n) ns))"
proof (induction ns arbitrary: fallback)
  case (Cons n ns)
  show ?case
  proof (cases "eligible n")
    case True
    then have "nic_name n \<noteq> ''''" by (simp add: eligible_def)
    with True Cons show ?thesis by (auto simp: nic_loop_eligible name_of_def simp del: nic_loop.simps split: option.split)
  next
    case False
    with Cons show ?thesis by (auto simp: nic_loop_skip simp del: nic_loop.simps split: option.split)
  qed
qed (simp add: name_of_def)

text \<open>A hardware address as \<open>arp\<close> of Windows prints it: two digits for each octet, dashes between.\<close>

definition dashed :: "bytes \<Rightarrow> string" where
  "dashed mac = map (\<lambda>c. if c = CHR '':'' then CHR ''-'' else c) (print_mac octet_padded mac)"

lemma ParseMAC_dashed:
  assumes "length mac = 6"
  shows "ParseMAC (colons (dashed mac)) = Some mac"
proof -
  have "c \<noteq> CHR ''-''" if "c \<in> set (print_mac octet_padded mac)" for c
  proof -
    from that consider "c = CHR '':''" | n where "n < 16" "c = hex_digit n"
      using print_mac_chars [of mac octet_padded] octet_chars(1) by blast
    then show ?thesis using hex_digit_plain by cases auto
  qed
  then have "colons (dashed mac) = print_mac octet_padded mac"
    unfolding colons_def dashed_def by (auto simp: map_idI)
  with ParseMAC_padded [of mac] assms show ?thesis by simp
qed

definition default_route_line :: "string \<Rightarrow> bool" where
  "default_route_line l \<longleftrightarrow> length (Fields l) \<ge> 3 \<and> Fields l ! 0 = ''0.0.0.0'' \<and> Fields l ! 1 = ''0.0.0.0''"

definition arp_line :: "string \<Rightarrow> string \<Rightarrow> bool" where
  "arp_line gw l \<longleftrightarrow> length (Fields l) \<ge> 2 \<and> Fields l ! 0 = gw"

lemma route_gateway_skip:
  assumes "\<forall>l \<in> set (r1 @ route # r2). newline \<notin> set l" and "\<forall>l \<in> set r1. \<not> default_route_line l"
    and "default_route_line route"
  shows "route_gateway (text_of (r1 @ route # r2)) = Fields route ! 2"
proof -
  have "find P (map f (r1 @ route # r2) @ xs) = Some (f route)"
    if "\<forall>l \<in> set r1. \<not> P (f l)" "P (f route)" for P xs and f :: "string \<Rightarrow> string list"
    using that by (induction r1) auto
  with assms(2,3) show ?thesis
    by (simp add: route_gateway_def Split_text_of [OF assms(1)] Fields_TrimSpace default_route_line_def)
qed

lemma arp_scan_skip:
  "\<forall>l \<in> set pre. \<not> arp_line gw l \<Longrightarrow> arp_scan gw (pre @ ls) = arp_scan gw ls"
  by (induction pre) (auto simp: arp_line_def Fields_TrimSpace Let_def)

lemma find_Some_eligible: "find (\<lambda>n. eligible n \<and> P n) ns = Some n \<Longrightarrow> eligible n"
  by (auto simp: find_Some_iff)

section \<open>Properties\<close>

text \<open>
  The interface the engine works on is the first eligible one with an IPv4 address of its
  own, and only when no eligible interface has one, the first with a global IPv6 address; it
  is never one of a virtual kind, so never the engine's own TUN device.
\<close>

theorem physical_interface_choice:
  "detectPhysicalInterface ifaces =
     (case find (\<lambda>n. eligible n \<and> has_v4 n) ifaces of
        Some n \<Rightarrow> nic_name n
      | None \<Rightarrow> (case find (\<lambda>n. eligible n \<and> has_v6 n) ifaces of Some n \<Rightarrow> nic_name n | None \<Rightarrow> '''')) \<and>
   \<not> list_ex (\<lambda>p. prefix p (detectPhysicalInterface ifaces)) virtual_prefixes"
proof -
  have eq: "detectPhysicalInterface ifaces =
     (case find (\<lambda>n. eligible n \<and> has_v4 n) ifaces of
        Some n \<Rightarrow> nic_name n
      | None \<Rightarrow> (case find (\<lambda>n. eligible n \<and> has_v6 n) ifaces of Some n \<Rightarrow> nic_name n | None \<Rightarrow> ''''))"
    by (simp add: detectPhysicalInterface_def nic_loop_result name_of_def split: option.split)
  moreover have "detectPhysicalInterface ifaces = '''' \<or> (\<exists>n. eligible n \<and> detectPhysicalInterface ifaces = nic_name n)"
    unfolding eq by (auto split: option.split dest!: find_Some_eligible)
  moreover have "\<not> list_ex (\<lambda>p. prefix p '''') virtual_prefixes" by (simp add: virtual_prefixes_def)
  ultimately show ?thesis by (auto simp: eligible_def)
qed

text \<open>
  On Windows the gateway's hardware address is found for every address there is: the
  gateway is that of the first default route, and the dashed form \<open>arp\<close> prints, with two
  digits for each octet, is read back, whatever lines stand around the two.
\<close>

theorem arp_gateway_found:
  assumes "\<forall>l \<in> set (r1 @ route # r2). newline \<notin> set l" and "\<forall>l \<in> set r1. \<not> default_route_line l"
    and "Fields route = ''0.0.0.0'' # ''0.0.0.0'' # gw # fs"
    and "\<forall>l \<in> set (n1 @ entry # n2). newline \<notin> set l" and "\<forall>l \<in> set n1. \<not> arp_line gw l"
    and "Fields entry = gw # dashed mac # gs" and "length mac = 6"
  shows "gatewayMAC (Some (text_of (r1 @ route # r2))) (Some (text_of (n1 @ entry # n2))) = Some mac"
proof -
  have "default_route_line route" using assms(3) by (simp add: default_route_line_def)
  from route_gateway_skip [OF assms(1,2) this] have "route_gateway (text_of (r1 @ route # r2)) = gw"
    using assms(3) by simp
  moreover have "gw \<noteq> ''''" using token_Fields [of gw route] assms(3) by (auto simp: token_def)
  moreover have "arp_scan gw ((n1 @ entry # n2) @ [[]]) = Some mac"
    using arp_scan_skip [OF assms(5)] assms(6) by (simp add: Fields_TrimSpace ParseMAC_dashed [OF assms(7)])
  ultimately show ?thesis by (simp add: gatewayMAC_def Split_text_of [OF assms(4)])
qed

theorem arp_gateway_found_witness:
  "gatewayMAC (Some (text_of [''Active Routes:'', ''  0.0.0.0  0.0.0.0  10.0.0.1  10.0.0.5  25'']))
     (Some (text_of [''Interface: 10.0.0.5 --- 0x4'', ''  10.0.0.1  4c-2e-fe-36-0c-e7  dynamic''])) =
   Some [0x4c, 0x2e, 0xfe, 0x36, 0x0c, 0xe7]"
proof -
  let ?r1 = "[''Active Routes:'']" and ?route = "''  0.0.0.0  0.0.0.0  10.0.0.1  10.0.0.5  25''"
  let ?n1 = "[''Interface: 10.0.0.5 --- 0x4'']" and ?entry = "''  10.0.0.1  4c-2e-fe-36-0c-e7  dynamic''"
  let ?mac = "[0x4c, 0x2e, 0xfe, 0x36, 0x0c, 0xe7] :: bytes"
  have "list_all (\<lambda>l. newline \<notin> set l) (?r1 @ ?route # [])" "list_all (\<lambda>l. \<not> default_route_line l) ?r1"
    "list_all (\<lambda>l. newline \<notin> set l) (?n1 @ ?entry # [])" "list_all (\<lambda>l. \<not> arp_line ''10.0.0.1'' l) ?n1"
    by code_simp+
  then have l: "\<forall>l \<in> set (?r1 @ ?route # []). newline \<notin> set l" "\<forall>l \<in> set ?r1. \<not> default_route_line l"
    "\<forall>l \<in> set (?n1 @ ?entry # []). newline \<notin> set l" "\<forall>l \<in> set ?n1. \<not> arp_line ''10.0.0.1'' l"
    unfolding list_all_iff by blast+
  have f: "Fields ?route = [''0.0.0.0'', ''0.0.0.0'', ''10.0.0.1'', ''10.0.0.5'', ''25'']"
    "Fields ?entry = [''10.0.0.1'', dashed ?mac, ''dynamic'']"
    by code_simp+
  from arp_gateway_found [OF l(1,2) f(1) l(3,4) f(2)] show ?thesis by simp
qed

end
