(* ===== verification/Tun_Routes.thy ===== *)
theory Tun_Routes
  imports Interfaces Tun_Manager Capture
begin

text \<open>
  The rest of \<open>src/pkg/tun/manager.go\<close>: the defaults of \<open>NewManager\<close>, the interface its own
  connections are bound to, and the options of the TUN device with the prefixes of
  \<open>net/netip\<close> they are written in, which all parse.  What the TUN library makes of the options,
  the routes among them, is not modelled.
\<close>

section \<open>Prefixes\<close>

text \<open>\<open>netip.ParseAddr\<close> without zones: 4 bytes or 16.\<close>

definition ParseAddr :: "string \<Rightarrow> bytes option" where
  "ParseAddr s =
     (case dropWhile (\<lambda>c. c \<notin> {CHR ''.'', CHR '':'', CHR ''%''}) s of
        [] \<Rightarrow> None
      | c # _ \<Rightarrow>
          if c = CHR ''.'' then parse_ipv4 s
          else if c = CHR '':'' \<and> CHR ''%'' \<notin> set s then parse_ipv6 s
          else None)"

record ip_prefix =
  pf_addr :: bytes
  pf_bits :: nat

text \<open>\<open>netip.ParsePrefix\<close>: what follows the last slash is a number without leading zeros.\<close>

definition ParsePrefix :: "string \<Rightarrow> ip_prefix option" where
  "ParsePrefix s =
     (if CHR ''/'' \<notin> set s then None
      else
        let bs = rev (takeWhile (\<lambda>c. c \<noteq> CHR ''/'') (rev s)); addr = take (length s - length bs - 1) s in
        (case (ParseAddr addr, decimal 0 bs) of
           (Some ip, Some n) \<Rightarrow>
             if bs = [] \<or> (length bs > 1 \<and> hd bs = CHR ''0'') \<or> n > 8 * length ip then None
             else Some \<lparr>pf_addr = ip, pf_bits = n\<rparr>
         | _ \<Rightarrow> None))"

section \<open>The manager\<close>

record tun_config =
  tc_Ports :: "u16 list"
  tc_FakeTTL :: int
  tc_Interface :: string

definition tun_NewManager :: "tun_config \<Rightarrow> tun_config \<times> (u16 \<Rightarrow> bool)" where
  "tun_NewManager cfg =
     (let cfg = (if tc_FakeTTL cfg = 0 then cfg\<lparr>tc_FakeTTL := 8\<rparr> else cfg);
          cfg = (if length (tc_Ports cfg) = 0 then cfg\<lparr>tc_Ports := [443]\<rparr> else cfg)
      in (cfg, portMap (tc_Ports cfg)))"

text \<open>\<open>Start\<close> settles the interface before \<open>initNetworking\<close> binds to it.\<close>

definition start_interface :: "nic list \<Rightarrow> tun_config \<Rightarrow> string" where
  "start_interface ifaces cfg =
     (if tc_Interface cfg = '''' then detectPhysicalInterface ifaces else tc_Interface cfg)"

definition bound_interface :: "nic list \<Rightarrow> string \<Rightarrow> string" where
  "bound_interface ifaces iface = (if iface = '''' then detectPhysicalInterface ifaces else iface)"

definition tunMTU :: nat where
  "tunMTU = 1420"

text \<open>\<open>MustParsePrefix\<close> and \<open>MustParseAddr\<close> panic on a string that does not parse: \<open>None\<close>.\<close>

record tun_options =
  Name :: string
  Inet4Address :: "ip_prefix option list"
  Inet6Address :: "ip_prefix option list"
  Inet6RouteAddress :: "ip_prefix option list"
  Inet6RouteExcludeAddress :: "ip_prefix option list"
  MTU :: nat
  AutoRoute :: bool
  DNSServers :: "bytes option list"

definition tunOptions :: tun_options where
  "tunOptions = \<lparr>
     Name = ''utun85'',
     Inet4Address = [ParsePrefix ''10.0.85.1/30''],
     Inet6Address = [ParsePrefix ''fdfe:dcba:9876::1/126''],
     Inet6RouteAddress = [ParsePrefix ''2000::/3''],
     Inet6RouteExcludeAddress = [ParsePrefix ''fe80::/10'', ParsePrefix ''ff00::/8''],
     MTU = tunMTU,
     AutoRoute = True,
     DNSServers = [ParseAddr ''127.0.0.1'']\<rparr>"

section \<open>Facts\<close>

lemma v4_prefix: "ParsePrefix ''10.0.85.1/30'' = Some \<lparr>pf_addr = [10, 0, 85, 1], pf_bits = 30\<rparr>"
  by code_simp

lemmas v6_groups_num = v6_groups.simps(2) [of "pred_numeral k" for k, folded numeral_eq_Suc]

lemmas prefix_eval = ParsePrefix_def ParseAddr_def parse_ipv6_def v6_groups_num is_hex_def hex_value_def hex_number_def
  be16_def Let_def digit_value_def

lemma replicate_15: "replicate 15 (0 :: u8) = 0 # replicate 14 0"
  by (simp add: numeral_eq_Suc)

lemma own_v6_prefix: "ParsePrefix ''fdfe:dcba:9876::1/126'' =
     Some \<lparr>pf_addr = [0xfd, 0xfe, 0xdc, 0xba, 0x98, 0x76, 0, 0, 0, 0, 0, 0, 0, 0, 0, 1], pf_bits = 126\<rparr>"
  by (simp add: prefix_eval) (simp add: numeral_eq_Suc)

lemma global_prefix: "ParsePrefix ''2000::/3'' = Some \<lparr>pf_addr = 0x20 # replicate 15 0, pf_bits = 3\<rparr>"
  by (simp add: prefix_eval) (simp add: replicate_15)

lemma link_local_prefix: "ParsePrefix ''fe80::/10'' = Some \<lparr>pf_addr = 0xfe # 0x80 # replicate 14 0, pf_bits = 10\<rparr>"
  by (simp add: prefix_eval)

lemma multicast_prefix: "ParsePrefix ''ff00::/8'' = Some \<lparr>pf_addr = 0xff # replicate 15 0, pf_bits = 8\<rparr>"
  by (simp add: prefix_eval) (simp add: replicate_15)

lemma resolver_addr: "ParseAddr ''127.0.0.1'' = Some [127, 0, 0, 1]"
  by code_simp

lemmas option_prefixes = v4_prefix own_v6_prefix global_prefix link_local_prefix multicast_prefix resolver_addr

section \<open>Properties\<close>

text \<open>
  The interface the manager's own connections leave by is the one it captures on, and when it
  has found that itself, it is not the TUN: the address it gives the TUN is the one the
  search passes over, and names like its name are skipped.
\<close>

theorem own_connections_avoid_tun:
  "bound_interface ifaces (start_interface ifaces cfg) = start_interface ifaces cfg \<and>
   (\<forall>p q. To4 p = Some q \<and> Some \<lparr>pf_addr = q, pf_bits = 30\<rparr> \<in> set (Inet4Address tunOptions) \<longrightarrow> \<not> outside_v4 p) \<and>
   list_ex (\<lambda>pre. prefix pre (Name tunOptions)) virtual_prefixes"
  by (auto simp: bound_interface_def start_interface_def tunOptions_def option_prefixes outside_v4_def
      virtual_prefixes_def)

end
