(* ===== verification/Map_Bounds.thy ===== *)
theory Map_Bounds
  imports Ebpf_Userspace
begin

text \<open>
  The bounds of the maps (\<open>max_entries\<close> in \<open>src/pkg/ebpf/bpf/maps.h\<close>) against what userspace
  pushes into them (\<open>src/pkg/ebpf/config.go\<close>): how many target ports and excluded addresses a
  configuration can have before an update is refused and \<open>Start\<close> gives up.
\<close>

section \<open>Bounded maps\<close>

text \<open>
  What the kernel documents of a hash map with a bound, when updated with \<open>BPF_ANY\<close>: an update
  of a key that is there, or of a new one while there is room, succeeds; any other fails.  An
  array has all its keys from the start, and no others.
\<close>

definition hash_map_spec :: "map_def \<Rightarrow> ('k, 'v) map_update \<Rightarrow> bool" where
  "hash_map_spec d upd \<longleftrightarrow>
     (\<forall>k v m. finite (dom m) \<longrightarrow>
        (if k \<in> dom m \<or> (case max_entries d of None \<Rightarrow> True | Some n \<Rightarrow> card (dom m) < n)
         then upd k v m = Inr (m(k \<mapsto> v)) else isl (upd k v m)))"

definition array_map_spec :: "map_def \<Rightarrow> (u32, 'v) map_update \<Rightarrow> bool" where
  "array_map_spec d upd \<longleftrightarrow>
     (\<forall>k v m. if (case max_entries d of None \<Rightarrow> True | Some n \<Rightarrow> unat k < n)
        then upd k v m = Inr (m(k \<mapsto> v)) else isl (upd k v m))"

text \<open>The two loops are one loop over keys.\<close>

fun push_keys :: "('k, u8) map_update \<Rightarrow> 'k list \<Rightarrow> ('k \<rightharpoonup> u8) \<Rightarrow> ('k \<rightharpoonup> u8) \<times> error option" where
  "push_keys upd [] m = (m, None)"
| "push_keys upd (k # ks) m = (case upd k 1 m of Inl e \<Rightarrow> (m, Some e) | Inr m \<Rightarrow> push_keys upd ks m)"

lemma update_ports_keys:
  "update_ports upd ports maps =
     (let (m, e) = push_keys upd ports (target_ports maps) in (maps\<lparr>target_ports := m\<rparr>, e))"
  by (induction ports arbitrary: maps) (auto simp: Let_def split: sum.split prod.split)

definition exclude_keys :: "ip list \<Rightarrow> u32 list" where
  "exclude_keys ips = map exclude_key (List.map_filter To4 ips)"

lemma exclude_keys_Cons:
  "exclude_keys (ip # ips) = (case To4 ip of None \<Rightarrow> exclude_keys ips | Some ip4 \<Rightarrow> exclude_key ip4 # exclude_keys ips)"
  by (simp add: exclude_keys_def List.map_filter_def split: option.split)

lemma update_exclude_keys:
  "update_exclude upd ips maps =
     (let (m, e) = push_keys upd (exclude_keys ips) (exclude_ips maps) in (maps\<lparr>exclude_ips := m\<rparr>, e))"
proof (induction ips arbitrary: maps)
  case Nil
  then show ?case by (simp add: exclude_keys_def List.map_filter_def)
qed (auto simp: exclude_keys_Cons Let_def split: sum.split prod.split option.split)

text \<open>All keys get in exactly when they fit.\<close>

lemma push_keys_fits:
  assumes "hash_map_spec d upd" and "max_entries d = Some n" and "finite (dom m)" and "card (dom m) \<le> n"
  shows "snd (push_keys upd ks m) = None \<longleftrightarrow> card (dom m \<union> set ks) \<le> n"
  using assms(3,4)
proof (induction ks arbitrary: m)
  case (Cons k ks)
  show ?case
  proof (cases "k \<in> dom m \<or> card (dom m) < n")
    case True
    with assms(1,2) Cons.prems(1) have u: "upd k 1 m = Inr (m(k \<mapsto> 1))"
      unfolding hash_map_spec_def by (auto split: if_splits)
    have "card (dom (m(k \<mapsto> 1))) \<le> n" using True Cons.prems by (auto simp: card_insert_if insert_absorb)
    moreover have "finite (dom (m(k \<mapsto> 1)))" using Cons.prems(1) by simp
    ultimately have "snd (push_keys upd ks (m(k \<mapsto> 1))) = None \<longleftrightarrow> card (dom (m(k \<mapsto> 1)) \<union> set ks) \<le> n"
      by (intro Cons.IH)
    then show ?thesis by (simp add: u)
  next
    case False
    with assms(1,2) Cons.prems(1) have "isl (upd k 1 m)"
      unfolding hash_map_spec_def by (auto split: if_splits)
    then obtain e where "upd k 1 m = Inl e" by (auto simp: isl_def)
    moreover have "card (insert k (dom m)) \<le> card (dom m \<union> set (k # ks))"
      using Cons.prems(1) by (intro card_mono) auto
    then have "\<not> card (dom m \<union> set (k # ks)) \<le> n" using False Cons.prems by simp
    ultimately show ?thesis by simp
  qed
qed simp

lemma exclude_key_inj: "length x = 4 \<Longrightarrow> length y = 4 \<Longrightarrow> exclude_key x = exclude_key y \<Longrightarrow> x = y"
  by (metis exclude_key_eq_iff)

lemma card_exclude_keys: "card (set (exclude_keys ips)) = card {ip4. Some ip4 \<in> To4 ` set ips}"
proof -
  have s: "set (List.map_filter To4 ips) = {ip4. Some ip4 \<in> To4 ` set ips}"
    by (induction ips) (auto simp: List.map_filter_def split: option.split)
  have l: "length ip4 = 4" if "Some ip4 \<in> To4 ` set ips" for ip4
    using that To4_length by (metis (no_types, lifting) imageE)
  have "inj_on exclude_key {ip4. Some ip4 \<in> To4 ` set ips}"
    by (intro inj_onI exclude_key_inj) (auto intro: l)
  then show ?thesis by (simp add: exclude_keys_def s card_image)
qed

section \<open>Properties\<close>

text \<open>
  C29: What a configuration may hold: on freshly loaded maps, the pushes of \<open>Start\<close> succeed exactly
  when the configuration has at most 64 different target ports and at most 64 different
  IPv4 addresses to exclude; repeated entries and IPv6 addresses take no room, and any other
  configuration makes \<open>Start\<close> fail.
\<close>

theorem push_fits_maps:
  assumes "array_map_spec gecit_config_map upd_c" and "hash_map_spec target_ports_map upd_p"
    and "hash_map_spec exclude_ips_map upd_x" and "\<forall>name. has name"
    and "target_ports maps = Map.empty" and "exclude_ips maps = Map.empty"
  shows "snd (push_maps has upd_c upd_p upd_x cfg maps) = None \<longleftrightarrow>
    card (set (cfg_Ports cfg)) \<le> 64 \<and> card {ip4. Some ip4 \<in> To4 ` set (cfg_ExcludeIPs cfg)} \<le> 64"
proof -
  have "upd_c 0 (gecitConfig cfg 1) (gecit_config maps) = Inr ((gecit_config maps)(0 \<mapsto> gecitConfig cfg 1))"
    using assms(1) by (simp add: array_map_spec_def gecit_config_map_def split: if_splits)
  then have c: "pushConfig has upd_c cfg maps = (maps\<lparr>gecit_config := (gecit_config maps)(0 \<mapsto> gecitConfig cfg 1)\<rparr>, None)"
    using assms(4) by (simp add: pushConfig_def)
  have p: "snd (push_keys upd_p (cfg_Ports cfg) Map.empty) = None \<longleftrightarrow> card (set (cfg_Ports cfg)) \<le> 64"
    using push_keys_fits [OF assms(2), of 64 Map.empty "cfg_Ports cfg"] by (simp add: target_ports_map_def)
  have x: "snd (push_keys upd_x (exclude_keys (cfg_ExcludeIPs cfg)) Map.empty) = None \<longleftrightarrow>
      card {ip4. Some ip4 \<in> To4 ` set (cfg_ExcludeIPs cfg)} \<le> 64"
    using push_keys_fits [OF assms(3), of 64 Map.empty "exclude_keys (cfg_ExcludeIPs cfg)"]
    by (simp add: exclude_ips_map_def card_exclude_keys)
  obtain mp ep where mp: "push_keys upd_p (cfg_Ports cfg) Map.empty = (mp, ep)" by fastforce
  obtain mx ex where mx: "push_keys upd_x (exclude_keys (cfg_ExcludeIPs cfg)) Map.empty = (mx, ex)" by fastforce
  show ?thesis
    using p x assms(4,5,6)
    by (cases ep; cases ex)
      (simp_all add: push_maps_def c pushTargetPorts_def pushExcludeIPs_def update_ports_keys update_exclude_keys mp mx)
qed

text \<open>Maps as the kernel's, and a configuration with one port more than fits.\<close>

definition demo_hash :: "nat \<Rightarrow> ('k, 'v) map_update" where
  "demo_hash n k v m = (if k \<in> dom m \<or> card (dom m) < n then Inr (m(k \<mapsto> v)) else Inl (UpdateFailed ''E2BIG''))"

definition demo_array :: "(u32, 'v) map_update" where
  "demo_array k v m = (if unat k < 1 then Inr (m(k \<mapsto> v)) else Inl (UpdateFailed ''E2BIG''))"

lemma demo_map_specs:
  "array_map_spec gecit_config_map demo_array" "hash_map_spec target_ports_map (demo_hash 64)"
  "hash_map_spec exclude_ips_map (demo_hash 64)"
  by (simp_all add: array_map_spec_def demo_array_def gecit_config_map_def hash_map_spec_def demo_hash_def
      target_ports_map_def exclude_ips_map_def)

theorem push_fits_maps_witness:
  "snd (push_maps (\<lambda>_. True) demo_array (demo_hash 64) (demo_hash 64)
     (demo_cfg\<lparr>cfg_Ports := map of_nat [1..<66], cfg_ExcludeIPs := []\<rparr>) (demo_maps\<lparr>target_ports := Map.empty, exclude_ips := Map.empty\<rparr>)) \<noteq> None"
proof -
  have "inj_on (of_nat :: nat \<Rightarrow> u16) {1..<66}"
  proof (rule inj_onI)
    fix x y :: nat
    assume "x \<in> {1..<66}" "y \<in> {1..<66}" and e: "(of_nat x :: u16) = of_nat y"
    then have "x < 2 ^ 16" "y < 2 ^ 16" by auto
    with arg_cong [OF e, of unat] show "x = y" by (simp add: unat_of_nat)
  qed
  then have "card (set (map of_nat [1..<66] :: u16 list)) = 65" by (simp add: card_image)
  with push_fits_maps [OF demo_map_specs, of "\<lambda>_. True" "demo_maps\<lparr>target_ports := Map.empty, exclude_ips := Map.empty\<rparr>"
      "demo_cfg\<lparr>cfg_Ports := map of_nat [1..<66], cfg_ExcludeIPs := []\<rparr>"]
  show ?thesis by simp
qed

end
