(* ===== verification/Map_Decls.thy ===== *)
theory Map_Decls
  imports Bpf_Maps Vmlinux_Abi
begin

text \<open>
  The map declarations of \<open>src/pkg/ebpf/bpf/maps.h\<close> with the macros of
  \<open>src/include/bpf/bpf_helpers.h\<close> expanded.  A map is a variable of a struct type that is never
  read: its numbers are the lengths of arrays and its types the types of pointers, so that they
  survive in the type information of the object file.  \<open>Bpf_Maps\<close> has what the declarations
  say; here is that they say it.
\<close>

section \<open>The macros\<close>

definition uint_member :: "string \<Rightarrow> nat \<Rightarrow> string \<times> ctype" where
  "uint_member name val = (name, Ptr (Arr CInt val))"

definition type_member :: "string \<Rightarrow> ctype \<Rightarrow> string \<times> ctype" where
  "type_member name val = (name, Ptr val)"

text \<open>\<open>SEC\<close> puts a variable or function into a section of the object file and keeps it there.\<close>

record sec_object =
  obj_section :: string
  obj_name :: string
  obj_used :: bool

definition SEC :: "string \<Rightarrow> string \<Rightarrow> sec_object" where
  "SEC section name = \<lparr>obj_section = section, obj_name = name, obj_used = True\<rparr>"

section \<open>The declarations\<close>

definition map_type_number :: "string \<Rightarrow> nat" where
  "map_type_number name = (case map_of x86_bpf_map_type name of Some n \<Rightarrow> n | None \<Rightarrow> 0)"

definition gecit_config_decl :: "(string \<times> ctype) list" where
  "gecit_config_decl = [
    uint_member ''type'' (map_type_number ''BPF_MAP_TYPE_ARRAY''),
    uint_member ''max_entries'' 1,
    type_member ''key'' U32,
    type_member ''value'' gecit_config_ctype]"

definition target_ports_decl :: "(string \<times> ctype) list" where
  "target_ports_decl = [
    uint_member ''type'' (map_type_number ''BPF_MAP_TYPE_HASH''),
    uint_member ''max_entries'' 64,
    type_member ''key'' U16,
    type_member ''value'' U8]"

definition exclude_ips_decl :: "(string \<times> ctype) list" where
  "exclude_ips_decl = [
    uint_member ''type'' (map_type_number ''BPF_MAP_TYPE_HASH''),
    uint_member ''max_entries'' 64,
    type_member ''key'' U32,
    type_member ''value'' U8]"

definition conn_events_decl :: "(string \<times> ctype) list" where
  "conn_events_decl = [
    uint_member ''type'' (map_type_number ''BPF_MAP_TYPE_PERF_EVENT_ARRAY''),
    uint_member ''key_size'' (ctype_size U32),
    uint_member ''value_size'' (ctype_size U32)]"

definition connections_decl :: "(string \<times> ctype) list" where
  "connections_decl = [
    uint_member ''type'' (map_type_number ''BPF_MAP_TYPE_LRU_HASH''),
    uint_member ''max_entries'' 65536,
    type_member ''key'' U64,
    type_member ''value'' conn_state_ctype]"

definition map_objects :: "(sec_object \<times> (string \<times> ctype) list) list" where
  "map_objects = [
    (SEC ''.maps'' ''gecit_config'', gecit_config_decl),
    (SEC ''.maps'' ''target_ports'', target_ports_decl),
    (SEC ''.maps'' ''exclude_ips'', exclude_ips_decl),
    (SEC ''.maps'' ''conn_events'', conn_events_decl),
    (SEC ''.maps'' ''connections'', connections_decl)]"

definition program_objects :: "sec_object list" where
  "program_objects = [SEC ''sockops'' ''gecit_sockops'', SEC ''license'' ''LICENSE'']"

section \<open>What a declaration says\<close>

text \<open>A number is the length of the array a member points to, a type what it points to.\<close>

definition declared_uint :: "(string \<times> ctype) list \<Rightarrow> string \<Rightarrow> nat option" where
  "declared_uint decl name =
     (case map_of decl name of Some (Ptr (Arr CInt n)) \<Rightarrow> Some n | _ \<Rightarrow> None)"

definition declared_size :: "(string \<times> ctype) list \<Rightarrow> string \<Rightarrow> string \<Rightarrow> nat option" where
  "declared_size decl type_name size_name =
     (case map_of decl type_name of
        Some (Ptr t) \<Rightarrow> Some (ctype_size t)
      | _ \<Rightarrow> declared_uint decl size_name)"

definition declares :: "(string \<times> ctype) list \<Rightarrow> map_def \<Rightarrow> bool" where
  "declares decl m \<longleftrightarrow>
     declared_uint decl ''type'' = Some (map_type_number (map_type m)) \<and>
     declared_uint decl ''max_entries'' = max_entries m \<and>
     declared_size decl ''key'' ''key_size'' = Some (ctype_size (key_type m)) \<and>
     declared_size decl ''value'' ''value_size'' = Some (ctype_size (value_type m)) \<and>
     map_type_number (map_type m) \<noteq> 0"

lemmas decl_defs = gecit_config_decl_def target_ports_decl_def exclude_ips_decl_def conn_events_decl_def connections_decl_def
  gecit_config_map_def target_ports_map_def exclude_ips_map_def conn_events_map_def connections_map_def

lemma map_type_numbers [simp]:
  "map_type_number ''BPF_MAP_TYPE_ARRAY'' = 2" "map_type_number ''BPF_MAP_TYPE_HASH'' = 1"
  "map_type_number ''BPF_MAP_TYPE_PERF_EVENT_ARRAY'' = 4" "map_type_number ''BPF_MAP_TYPE_LRU_HASH'' = 9"
  by (simp_all add: map_type_number_def x86_bpf_map_type_def)

text \<open>
  Each declaration says of its map what the model has: the type by its number in the kernel's
  enumeration, the bound, and the sizes of keys and values; all of them are in the section
  where maps are looked for, under the names userspace uses.
\<close>

theorem declarations_faithful:
  "list_all2 (\<lambda>(obj, decl) (name, m). obj = SEC ''.maps'' name \<and> declares decl m) map_objects
    [(''gecit_config'', gecit_config_map), (''target_ports'', target_ports_map), (''exclude_ips'', exclude_ips_map),
     (''conn_events'', conn_events_map), (''connections'', connections_map)]"
  by (simp add: map_objects_def declares_def declared_uint_def declared_size_def uint_member_def type_member_def decl_defs)

end
