(* ===== verification/Name_Queue.thy ===== *)
theory Name_Queue
  imports Dns_Server Event_Runs
begin

text \<open>
  The queues of names under concurrency (\<open>src/pkg/dns/server.go\<close>): every query is a goroutine
  of the DNS library, every \<open>PopDomain\<close> comes from another goroutine, and the mutex \<open>mu\<close>
  guards the map.  \<open>Dns_Server\<close> gives each operation as one function; here its accesses to
  the map are single steps that interleave, and the functions are what the steps add up to.
  Then the two readers of the queues: \<open>injectFake\<close> of \<open>src/pkg/ebpf/manager.go\<close> and
  \<open>resolveDst\<close> of \<open>src/pkg/tun/handler.go\<close>.
\<close>

section \<open>States and steps\<close>

text \<open>
  Where a goroutine is.  A query: before its answer, before \<open>mu.Lock\<close> with the addresses and
  the name to record, in the loop over the addresses, and in it between the read of a queue
  and its store.  A \<open>PopDomain\<close>: before the lock, after it, after the read, before the deferred unlock.
\<close>

datatype nq_pc =
    InFlight dns_msg
  | PushWaiting "string list" string
  | Pushing "string list" string
  | PushRead string "string list" "string list" string
  | PopWaiting string
  | PopHolding string
  | PopRead string "string list"
  | PopReturning string string
  | ThreadDone

datatype nq_op = RecordNames "string list" string | PopName string

text \<open>
  The mutex's owner, the map, the goroutines, the replies written, the operations in the order
  in which they got the mutex, and what \<open>PopDomain\<close> has returned.
\<close>

record nq =
  mu :: "nat option"
  ipQueue :: ip_queue
  nq_pcs :: "nat \<rightharpoonup> nq_pc"
  replies :: "(nat \<times> reply) list"
  nq_history :: "(nat \<times> nq_op) list"
  nq_popped :: "(string \<times> string) list"

datatype nq_event =
    QueryArrives nat dns_msg | Answered nat | PopCalled nat string | LockMu nat | Access nat | UnlockMu nat

text \<open>What a query writes back and what it will record.\<close>

definition query_outcome :: "dns_env \<Rightarrow> dns_msg \<Rightarrow> reply \<times> (string list \<times> string) option" where
  "query_outcome env r =
     (case resolved env r of
        None \<Rightarrow> (SetRcode r RcodeServerFailure, None)
      | Some resp \<Rightarrow>
          (WriteMsg (resp\<lparr>Id := Id r\<rparr>),
           if length (Question r) > 0 \<and> length (Answer resp) > 0 then
             let q = Question r ! 0 in
             if snd q = TypeA \<or> snd q = TypeAAAA
             then Some (answer_ips (ip_str env) resp, TrimSuffix (fst q) ''.'')
             else None
           else None))"

definition goto_pc :: "nat \<Rightarrow> nq_pc \<Rightarrow> nq \<Rightarrow> nq" where
  "goto_pc t p s = s\<lparr>nq_pcs := (nq_pcs s)(t \<mapsto> p)\<rparr>"

definition acquire :: "nat \<Rightarrow> nq_op \<Rightarrow> nq_pc \<Rightarrow> nq \<Rightarrow> nq" where
  "acquire t o1 p s = goto_pc t p (s\<lparr>mu := Some t, nq_history := nq_history s @ [(t, o1)]\<rparr>)"

text \<open>The branches of \<open>PopDomain\<close> once it has read the queue \<open>q\<close> of \<open>ip\<close>.\<close>

definition pop_read :: "string \<Rightarrow> string list \<Rightarrow> ip_queue \<Rightarrow> string \<times> ip_queue" where
  "pop_read ip q m =
     (if length q = 0 then ('''', m)
      else if length q = 1 then (q ! 0, m(ip := None))
      else (q ! 0, m(ip \<mapsto> drop 1 q)))"

fun nq_access :: "nat \<Rightarrow> nq_pc \<Rightarrow> nq \<Rightarrow> nq option" where
  "nq_access t (Pushing (ip # ips) d) s = Some (goto_pc t (PushRead ip (queue_of (ipQueue s) ip) ips d) s)"
| "nq_access t (PushRead ip q ips d) s =
     Some (goto_pc t (Pushing ips d) (s\<lparr>ipQueue := (ipQueue s)(ip \<mapsto> q @ [d])\<rparr>))"
| "nq_access t (PopHolding ip) s = Some (goto_pc t (PopRead ip (queue_of (ipQueue s) ip)) s)"
| "nq_access t (PopRead ip q) s =
     (let (d, m) = pop_read ip q (ipQueue s) in Some (goto_pc t (PopReturning ip d) (s\<lparr>ipQueue := m\<rparr>)))"
| "nq_access t _ s = None"

fun nq_lock :: "nat \<Rightarrow> nq_pc \<Rightarrow> nq \<Rightarrow> nq option" where
  "nq_lock t (PushWaiting ips d) s = Some (acquire t (RecordNames ips d) (Pushing ips d) s)"
| "nq_lock t (PopWaiting ip) s = Some (acquire t (PopName ip) (PopHolding ip) s)"
| "nq_lock t _ s = None"

fun nq_unlock :: "nat \<Rightarrow> nq_pc \<Rightarrow> nq \<Rightarrow> nq option" where
  "nq_unlock t (Pushing [] d) s = Some (goto_pc t ThreadDone (s\<lparr>mu := None\<rparr>))"
| "nq_unlock t (PopReturning ip d) s =
     Some (goto_pc t ThreadDone (s\<lparr>mu := None, nq_popped := nq_popped s @ [(ip, d)]\<rparr>))"
| "nq_unlock t _ s = None"

fun nq_answer :: "dns_env \<Rightarrow> nat \<Rightarrow> nq_pc \<Rightarrow> nq \<Rightarrow> nq option" where
  "nq_answer env t (InFlight r) s =
     (let (rep, rec) = query_outcome env r in
      Some (goto_pc t (case rec of None \<Rightarrow> ThreadDone | Some (ips, d) \<Rightarrow> PushWaiting ips d)
        (s\<lparr>replies := replies s @ [(t, rep)]\<rparr>)))"
| "nq_answer env t _ s = None"

text \<open>\<open>Lock\<close> waits until the mutex is free; nothing else in the code asks for the mutex.\<close>

fun nq_step :: "dns_env \<Rightarrow> nq_event \<Rightarrow> nq \<Rightarrow> nq option" where
  "nq_step env (QueryArrives t r) s = (if nq_pcs s t = None then Some (goto_pc t (InFlight r) s) else None)"
| "nq_step env (PopCalled t ip) s = (if nq_pcs s t = None then Some (goto_pc t (PopWaiting ip) s) else None)"
| "nq_step env (Answered t) s = Option.bind (nq_pcs s t) (\<lambda>p. nq_answer env t p s)"
| "nq_step env (LockMu t) s = (if mu s = None then Option.bind (nq_pcs s t) (\<lambda>p. nq_lock t p s) else None)"
| "nq_step env (Access t) s = Option.bind (nq_pcs s t) (\<lambda>p. nq_access t p s)"
| "nq_step env (UnlockMu t) s = Option.bind (nq_pcs s t) (\<lambda>p. nq_unlock t p s)"

primrec nq_run :: "dns_env \<Rightarrow> nq_event list \<Rightarrow> nq \<Rightarrow> nq option" where
  "nq_run env [] s = Some s"
| "nq_run env (e # es) s = Option.bind (nq_step env e s) (nq_run env es)"

text \<open>\<open>NewServer\<close> makes an empty map.\<close>

definition fresh_nq :: nq where
  "fresh_nq = \<lparr>mu = None, ipQueue = Map.empty, nq_pcs = Map.empty, replies = [], nq_history = [], nq_popped = []\<rparr>"

section \<open>The sequential specification\<close>

text \<open>The operations one after the other, with the functions of \<open>Dns_Server\<close>.\<close>

fun seq_op :: "nq_op \<Rightarrow> (string \<times> string) list \<times> ip_queue \<Rightarrow> (string \<times> string) list \<times> ip_queue" where
  "seq_op (RecordNames ips d) (rs, m) = (rs, fold (\<lambda>ip. push_domain ip d) ips m)"
| "seq_op (PopName ip) (rs, m) = (let (d, m) = PopDomain ip m in (rs @ [(ip, d)], m))"

definition seq_ops :: "nq_op list \<Rightarrow> (string \<times> string) list \<times> ip_queue" where
  "seq_ops ops = fold seq_op ops ([], Map.empty)"

lemma seq_ops_snoc: "seq_ops (ops @ [o1]) = seq_op o1 (seq_ops ops)"
  by (simp add: seq_ops_def)

lemma query_outcome_handleQuery:
  "handleQuery env r s =
     (fst (query_outcome env r),
      case snd (query_outcome env r) of None \<Rightarrow> s | Some (ips, d) \<Rightarrow> fold (\<lambda>ip. push_domain ip d) ips s)"
  by (auto simp: handleQuery_resolved query_outcome_def Let_def hd_conv_nth answer_ips_def split: option.split)

lemma pop_read_queue: "pop_read ip (queue_of m ip) m = PopDomain ip m"
  by (simp add: pop_read_def PopDomain_def Let_def)

text \<open>What the holder of the mutex has still to do.\<close>

fun completing :: "nq_pc \<Rightarrow> (string \<times> string) list \<times> ip_queue \<Rightarrow> (string \<times> string) list \<times> ip_queue" where
  "completing (Pushing ips d) (rs, m) = (rs, fold (\<lambda>ip. push_domain ip d) ips m)"
| "completing (PushRead ip q ips d) (rs, m) = (rs, fold (\<lambda>ip. push_domain ip d) ips (m(ip \<mapsto> q @ [d])))"
| "completing (PopHolding ip) (rs, m) = (let (d, m) = PopDomain ip m in (rs @ [(ip, d)], m))"
| "completing (PopRead ip q) (rs, m) = (let (d, m) = pop_read ip q m in (rs @ [(ip, d)], m))"
| "completing (PopReturning ip d) (rs, m) = (rs @ [(ip, d)], m)"
| "completing _ (rs, m) = (rs, m)"

fun in_section :: "nq_pc \<Rightarrow> bool" where
  "in_section (Pushing _ _) = True"
| "in_section (PushRead _ _ _ _) = True"
| "in_section (PopHolding _) = True"
| "in_section (PopRead _ _) = True"
| "in_section (PopReturning _ _) = True"
| "in_section _ = False"

fun before_section :: "nq_pc \<Rightarrow> bool" where
  "before_section (InFlight _) = True"
| "before_section (PushWaiting _ _) = True"
| "before_section (PopWaiting _) = True"
| "before_section _ = False"

section \<open>Invariants\<close>

lemma nq_sel [simp]:
  "mu (goto_pc t p s) = mu s" "ipQueue (goto_pc t p s) = ipQueue s" "nq_pcs (goto_pc t p s) = (nq_pcs s)(t \<mapsto> p)"
  "replies (goto_pc t p s) = replies s" "nq_history (goto_pc t p s) = nq_history s" "nq_popped (goto_pc t p s) = nq_popped s"
  "mu (acquire t o1 p s) = Some t" "ipQueue (acquire t o1 p s) = ipQueue s" "nq_pcs (acquire t o1 p s) = (nq_pcs s)(t \<mapsto> p)"
  "replies (acquire t o1 p s) = replies s" "nq_history (acquire t o1 p s) = nq_history s @ [(t, o1)]"
  "nq_popped (acquire t o1 p s) = nq_popped s"
  by (simp_all add: goto_pc_def acquire_def)

text \<open>Mutual exclusion: the goroutine in its critical section is the owner of the mutex.\<close>

definition mutex_inv :: "nq \<Rightarrow> bool" where
  "mutex_inv s \<longleftrightarrow> (\<forall>t. (case nq_pcs s t of None \<Rightarrow> False | Some p \<Rightarrow> in_section p) \<longleftrightarrow> mu s = Some t)"

lemma mutex_owner: "mutex_inv s \<Longrightarrow> nq_pcs s t = Some p \<Longrightarrow> in_section p \<longleftrightarrow> mu s = Some t"
  by (auto simp: mutex_inv_def split: option.splits)

lemma mutex_fresh: "mutex_inv s \<Longrightarrow> nq_pcs s t = None \<Longrightarrow> mu s \<noteq> Some t"
  unfolding mutex_inv_def by (drule spec [of _ t]) simp

lemma mutex_goto:
  assumes "mutex_inv s" and "in_section p \<longleftrightarrow> mu s' = Some t"
    and "nq_pcs s' = (nq_pcs s)(t \<mapsto> p)" and "\<forall>u. u \<noteq> t \<longrightarrow> (mu s' = Some u \<longleftrightarrow> mu s = Some u)"
  shows "mutex_inv s'"
  using assms by (simp add: mutex_inv_def)

lemma nq_step_mutex:
  assumes "nq_step env e s = Some s'" and "mutex_inv s"
  shows "mutex_inv s'"
proof (cases e)
  case (QueryArrives t r)
  with assms(1) have "nq_pcs s t = None" by (auto split: if_splits)
  with assms(1) QueryArrives mutex_fresh [OF assms(2)] show ?thesis
    by (auto intro!: mutex_goto [OF assms(2)])
next
  case (PopCalled t ip)
  with assms(1) have "nq_pcs s t = None" by (auto split: if_splits)
  with assms(1) PopCalled mutex_fresh [OF assms(2)] show ?thesis
    by (auto intro!: mutex_goto [OF assms(2)])
next
  case (Answered t)
  with assms(1) obtain p where p: "nq_pcs s t = Some p" "nq_answer env t p s = Some s'"
    by (auto simp: bind_eq_Some_conv)
  from p(2) mutex_owner [OF assms(2) p(1)] show ?thesis
    by (cases p) (auto intro!: mutex_goto [OF assms(2)] split: prod.splits option.splits)
next
  case (LockMu t)
  with assms(1) obtain p where p: "nq_pcs s t = Some p" "nq_lock t p s = Some s'" "mu s = None"
    by (auto simp: bind_eq_Some_conv split: if_splits)
  from p(2,3) show ?thesis
    by (cases p) (auto intro!: mutex_goto [OF assms(2)])
next
  case (Access t)
  with assms(1) obtain p where p: "nq_pcs s t = Some p" "nq_access t p s = Some s'"
    by (auto simp: bind_eq_Some_conv)
  from p(2) mutex_owner [OF assms(2) p(1)] show ?thesis
    by (cases "(t, p, s)" rule: nq_access.cases) (auto intro!: mutex_goto [OF assms(2)] split: prod.splits)
next
  case (UnlockMu t)
  with assms(1) obtain p where p: "nq_pcs s t = Some p" "nq_unlock t p s = Some s'"
    by (auto simp: bind_eq_Some_conv)
  from p(2) mutex_owner [OF assms(2) p(1)] show ?thesis
    by (cases "(t, p, s)" rule: nq_unlock.cases) (auto intro!: mutex_goto [OF assms(2)])
qed

text \<open>The order of the mutex is the order of the effects.\<close>

definition lin_inv :: "nq \<Rightarrow> bool" where
  "lin_inv s \<longleftrightarrow> seq_ops (map snd (nq_history s)) =
     (case mu s of None \<Rightarrow> (nq_popped s, ipQueue s) | Some t \<Rightarrow> completing (the (nq_pcs s t)) (nq_popped s, ipQueue s))"

lemma completing_outside: "\<not> in_section p \<Longrightarrow> completing p x = x"
  by (cases p; cases x) simp_all

lemma nq_step_lin:
  assumes "nq_step env e s = Some s'" and "lin_inv s" and "mutex_inv s"
  shows "lin_inv s'"
proof (cases e)
  case (QueryArrives t r)
  with assms(1) have "nq_pcs s t = None" by (auto split: if_splits)
  with mutex_fresh [OF assms(3) this] assms(1,2) QueryArrives show ?thesis
    by (auto simp: lin_inv_def split: option.splits)
next
  case (PopCalled t ip)
  with assms(1) have "nq_pcs s t = None" by (auto split: if_splits)
  with mutex_fresh [OF assms(3) this] assms(1,2) PopCalled show ?thesis
    by (auto simp: lin_inv_def split: option.splits)
next
  case (Answered t)
  with assms(1) obtain p where p: "nq_pcs s t = Some p" "nq_answer env t p s = Some s'"
    by (auto simp: bind_eq_Some_conv)
  from p(2) mutex_owner [OF assms(3) p(1)] assms(2) show ?thesis
    by (cases p) (auto simp: lin_inv_def split: prod.splits option.splits)
next
  case (LockMu t)
  with assms(1) obtain p where p: "nq_pcs s t = Some p" "nq_lock t p s = Some s'" "mu s = None"
    by (auto simp: bind_eq_Some_conv split: if_splits)
  from p(2,3) assms(2) show ?thesis
    by (cases p) (auto simp: lin_inv_def seq_ops_snoc)
next
  case (Access t)
  with assms(1) obtain p where p: "nq_pcs s t = Some p" "nq_access t p s = Some s'"
    by (auto simp: bind_eq_Some_conv)
  from p(2) p(1) mutex_owner [OF assms(3) p(1)] assms(2) show ?thesis
    by (cases "(t, p, s)" rule: nq_access.cases)
      (auto simp: lin_inv_def pop_read_queue push_domain_def split: prod.splits)
next
  case (UnlockMu t)
  with assms(1) obtain p where p: "nq_pcs s t = Some p" "nq_unlock t p s = Some s'"
    by (auto simp: bind_eq_Some_conv)
  from p(2) p(1) mutex_owner [OF assms(3) p(1)] assms(2) show ?thesis
    by (cases "(t, p, s)" rule: nq_unlock.cases) (auto simp: lin_inv_def)
qed

text \<open>Each goroutine gets the mutex at most once, and for its own operation.\<close>

definition once_inv :: "nq \<Rightarrow> bool" where
  "once_inv s \<longleftrightarrow> distinct (map fst (nq_history s)) \<and>
     (\<forall>t. (case nq_pcs s t of None \<Rightarrow> True | Some p \<Rightarrow> before_section p) \<longrightarrow> t \<notin> fst ` set (nq_history s))"

fun pending_op :: "dns_env \<Rightarrow> nq_pc \<Rightarrow> nq_op option" where
  "pending_op env (InFlight r) = map_option (\<lambda>(ips, d). RecordNames ips d) (snd (query_outcome env r))"
| "pending_op env (PushWaiting ips d) = Some (RecordNames ips d)"
| "pending_op env (PopWaiting ip) = Some (PopName ip)"
| "pending_op env _ = None"

fun called_op :: "dns_env \<Rightarrow> nq_event \<Rightarrow> (nat \<times> nq_op) option" where
  "called_op env (QueryArrives t r) = map_option (\<lambda>(ips, d). (t, RecordNames ips d)) (snd (query_outcome env r))"
| "called_op env (PopCalled t ip) = Some (t, PopName ip)"
| "called_op env _ = None"

definition all_ops :: "dns_env \<Rightarrow> nq \<Rightarrow> (nat \<times> nq_op) set" where
  "all_ops env s = set (nq_history s) \<union> {(t, o1). \<exists>p. nq_pcs s t = Some p \<and> pending_op env p = Some o1}"

lemma all_ops_goto:
  assumes "nq_pcs s' = (nq_pcs s)(t \<mapsto> p)" and "set (nq_history s') = set (nq_history s) \<union> H"
    and "\<forall>q. nq_pcs s t = Some q \<longrightarrow> set_option (pending_op env q) \<subseteq> set_option (pending_op env p) \<union> {o1. (t, o1) \<in> H}"
    and "H \<union> Pair t ` set_option (pending_op env p) =
      N \<union> Pair t ` (case nq_pcs s t of None \<Rightarrow> {} | Some q \<Rightarrow> set_option (pending_op env q))"
  shows "all_ops env s' = all_ops env s \<union> N"
proof -
  have "{(u, o1). \<exists>p. nq_pcs x u = Some p \<and> pending_op env p = Some o1} =
      {(u, o1). u \<noteq> t \<and> (\<exists>p. nq_pcs x u = Some p \<and> pending_op env p = Some o1)} \<union>
      Pair t ` (case nq_pcs x t of None \<Rightarrow> {} | Some q \<Rightarrow> set_option (pending_op env q))" for x
    by (auto split: option.splits)
  note S = this
  have "{(u, o1). u \<noteq> t \<and> (\<exists>p. nq_pcs s' u = Some p \<and> pending_op env p = Some o1)} =
      {(u, o1). u \<noteq> t \<and> (\<exists>p. nq_pcs s u = Some p \<and> pending_op env p = Some o1)}"
    by (auto simp: assms(1))
  with assms(1,2,4) show ?thesis
    unfolding all_ops_def S [of s] S [of s'] by (simp add: assms(1)) blast
qed

lemma nq_step_ops:
  assumes "nq_step env e s = Some s'"
  shows "all_ops env s' = all_ops env s \<union> set_option (called_op env e)"
proof (cases e)
  case (QueryArrives t r)
  with assms show ?thesis
    by (intro all_ops_goto [where t = t and p = "InFlight r" and H = "{}"])
      (auto split: if_splits simp: option.set_map)
next
  case (PopCalled t ip)
  with assms show ?thesis
    by (intro all_ops_goto [where t = t and p = "PopWaiting ip" and H = "{}"]) (auto split: if_splits)
next
  case (Answered t)
  with assms obtain r where p: "nq_pcs s t = Some (InFlight r)" "nq_answer env t (InFlight r) s = Some s'"
    by (auto simp: bind_eq_Some_conv elim: nq_answer.elims)
  from p(2) Answered show ?thesis
    by (intro all_ops_goto [where t = t and p = "the (nq_pcs s' t)" and H = "{}"])
      (auto simp: p(1) split: prod.splits option.splits)
next
  case (LockMu t)
  with assms obtain p where p: "nq_pcs s t = Some p" "nq_lock t p s = Some s'"
    by (auto simp: bind_eq_Some_conv split: if_splits)
  from p(2) LockMu show ?thesis
    by (intro all_ops_goto [where t = t and p = "the (nq_pcs s' t)" and H = "Pair t ` set_option (pending_op env p)"];
      cases p) (auto simp: p(1))
next
  case (Access t)
  with assms obtain p where p: "nq_pcs s t = Some p" "nq_access t p s = Some s'"
    by (auto simp: bind_eq_Some_conv)
  from p(2) Access show ?thesis
    by (intro all_ops_goto [where t = t and p = "the (nq_pcs s' t)" and H = "{}"];
      cases "(t, p, s)" rule: nq_access.cases) (auto simp: p(1) split: prod.splits)
next
  case (UnlockMu t)
  with assms obtain p where p: "nq_pcs s t = Some p" "nq_unlock t p s = Some s'"
    by (auto simp: bind_eq_Some_conv)
  from p(2) UnlockMu show ?thesis
    by (intro all_ops_goto [where t = t and p = "the (nq_pcs s' t)" and H = "{}"];
      cases "(t, p, s)" rule: nq_unlock.cases) (auto simp: p(1))
qed

lemma once_before: "once_inv s \<Longrightarrow> nq_pcs s t = Some p \<Longrightarrow> before_section p \<Longrightarrow> t \<notin> fst ` set (nq_history s)"
  "once_inv s \<Longrightarrow> nq_pcs s t = None \<Longrightarrow> t \<notin> fst ` set (nq_history s)"
  by (auto simp: once_inv_def dest!: spec [of _ t])

lemma once_goto:
  assumes "once_inv s" and "nq_pcs s' = (nq_pcs s)(t \<mapsto> p)" and "nq_history s' = nq_history s"
    and "before_section p \<longrightarrow> t \<notin> fst ` set (nq_history s)"
  shows "once_inv s'"
  using assms by (simp add: once_inv_def)

lemma nq_step_once:
  assumes "nq_step env e s = Some s'" and "once_inv s"
  shows "once_inv s'"
proof (cases e)
  case (QueryArrives t r)
  with assms once_before(2) [OF assms(2), of t] show ?thesis
    by (auto intro!: once_goto [OF assms(2)] split: if_splits)
next
  case (PopCalled t ip)
  with assms once_before(2) [OF assms(2), of t] show ?thesis
    by (auto intro!: once_goto [OF assms(2)] split: if_splits)
next
  case (LockMu t)
  with assms obtain p where p: "nq_pcs s t = Some p" "nq_lock t p s = Some s'"
    by (auto simp: bind_eq_Some_conv split: if_splits)
  from p(2) have "before_section p" by (cases p) auto
  note t = once_before(1) [OF assms(2) p(1) this]
  from p(2) obtain o1 q where "s' = acquire t o1 q s" "\<not> before_section q" by (cases p) auto
  with t assms(2) show ?thesis by (simp add: once_inv_def)
next
  case (Access t)
  with assms obtain p where p: "nq_pcs s t = Some p" "nq_access t p s = Some s'"
    by (auto simp: bind_eq_Some_conv)
  from p(2) show ?thesis
    by (cases "(t, p, s)" rule: nq_access.cases) (auto intro!: once_goto [OF assms(2)] split: prod.splits)
next
  case (UnlockMu t)
  with assms obtain p where p: "nq_pcs s t = Some p" "nq_unlock t p s = Some s'"
    by (auto simp: bind_eq_Some_conv)
  from p(2) show ?thesis
    by (cases "(t, p, s)" rule: nq_unlock.cases) (auto intro!: once_goto [OF assms(2)])
next
  case (Answered t)
  with assms obtain p where p: "nq_pcs s t = Some p" "nq_answer env t p s = Some s'"
    by (auto simp: bind_eq_Some_conv)
  from p(2) have "before_section p" by (cases p) auto
  from p(2) once_before(1) [OF assms(2) p(1) this] show ?thesis
    by (cases p) (auto intro!: once_goto [OF assms(2)] split: prod.splits)
qed

interpretation nq_runs: event_runs "nq_step env" "nq_run env" for env
  by unfold_locales simp_all

lemma nq_run_inv:
  "nq_run env es s = Some s' \<Longrightarrow> mutex_inv s \<Longrightarrow> lin_inv s \<Longrightarrow> once_inv s \<Longrightarrow>
   mutex_inv s' \<and> lin_inv s' \<and> once_inv s' \<and> all_ops env s' = all_ops env s \<union> set (List.map_filter (called_op env) es)"
proof (induction es arbitrary: s)
  case (Cons e es)
  from Cons.prems(1) obtain s1 where s1: "nq_step env e s = Some s1" "nq_run env es s1 = Some s'"
    by (rule nq_runs.run_first)
  from Cons.IH [OF s1(2) nq_step_mutex [OF s1(1) Cons.prems(2)] nq_step_lin [OF s1(1) Cons.prems(3,2)]
      nq_step_once [OF s1(1) Cons.prems(4)]]
  show ?case by (auto simp: nq_step_ops [OF s1(1)] List.map_filter_def)
qed (simp add: List.map_filter_def)

lemma fresh_nq_inv: "mutex_inv fresh_nq" "lin_inv fresh_nq" "once_inv fresh_nq" "all_ops env fresh_nq = {}"
  by (simp_all add: mutex_inv_def lin_inv_def once_inv_def all_ops_def fresh_nq_def seq_ops_def)

lemma queue_of_empty [simp]: "queue_of Map.empty ip = []"
  by (simp add: queue_of_def)

text \<open>No name is lost in the sequential specification.\<close>

definition popped_names :: "string \<Rightarrow> (string \<times> string) list \<Rightarrow> string list" where
  "popped_names ip rs = filter (\<lambda>d. d \<noteq> []) (map snd (filter (\<lambda>(i, _). i = ip) rs))"

fun recorded_by :: "string \<Rightarrow> nq_op \<Rightarrow> string list" where
  "recorded_by ip (RecordNames ips d) = replicate (count_list ips ip) d"
| "recorded_by ip (PopName _) = []"

definition recorded_names :: "string \<Rightarrow> nq_op list \<Rightarrow> string list" where
  "recorded_names ip ops = filter (\<lambda>d. d \<noteq> []) (concat (map (recorded_by ip) ops))"

lemma seq_ops_conserve:
  "seq_ops ops = (rs, m) \<Longrightarrow>
   popped_names ip rs @ filter (\<lambda>d. d \<noteq> []) (queue_of m ip) = recorded_names ip ops"
proof (induction ops arbitrary: rs m rule: rev_induct)
  case Nil
  then have "rs = []" "m = Map.empty" by (simp_all add: seq_ops_def)
  then show ?case by (simp add: popped_names_def recorded_names_def)
next
  case (snoc o1 ops)
  obtain rs1 m1 where s: "seq_ops ops = (rs1, m1)" by fastforce
  note IH = snoc.IH [OF this]
  show ?case
  proof (cases o1)
    case (RecordNames ips d)
    with snoc.prems s have e: "rs = rs1" "m = fold (\<lambda>ip. push_domain ip d) ips m1" by (simp_all add: seq_ops_snoc)
    have "recorded_names ip (ops @ [o1]) = recorded_names ip ops @ filter (\<lambda>d. d \<noteq> []) (replicate (count_list ips ip) d)"
      by (simp add: recorded_names_def RecordNames)
    then show ?thesis by (simp add: e names.view_pushes flip: IH)
  next
    case (PopName i)
    obtain d m2 where p: "PopDomain i m1 = (d, m2)" by fastforce
    with snoc.prems s PopName have e: "rs = rs1 @ [(i, d)]" "m = m2" by (simp_all add: seq_ops_snoc)
    have d: "d = (case queue_of m1 i of [] \<Rightarrow> [] | v # _ \<Rightarrow> v)" using names.pop_result [of i m1] p by simp
    have q: "queue_of m2 j = (if j = i then tl (queue_of m1 i) else queue_of m1 j)" for j
      using names.view_pop [of i m1 j] p by simp
    have r: "recorded_names ip (ops @ [o1]) = recorded_names ip ops" by (simp add: recorded_names_def PopName)
    from IH have "popped_names ip rs1 @ filter (\<lambda>d. d \<noteq> []) (queue_of m1 ip) = recorded_names ip (ops @ [o1])"
      by (simp only: r)
    then show ?thesis
      by (cases "ip = i"; cases "queue_of m1 i") (auto simp: e q d popped_names_def)
  qed
qed

text \<open>How many accesses the holder of the mutex has left before it unlocks.\<close>

fun accesses_left :: "nq_pc \<Rightarrow> nat" where
  "accesses_left (Pushing ips d) = 2 * length ips"
| "accesses_left (PushRead ip q ips d) = 2 * length ips + 1"
| "accesses_left (PopHolding ip) = 2"
| "accesses_left (PopRead ip q) = 1"
| "accesses_left _ = 0"

fun own_step :: "nat \<Rightarrow> nq_event \<Rightarrow> bool" where
  "own_step t (Access u) = (u = t)"
| "own_step t (UnlockMu u) = (u = t)"
| "own_step t _ = False"

definition own_left :: "nat \<Rightarrow> nq \<Rightarrow> nat" where
  "own_left t s = (case nq_pcs s t of None \<Rightarrow> 0 | Some p \<Rightarrow> accesses_left p + (if in_section p then 1 else 0))"

lemma own_left_step:
  assumes "nq_step env e s = Some s'" and "nq_pcs s t = Some p" and "\<not> before_section p"
  shows "own_left t s' + (if own_step t e then 1 else 0) = own_left t s \<and> (\<exists>p'. nq_pcs s' t = Some p' \<and> \<not> before_section p')"
proof (cases "own_step t e")
  case False
  have "nq_pcs s' t = Some p"
    using assms False by (cases e; auto simp: bind_eq_Some_conv split: if_splits prod.splits
        elim!: nq_answer.elims nq_lock.elims nq_access.elims nq_unlock.elims)
  with False assms(2,3) show ?thesis by (simp add: own_left_def)
next
  case True
  then consider "e = Access t" | "e = UnlockMu t" by (cases e) auto
  then show ?thesis
  proof cases
    case 1
    with assms(1,2) have a: "nq_access t p s = Some s'" by simp
    from a True assms(2) show ?thesis
      by (cases "(t, p, s)" rule: nq_access.cases) (auto simp: own_left_def split: prod.splits)
  next
    case 2
    with assms(1,2) have a: "nq_unlock t p s = Some s'" by simp
    from a True assms(2) show ?thesis
      by (cases "(t, p, s)" rule: nq_unlock.cases) (auto simp: own_left_def)
  qed
qed

lemma own_left_run:
  "nq_run env es s = Some s' \<Longrightarrow> nq_pcs s t = Some p \<Longrightarrow> \<not> before_section p \<Longrightarrow>
   own_left t s' + length (filter (own_step t) es) = own_left t s"
proof (induction es arbitrary: s p)
  case (Cons e es)
  from Cons.prems(1) obtain s1 where s1: "nq_step env e s = Some s1" "nq_run env es s1 = Some s'"
    by (rule nq_runs.run_first)
  from own_left_step [OF s1(1) Cons.prems(2,3)] obtain p' where
    "own_left t s1 + (if own_step t e then 1 else 0) = own_left t s" "nq_pcs s1 t = Some p'" "\<not> before_section p'" by blast
  with Cons.IH [OF s1(2)] show ?case by (auto split: if_splits)
qed simp

lemma owner_can_step:
  assumes "nq_pcs s t = Some p" and "in_section p"
  shows "\<exists>e s'. own_step t e \<and> nq_step env e s = Some s'"
proof (cases "nq_access t p s")
  case None
  with assms(2) have "nq_unlock t p s \<noteq> None"
    by (cases "(t, p, s)" rule: nq_access.cases) (auto split: prod.splits)
  with assms(1) show ?thesis by (intro exI [of _ "UnlockMu t"]) auto
next
  case (Some s')
  with assms(1) show ?thesis by (intro exI [of _ "Access t"]) auto
qed

section \<open>Properties\<close>

text \<open>
  C20: The name queues are linearizable: however the queries' goroutines and the callers of
  \<open>PopDomain\<close> interleave, whenever the mutex is free, what the calls have returned and what
  the map holds is what the operations do one after the other, in the order in which they got
  the mutex.  Each caller is in that order at most once, with its own operation, and once all
  have finished, all are.  So for every address the names handed out, followed by those still
  queued, are the names recorded for it, in order: none is lost, none is handed out twice.
\<close>

theorem name_queue_linearizable:
  assumes "nq_run env es fresh_nq = Some s" and "mu s = None"
  shows "seq_ops (map snd (nq_history s)) = (nq_popped s, ipQueue s) \<and>
    distinct (map fst (nq_history s)) \<and>
    set (nq_history s) \<subseteq> set (List.map_filter (called_op env) es) \<and>
    ((\<forall>t. nq_pcs s t \<in> {None, Some ThreadDone}) \<longrightarrow> set (nq_history s) = set (List.map_filter (called_op env) es)) \<and>
    popped_names ip (nq_popped s) @ filter (\<lambda>d. d \<noteq> []) (queue_of (ipQueue s) ip) =
      recorded_names ip (map snd (nq_history s))"
proof -
  from nq_run_inv [OF assms(1) fresh_nq_inv(1-3)] fresh_nq_inv(4) have
    i: "lin_inv s" "once_inv s" "all_ops env s = set (List.map_filter (called_op env) es)" by auto
  from i(1) assms(2) have l: "seq_ops (map snd (nq_history s)) = (nq_popped s, ipQueue s)"
    by (simp add: lin_inv_def)
  have "set (nq_history s) = all_ops env s" if "\<forall>t. nq_pcs s t \<in> {None, Some ThreadDone}"
  proof -
    have "pending_op env q = None" if "nq_pcs s t = Some q" for t q
      using \<open>\<forall>t. nq_pcs s t \<in> {None, Some ThreadDone}\<close> [rule_format, of t] that by auto
    then show ?thesis by (auto simp: all_ops_def)
  qed
  with i l seq_ops_conserve [OF l, of ip] show ?thesis
    by (auto simp: once_inv_def all_ops_def)
qed

text \<open>Two names at one address, recorded while a third goroutine asks for a name.\<close>

definition nq_env :: dns_env where
  "nq_env = \<lparr>pack = (\<lambda>_. Some []),
     unpack = (\<lambda>_. Some \<lparr>Id = 0, Question = [], Answer = [A [1, 2, 3, 4]]\<rparr>),
     resolver = (\<lambda>_. Inr \<lparr>Data = [], Via = []\<rparr>), ip_str = (\<lambda>_. ''1.2.3.4'')\<rparr>"

lemma nq_env_outcome:
  "query_outcome nq_env (demo_query n) =
     (WriteMsg \<lparr>Id = 7, Question = [], Answer = [A [1, 2, 3, 4]]\<rparr>, Some ([''1.2.3.4''], TrimSuffix n ''.''))"
  by (simp add: query_outcome_def resolved_def nq_env_def demo_query_def answer_ips_def)

lemma demo_trims: "TrimSuffix ''a.example.'' ''.'' = ''a.example''" "TrimSuffix ''b.example.'' ''.'' = ''b.example''"
  by (simp_all add: TrimSuffix_def suffix_to_prefix)

definition demo_recording :: "nq_event list" where
  "demo_recording = [QueryArrives 1 (demo_query ''a.example.''), QueryArrives 2 (demo_query ''b.example.''),
     Answered 1, Answered 2, LockMu 2, PopCalled 3 ''1.2.3.4'', Access 2, Access 2, UnlockMu 2,
     LockMu 3, Access 3, Access 3, UnlockMu 3]"

lemma demo_recording_run:
  "\<exists>s. nq_run nq_env demo_recording fresh_nq = Some s \<and> mu s = None \<and>
     nq_popped s = [(''1.2.3.4'', ''b.example'')] \<and>
     map snd (nq_history s) = [RecordNames [''1.2.3.4''] ''b.example'', PopName ''1.2.3.4'']"
  by (simp add: demo_recording_def fresh_nq_def nq_env_outcome demo_trims goto_pc_def acquire_def pop_read_def)

theorem name_queue_linearizable_witness:
  "\<exists>s. nq_run nq_env demo_recording fresh_nq = Some s \<and>
     seq_ops [RecordNames [''1.2.3.4''] ''b.example'', PopName ''1.2.3.4''] = ([(''1.2.3.4'', ''b.example'')], ipQueue s)"
proof -
  obtain s where s: "nq_run nq_env demo_recording fresh_nq = Some s" "mu s = None"
    "nq_popped s = [(''1.2.3.4'', ''b.example'')]"
    "map snd (nq_history s) = [RecordNames [''1.2.3.4''] ''b.example'', PopName ''1.2.3.4'']"
    using demo_recording_run by (elim exE conjE)
  from name_queue_linearizable [OF s(1,2), of "[]"]
  have "seq_ops (map snd (nq_history s)) = (nq_popped s, ipQueue s)" by (rule conjunct1)
  then show ?thesis using s(1) unfolding s(3,4) by (rule_tac x = s in exI) (rule conjI)
qed

text \<open>
  The mutex is always given back: from the moment a goroutine holds it, it takes at most
  two accesses to the map per address of its answer, or two for a \<open>PopDomain\<close>, and the unlock,
  whatever the others do; until then it can always take the next of these steps, and
  afterwards it is out of its critical section.
\<close>

theorem queue_mutex_released:
  assumes "nq_pcs s t = Some p" and "in_section p" and "nq_run env es s = Some s'"
  shows "length (filter (own_step t) es) \<le> accesses_left p + 1 \<and>
    (length (filter (own_step t) es) = accesses_left p + 1 \<longrightarrow> own_left t s' = 0) \<and>
    (own_left t s' > 0 \<longrightarrow> (\<exists>e s''. own_step t e \<and> nq_step env e s' = Some s''))"
proof -
  have "own_left t s = accesses_left p + 1" using assms(1,2) by (simp add: own_left_def)
  moreover have "\<not> before_section p" using assms(2) by (cases p) auto
  note own_left_run [OF assms(3,1) this]
  moreover have "\<exists>e s''. own_step t e \<and> nq_step env e s' = Some s''" if l: "own_left t s' > 0"
  proof -
    from l obtain p' where p': "nq_pcs s' t = Some p'" "accesses_left p' + (if in_section p' then 1 else 0) > 0"
      by (auto simp: own_left_def split: option.splits)
    then have "in_section p'" by (cases p') auto
    from owner_can_step [OF p'(1) this] show ?thesis .
  qed
  ultimately show ?thesis by auto
qed

definition demo_holder :: nq where
  "demo_holder = fresh_nq\<lparr>mu := Some 3, nq_pcs := [3 \<mapsto> PopHolding ''1.2.3.4'']\<rparr>"

theorem queue_mutex_released_witness:
  "\<exists>s'. nq_run nq_env [Access 3, Access 3, UnlockMu 3] demo_holder = Some s' \<and> own_left 3 s' = 0"
proof -
  have "nq_run nq_env [Access 3, Access 3, UnlockMu 3] demo_holder \<noteq> None"
    by (simp add: demo_holder_def fresh_nq_def pop_read_def)
  then obtain s' where s: "nq_run nq_env [Access 3, Access 3, UnlockMu 3] demo_holder = Some s'" by auto
  have "nq_pcs demo_holder 3 = Some (PopHolding ''1.2.3.4'')" by (simp add: demo_holder_def)
  from queue_mutex_released [OF this _ s] s show ?thesis by simp
qed

text \<open>
  The answer is written before its names are recorded: a client that connects as soon as it
  has its answer can ask for the name before it is there.  The connection then has no name,
  and its name is handed to the next connection to the address.
\<close>

theorem name_lags_behind_answer:
  "\<exists>s. nq_run nq_env
     [QueryArrives 1 (demo_query ''a.example.''), Answered 1,
      PopCalled 2 ''1.2.3.4'', LockMu 2, Access 2, Access 2, UnlockMu 2, LockMu 1, Access 1, Access 1, UnlockMu 1,
      QueryArrives 3 (demo_query ''b.example.''), Answered 3, LockMu 3, Access 3, Access 3, UnlockMu 3,
      PopCalled 4 ''1.2.3.4'', LockMu 4, Access 4, Access 4, UnlockMu 4] fresh_nq = Some s \<and>
     nq_popped s = [(''1.2.3.4'', ''''), (''1.2.3.4'', ''a.example'')] \<and>
     queue_of (ipQueue s) ''1.2.3.4'' = [''b.example'']"
  by (simp add: fresh_nq_def nq_env_outcome demo_trims goto_pc_def acquire_def pop_read_def)

end
