(* ===== verification/Name_Labels.thy ===== *)
theory Name_Labels
  imports Name_Queue Ebpf_Lifecycle Go_Ip
begin

text \<open>
  The readers of the name queues: \<open>injectFake\<close> of \<open>src/pkg/ebpf/manager.go\<close>, whole, with the
  label of its log line, and \<open>resolveDst\<close> of \<open>src/pkg/tun/handler.go\<close>.  The key under which a
  name was recorded and the one under which it is asked for are both printed addresses; the
  main theorem follows one from the DNS answer to the label of the connection.
\<close>

section \<open>Labels\<close>

text \<open>\<open>fmt.Sprintf("%s:%d", host, port)\<close>.\<close>

definition sprintf_host_port :: "string \<Rightarrow> u16 \<Rightarrow> string" where
  "sprintf_host_port host port = host @ '':'' @ print_nat (unat port)"

text \<open>
  \<open>String\<close> of an address: dotted decimal for both forms of an IPv4 address; \<open>str6\<close> prints the others.
\<close>

definition IP_String :: "(ip \<Rightarrow> string) \<Rightarrow> ip \<Rightarrow> string" where
  "IP_String str6 p = (case To4 p of Some q \<Rightarrow> print_ipv4 q | None \<Rightarrow> str6 p)"

text \<open>
  The server is nil when DNS-over-HTTPS is off.  A name is popped only once the fake has been
  sent; \<open>send_ok\<close> is the outcome of the raw socket.  The result: what was sent, the label (none
  when the send failed and a warning was logged), and the queues afterwards.
\<close>

definition pop_label :: "string \<Rightarrow> u16 \<Rightarrow> string \<Rightarrow> ip_queue option \<Rightarrow> string \<times> ip_queue option" where
  "pop_label key port dflt dns =
     (case dns of
        None \<Rightarrow> (dflt, None)
      | Some m \<Rightarrow>
          let (domain, m) = PopDomain key m in
          (if domain \<noteq> '''' then sprintf_host_port domain port else dflt, Some m))"

definition injectFake_full ::
    "(ip \<Rightarrow> string) \<Rightarrow> config \<Rightarrow> connEvent \<Rightarrow> bool \<Rightarrow> ip_queue option \<Rightarrow> transmission \<times> string option \<times> ip_queue option" where
  "injectFake_full str6 cfg evt send_ok dns =
     (let conn = conn_of_event evt;
          sent = SendFake_linux conn TLSClientHello (cfg_FakeTTL cfg)
      in if \<not> send_ok then (sent, None, dns)
         else
           let dst = sprintf_host_port (IP_String str6 (DstIP conn)) (DstPort conn);
               (dst, dns) = pop_label (IP_String str6 (DstIP conn)) (DstPort conn) dst dns
           in (sent, Some dst, dns))"

definition resolveDst :: "string \<Rightarrow> string \<Rightarrow> u16 \<Rightarrow> ip_queue option \<Rightarrow> string \<times> ip_queue option" where
  "resolveDst addr ip port dns = pop_label ip port addr dns"

section \<open>Facts\<close>

lemma injectFake_full_sends: "fst (injectFake_full str6 cfg evt send_ok dns) = injectFake cfg evt"
  by (simp add: injectFake_full_def injectFake_def Let_def split: prod.split)

lemma pop_label_head:
  assumes "queue_of m key = d # ds" and "d \<noteq> []"
  shows "\<exists>m'. pop_label key port dflt (Some m) = (sprintf_host_port d port, Some m') \<and>
    queue_of m' key = ds \<and> (\<forall>k. k \<noteq> key \<longrightarrow> queue_of m' k = queue_of m k)"
proof -
  obtain d' m' where p: "PopDomain key m = (d', m')" by fastforce
  with names.pop_result [of key m] assms(1) have "d' = d" by simp
  moreover have "queue_of m' k = (if k = key then ds else queue_of m k)" for k
    using names.view_pop [of key m k] p assms(1) by simp
  ultimately show ?thesis using assms(2) p by (simp add: pop_label_def)
qed

lemma pop_label_empty:
  assumes "queue_of m key = []"
  shows "pop_label key port dflt (Some m) = (dflt, Some m)"
  using assms by (simp add: pop_label_def PopDomain_def)

lemma IP_String_4 [simp]: "length q = 4 \<Longrightarrow> IP_String str6 q = print_ipv4 q"
  by (simp add: IP_String_def)

lemma names_for_A:
  assumes "resolved env r = Some resp" and "ip_str env = IP_String str6"
    and "Question r = (qname, TypeA) # qs" and "A a \<in> set (Answer resp)" and "To4 a = Some q"
  shows "\<exists>n. names_for env (print_ipv4 q) r = replicate (Suc n) (TrimSuffix qname ''.'')"
proof -
  have "print_ipv4 q \<in> set (answer_ips (ip_str env) resp)"
    using assms(2,4,5) by (force simp: answer_ips_def IP_String_def)
  then have "count_list (answer_ips (ip_str env) resp) (print_ipv4 q) \<noteq> 0" by (simp add: count_list_0_iff)
  then obtain n where "count_list (answer_ips (ip_str env) resp) (print_ipv4 q) = Suc n" by (cases "count_list (answer_ips (ip_str env) resp) (print_ipv4 q)") auto
  then show ?thesis using assms(1,3) by (intro exI [of _ n]) (simp add: names_for_def)
qed

section \<open>Properties\<close>

text \<open>
  C39: The name a client asked for labels its connection: after the server has answered a
  query with an address (in either of its two forms) for which no name was waiting, the first
  connection event to that address makes \<open>injectFake\<close> send the same fake as ever, label it
  with the queried name and the port, and consume one of the names recorded for the address
  and none of any other.  When the send fails, no name is consumed.
\<close>

theorem answered_name_labels_connection:
  assumes "resolved env r = Some resp" and "ip_str env = IP_String str6"
    and "Question r = (qname, TypeA) # qs" and "A a \<in> set (Answer resp)" and "To4 a = Some q"
    and "uint32ToIP (ev_DstIP evt) = q" and "queue_of m (print_ipv4 q) = []" and "TrimSuffix qname ''.'' \<noteq> []"
  shows "\<exists>m'. injectFake_full str6 cfg evt True (Some (snd (handleQuery env r m))) =
      (injectFake cfg evt, Some (sprintf_host_port (TrimSuffix qname ''.'') (ev_DstPort evt)), Some m') \<and>
    queue_of m' (print_ipv4 q) = tl (names_for env (print_ipv4 q) r) \<and>
    (\<forall>k. k \<noteq> print_ipv4 q \<longrightarrow> queue_of m' k = queue_of (snd (handleQuery env r m)) k) \<and>
    injectFake_full str6 cfg evt False (Some m') = (injectFake cfg evt, None, Some m')"
proof -
  let ?m = "snd (handleQuery env r m)"
  have k: "IP_String str6 (DstIP (conn_of_event evt)) = print_ipv4 q"
    using assms(6) To4_length [OF assms(5)] by (simp add: conn_of_event_def)
  obtain n where n: "names_for env (print_ipv4 q) r = replicate (Suc n) (TrimSuffix qname ''.'')"
    using names_for_A [OF assms(1-5)] by blast
  have "queue_of ?m (print_ipv4 q) = TrimSuffix qname ''.'' # replicate n (TrimSuffix qname ''.'')"
    by (simp add: queue_of_handleQuery assms(7) n)
  from pop_label_head [OF this assms(8), of "ev_DstPort evt" "sprintf_host_port (print_ipv4 q) (ev_DstPort evt)"]
  obtain m' where m': "pop_label (print_ipv4 q) (ev_DstPort evt) (sprintf_host_port (print_ipv4 q) (ev_DstPort evt)) (Some ?m) =
      (sprintf_host_port (TrimSuffix qname ''.'') (ev_DstPort evt), Some m')"
    "queue_of m' (print_ipv4 q) = replicate n (TrimSuffix qname ''.'')"
    "\<forall>k. k \<noteq> print_ipv4 q \<longrightarrow> queue_of m' k = queue_of ?m k" by blast
  have p: "DstPort (conn_of_event evt) = ev_DstPort evt" by (simp add: conn_of_event_def)
  show ?thesis using m'
    by (intro exI [of _ m']) (simp add: injectFake_full_def injectFake_def Let_def k p n)
qed

text \<open>An answer in the 16-byte form, and the event of a connection to the address.\<close>

definition label_env :: dns_env where
  "label_env = \<lparr>pack = (\<lambda>_. Some []),
     unpack = (\<lambda>_. Some \<lparr>Id = 0, Question = [], Answer = [A (v4_in_v6_prefix @ [93, 184, 216, 34])]\<rparr>),
     resolver = (\<lambda>_. Inr \<lparr>Data = [], Via = []\<rparr>), ip_str = IP_String (\<lambda>_. ''::'')\<rparr>"

definition label_event :: connEvent where
  "label_event = \<lparr>ev_SrcIP = 0x0100000A, ev_DstIP = 0x22D8B85D, ev_SrcPort = 51234, ev_DstPort = 443, ev_Seq = 1, ev_Ack = 2\<rparr>"

theorem answered_name_labels_connection_witness:
  "\<exists>m'. injectFake_full (\<lambda>_. ''::'') demo_cfg label_event True (Some (snd (handleQuery label_env (demo_query ''example.com.'') Map.empty))) =
     (injectFake demo_cfg label_event, Some ''example.com:443'', Some m') \<and> queue_of m' (print_ipv4 [93, 184, 216, 34]) = []"
proof -
  have t: "TrimSuffix ''example.com.'' ''.'' = ''example.com''" by (simp add: TrimSuffix_def suffix_to_prefix)
  have h: "sprintf_host_port ''example.com'' 443 = ''example.com:443''" by code_simp
  have res: "resolved label_env (demo_query ''example.com.'') =
      Some \<lparr>Id = 0, Question = [], Answer = [A (v4_in_v6_prefix @ [93, 184, 216, 34])]\<rparr>"
    by (simp add: resolved_def label_env_def)
  have n: "names_for label_env (print_ipv4 [93, 184, 216, 34]) (demo_query ''example.com.'') = [''example.com'']"
    unfolding names_for_def res by (simp add: demo_query_def t answer_ips_def label_env_def IP_String_def To4_def v4_in_v6_prefix_def)
  have u: "uint32ToIP (ev_DstIP label_event) = [93, 184, 216, 34]" by (simp add: uint32ToIP_def label_event_def le32_def be32_def)
  have e: "ip_str label_env = IP_String (\<lambda>_. ''::'')" by (simp add: label_env_def)
  have q: "Question (demo_query ''example.com.'') = [(''example.com.'', TypeA)]" by (simp add: demo_query_def)
  have a: "A (v4_in_v6_prefix @ [93, 184, 216, 34]) \<in>
      set (Answer \<lparr>Id = 0, Question = [], Answer = [A (v4_in_v6_prefix @ [93, 184, 216, 34])]\<rparr>)" by simp
  have t4: "To4 (v4_in_v6_prefix @ [93, 184, 216, 34]) = Some [93, 184, 216, 34]" by (simp add: To4_def v4_in_v6_prefix_def)
  have ne: "TrimSuffix ''example.com.'' ''.'' \<noteq> []" by (simp add: t)
  have p: "ev_DstPort label_event = 443" by (simp add: label_event_def)
  from answered_name_labels_connection [OF res e q a t4 u queue_of_empty ne, of demo_cfg] obtain m' where
    "injectFake_full (\<lambda>_. ''::'') demo_cfg label_event True (Some (snd (handleQuery label_env (demo_query ''example.com.'') Map.empty))) =
       (injectFake demo_cfg label_event, Some (sprintf_host_port (TrimSuffix ''example.com.'' ''.'') (ev_DstPort label_event)), Some m')"
    "queue_of m' (print_ipv4 [93, 184, 216, 34]) = tl (names_for label_env (print_ipv4 [93, 184, 216, 34]) (demo_query ''example.com.''))"
    by (elim exE conjE)
  then show ?thesis unfolding t p h n by (intro exI [of _ m'] conjI) simp_all
qed

end
