(* ===== verification/Helper_Args.thy ===== *)
theory Helper_Args
  imports Dns_Server Go_Ip
begin

text \<open>
  What crosses from the macOS app into a process of root: the command line the app builds
  (\<open>apps/macos/.../Core/RuntimeCommandBuilder.swift\<close>) and the reading of a command by the
  helper, a shell script the app renders (\<open>Core/Installer/HelperDaemonScriptBuilder.swift\<close>:
  \<open>handle_command\<close>, \<open>sanitize_start_args\<close>).  Characters and character ranges are those of the
  C locale, in which launchd runs the script.
\<close>

section \<open>Words of the shell\<close>

text \<open>\<open>read -r -a\<close> with the default \<open>IFS\<close>: the words between blanks, tabs and newlines.\<close>

fun split_on :: "(char \<Rightarrow> bool) \<Rightarrow> string \<Rightarrow> string list" where
  "split_on p [] = [[]]"
| "split_on p (c # cs) =
     (if p c then [] # split_on p cs
      else case split_on p cs of [] \<Rightarrow> [[c]] | w # ws \<Rightarrow> (c # w) # ws)"

definition tab :: char where "tab = CHR 0x09"
definition carriage_return :: char where "carriage_return = CHR 0x0D"

definition ifs_space :: "char \<Rightarrow> bool" where
  "ifs_space c \<longleftrightarrow> c = CHR '' '' \<or> c = tab \<or> c = newline"

definition read_words :: "string \<Rightarrow> string list" where
  "read_words s = filter (\<lambda>w. w \<noteq> []) (split_on ifs_space s)"

text \<open>\<open>${token#prefix}\<close> where the \<open>case\<close> pattern \<open>prefix*\<close> matches.\<close>

definition after :: "string \<Rightarrow> string \<Rightarrow> string option" where
  "after pre tok = (if prefix pre tok then Some (drop (length pre) tok) else None)"

definition shell_digit :: "char \<Rightarrow> bool" where
  "shell_digit c \<longleftrightarrow> digit_value c \<noteq> None"

definition is_name_char :: "char \<Rightarrow> bool" where
  "is_name_char c \<longleftrightarrow> shell_digit c \<or> (let n = of_char c :: nat in 97 \<le> n \<and> n \<le> 122)"

text \<open>
  \<open>[ "$v" -gt n ]\<close> as the condition of an \<open>if\<close>: \<open>[\<close> reads a 64-bit integer, and where it cannot
  (no digits, or a number out of range) it reports an error, which counts as false.
\<close>

definition max_int64 :: nat where
  "max_int64 = 9223372036854775807"

definition test_gt :: "string \<Rightarrow> nat \<Rightarrow> bool" where
  "test_gt v n = (case decimal 0 v of None \<Rightarrow> False | Some k \<Rightarrow> v \<noteq> [] \<and> k \<le> max_int64 \<and> k > n)"

section \<open>The helper\<close>

definition ttl_ok :: "string \<Rightarrow> bool" where
  "ttl_ok v \<longleftrightarrow> \<not> (v = [] \<or> prefix ''0'' v \<or> list_ex (\<lambda>c. \<not> shell_digit c) v) \<and> \<not> test_gt v 255"

definition upstream_ok :: "string \<Rightarrow> bool" where
  "upstream_ok v \<longleftrightarrow> v \<in> {''cloudflare'', ''google'', ''quad9'', ''nextdns'', ''adguard''}"

definition iface_ok :: "string \<Rightarrow> bool" where
  "iface_ok v \<longleftrightarrow> \<not> (v = [] \<or> list_ex (\<lambda>c. \<not> is_name_char c) v) \<and> \<not> length v > 16"

definition port_ok :: "string \<Rightarrow> bool" where
  "port_ok port \<longleftrightarrow> \<not> prefix ''0'' port \<and> \<not> (length port > 5 \<or> test_gt port 65535)"

definition ports_ok :: "string \<Rightarrow> bool" where
  "ports_ok v \<longleftrightarrow>
     \<not> (v = [] \<or> list_ex (\<lambda>c. \<not> (shell_digit c \<or> c = CHR '','')) v) \<and>
     \<not> (prefix '','' v \<or> suffix '','' v \<or> sublist '',,'' v) \<and>
     list_all port_ok (Split CHR '','' v)"

text \<open>One turn of the loop over the tokens: the branches of the \<open>case\<close> in order.\<close>

definition safe_token :: "string \<Rightarrow> bool" where
  "safe_token tok =
     (case after ''--fake-ttl='' tok of Some v \<Rightarrow> ttl_ok v | None \<Rightarrow>
     (case after ''--doh='' tok of Some v \<Rightarrow> v = ''true'' \<or> v = ''false'' | None \<Rightarrow>
     (case after ''--doh-upstream='' tok of Some v \<Rightarrow> upstream_ok v | None \<Rightarrow>
     (case after ''--interface='' tok of Some v \<Rightarrow> iface_ok v | None \<Rightarrow>
     (case after ''--ports='' tok of Some v \<Rightarrow> ports_ok v | None \<Rightarrow> False)))))"

fun sanitize_loop :: "string list \<Rightarrow> string list \<Rightarrow> string list option" where
  "sanitize_loop safe [] = Some safe"
| "sanitize_loop safe (tok # toks) = (if safe_token tok then sanitize_loop (safe @ [tok]) toks else None)"

definition sanitize_start_args :: "string list \<Rightarrow> string list option" where
  "sanitize_start_args toks = sanitize_loop [] toks"

text \<open>
  What a command makes the helper do.  \<open>${parts[0]}\<close> of an empty array is an unbound variable,
  which ends a script under \<open>set -u\<close>.
\<close>

datatype helper_cmd = StartEngine "string list" | RejectStart | StopEngine | ReportStatus | InvalidCommand | HelperDies

definition command_text :: "string \<Rightarrow> string" where
  "command_text file = filter (\<lambda>c. c \<noteq> newline) (filter (\<lambda>c. c \<noteq> carriage_return) file)"

definition handle_command :: "string \<Rightarrow> helper_cmd" where
  "handle_command text =
     (case read_words text of
        [] \<Rightarrow> HelperDies
      | command # args \<Rightarrow>
          if command = ''start'' then
            (case sanitize_start_args args of
               None \<Rightarrow> RejectStart
             | Some safe \<Rightarrow> StartEngine ([''run'', ''-v''] @ safe))
          else if command = ''stop'' then StopEngine
          else if command = ''cleanup'' then StopEngine
          else if command = ''status'' then ReportStatus
          else InvalidCommand)"

section \<open>The app\<close>

record settings_store =
  fakeTTL :: int
  doHEnabled :: bool
  doHUpstream :: string
  set_interface :: string
  set_ports :: string

definition buildStartCommand :: "settings_store \<Rightarrow> string" where
  "buildStartCommand s =
     (let ttl = max 1 (fakeTTL s);
          doh = (if doHEnabled s then ''true'' else ''false'');
          upstr = TrimSpace (doHUpstream s);
          iface = TrimSpace (set_interface s);
          ports = TrimSpace (set_ports s);
          parts = [''start'', ''--fake-ttl='' @ print_nat (nat ttl), ''--doh='' @ doh];
          parts = (if upstr \<noteq> [] then parts @ [''--doh-upstream='' @ upstr] else parts);
          parts = (if iface \<noteq> [] then parts @ [''--interface='' @ iface] else parts);
          parts = (if ports \<noteq> [] then parts @ [''--ports='' @ ports] else parts)
      in Join parts '' '')"

text \<open>\<open>GecitControlService.send\<close> refuses other commands and writes the rest with a newline.\<close>

definition send_file :: "string \<Rightarrow> string option" where
  "send_file command =
     (if list_ex (\<lambda>p. prefix p command) [''start'', ''stop'', ''cleanup'', ''status'']
      then Some (command @ [newline]) else None)"

definition default_settings :: settings_store where
  "default_settings = \<lparr>fakeTTL = 8, doHEnabled = True, doHUpstream = ''cloudflare'', set_interface = '''', set_ports = ''443''\<rparr>"

section \<open>Facts\<close>

lemma after_append: "after pre (pre @ v) = Some v"
  by (simp add: after_def)

lemma after_SomeD: "after pre tok = Some v \<Longrightarrow> tok = pre @ v"
  by (auto simp: after_def prefix_def split: if_splits)

lemma sanitize_loop_all: "sanitize_loop safe toks = (if list_all safe_token toks then Some (safe @ toks) else None)"
  by (induction toks arbitrary: safe) auto

lemma split_on_not_Nil [simp]: "split_on p s \<noteq> []"
  by (induction s) (auto split: list.splits)

lemma split_on_token: "\<forall>c \<in> set s. \<not> p c \<Longrightarrow> split_on p s = [s]"
  by (induction s) auto

lemma split_on_append: "p c \<Longrightarrow> split_on p (s @ c # t) = split_on p s @ split_on p t"
  by (induction s) (auto split: list.splits)

definition shell_word :: "string \<Rightarrow> bool" where
  "shell_word w \<longleftrightarrow> w \<noteq> [] \<and> (\<forall>c \<in> set w. \<not> ifs_space c \<and> c \<noteq> carriage_return)"

lemma read_words_Join: "\<forall>w \<in> set ws. shell_word w \<Longrightarrow> read_words (Join ws '' '') = ws"
proof (induction ws "'' ''" rule: Join.induct)
  case 1
  then show ?case by (simp add: read_words_def)
next
  case (2 s)
  then show ?case by (simp add: read_words_def shell_word_def split_on_token)
next
  case (3 s t ts)
  then have "split_on ifs_space (s @ '' '' @ Join (t # ts) '' '') = [s] @ split_on ifs_space (Join (t # ts) '' '')"
    by (simp add: split_on_append split_on_token shell_word_def ifs_space_def)
  with 3 show ?case by (simp add: read_words_def shell_word_def)
qed

lemma set_Join_subset: "set (Join ws sep) \<subseteq> \<Union> (set ` set ws) \<union> set sep"
  by (induction ws sep rule: Join.induct) auto

lemma command_text_Join:
  assumes "\<forall>w \<in> set ws. shell_word w"
  shows "command_text (Join ws '' '' @ [newline]) = Join ws '' ''"
proof -
  have ne: "CHR '' '' \<noteq> newline" "CHR '' '' \<noteq> carriage_return" "newline \<noteq> carriage_return"
    by (simp_all add: newline_def carriage_return_def)
  have "c \<noteq> newline \<and> c \<noteq> carriage_return" if "c \<in> set (Join ws '' '')" for c
  proof -
    from that set_Join_subset [of ws "'' ''"] consider w where "w \<in> set ws" "c \<in> set w" | "c = CHR '' ''" by auto
    then show ?thesis
    proof cases
      case 1
      with assms have "shell_word w" by blast
      with 1(2) show ?thesis by (simp add: shell_word_def ifs_space_def)
    qed (simp add: ne)
  qed
  then have "filter (\<lambda>c. c \<noteq> carriage_return) (Join ws '' '') = Join ws '' ''"
    "filter (\<lambda>c. c \<noteq> newline) (Join ws '' '') = Join ws '' ''"
    by (simp_all add: filter_id_conv)
  with ne(3) show ?thesis by (simp add: command_text_def)
qed

text \<open>Fields between commas are not empty when no two separators meet and none is at an end.\<close>

lemma sublist_Cons: "sublist xs ys \<Longrightarrow> sublist xs (y # ys)"
  by (simp add: sublist_Cons_right)

lemma Split_tl_nonempty:
  "[] \<in> set (tl (Split sep v)) \<Longrightarrow> v \<noteq> [] \<and> (last v = sep \<or> sublist [sep, sep] v)"
proof (induction v)
  case (Cons c cs)
  obtain w ws where w: "Split sep cs = w # ws" by (cases "Split sep cs") auto
  show ?case
  proof (cases "c = sep")
    case True
    with Cons.prems w have "w = [] \<or> [] \<in> set ws" by auto
    then show ?thesis
    proof
      assume e: "w = []"
      show ?thesis
      proof (cases cs)
        case Nil
        with True show ?thesis by simp
      next
        case (Cons d ds)
        with w e have "d = sep" by (auto split: if_splits list.splits)
        with Cons True show ?thesis by (simp add: sublist_Cons_right)
      qed
    next
      assume "[] \<in> set ws"
      with Cons.IH w have "cs \<noteq> []" "last cs = sep \<or> sublist [sep, sep] cs" by auto
      then show ?thesis by (auto intro: sublist_Cons)
    qed
  next
    case False
    with Cons.prems w have "[] \<in> set ws" by simp
    with Cons.IH w have "cs \<noteq> []" "last cs = sep \<or> sublist [sep, sep] cs" by auto
    then show ?thesis by (auto intro: sublist_Cons)
  qed
qed simp

lemma Split_nonempty:
  assumes "v \<noteq> []" "hd v \<noteq> sep" "last v \<noteq> sep" "\<not> sublist [sep, sep] v"
  shows "[] \<notin> set (Split sep v)"
proof -
  obtain c cs where v: "v = c # cs" using assms(1) by (cases v) auto
  then have "hd (Split sep v) \<noteq> []" using assms(2) by (auto split: list.splits)
  moreover have "[] \<notin> set (tl (Split sep v))" using Split_tl_nonempty assms by blast
  ultimately show ?thesis by (metis list.set_cases list.sel(1,3) Split_not_Nil)
qed

lemma Split_chars: "p \<in> set (Split sep v) \<Longrightarrow> set p \<subseteq> set v"
  by (induction v arbitrary: p) (fastforce split: list.splits if_splits)+

lemma Join_Split: "Join (Split sep v) [sep] = v"
proof (induction v)
  case (Cons c cs)
  obtain w ws where w: "Split sep cs = w # ws" by (cases "Split sep cs") auto
  with Cons show ?case by (cases ws) auto
qed simp

lemma Split_app: "Split sep (s @ sep # t) = Split sep s @ Split sep t"
  by (induction s) (auto split: list.splits)

lemma Split_nonempty_iff:
  "[] \<notin> set (Split sep v) \<longleftrightarrow> v \<noteq> [] \<and> \<not> prefix [sep] v \<and> \<not> suffix [sep] v \<and> \<not> sublist [sep, sep] v"
proof
  assume n: "[] \<notin> set (Split sep v)"
  have "v \<noteq> []" using n by auto
  moreover have "\<not> prefix [sep] v"
  proof
    assume "prefix [sep] v"
    then obtain t where "v = [] @ sep # t" by (auto elim: prefixE)
    with n Split_app [of sep "[]" t] show False by simp
  qed
  moreover have "\<not> suffix [sep] v"
  proof
    assume "suffix [sep] v"
    then obtain s where "v = s @ sep # []" by (auto elim: suffixE)
    with n Split_app [of sep s "[]"] show False by simp
  qed
  moreover have "\<not> sublist [sep, sep] v"
  proof
    assume "sublist [sep, sep] v"
    then obtain s t where "v = s @ sep # ([] @ sep # t)" by (auto simp: sublist_def)
    with n show False by (simp only: Split_app) simp
  qed
  ultimately show "v \<noteq> [] \<and> \<not> prefix [sep] v \<and> \<not> suffix [sep] v \<and> \<not> sublist [sep, sep] v" by blast
next
  assume a: "v \<noteq> [] \<and> \<not> prefix [sep] v \<and> \<not> suffix [sep] v \<and> \<not> sublist [sep, sep] v"
  then have "hd v \<noteq> sep" by (cases v) auto
  moreover have "last v \<noteq> sep" using a by (metis append_butlast_last_id suffixI)
  ultimately show "[] \<notin> set (Split sep v)" using a Split_nonempty by blast
qed

lemma Split_Join: "\<forall>s \<in> set ss. sep \<notin> set s \<Longrightarrow> ss \<noteq> [] \<Longrightarrow> Split sep (Join ss [sep]) = ss"
  by (induction ss "[sep]" rule: Join.induct) (simp_all add: Split_append Split_single)

section \<open>Numbers\<close>

lemma decimal_bound: "decimal 0 s = Some n \<Longrightarrow> n < 10 ^ length s"
proof (induction s arbitrary: n rule: rev_induct)
  case (snoc c s)
  then obtain v d where v: "decimal 0 s = Some v" "digit_value c = Some d" "n = 10 * v + d"
    by (auto simp: decimal_snoc split: option.splits)
  with snoc.IH [OF v(1)] digit_value_some [OF v(2)] show ?case by simp
qed simp

lemma length_print_nat: "n < 10 ^ Suc k \<Longrightarrow> length (print_nat n) \<le> Suc k"
proof (induction k arbitrary: n)
  case (Suc k)
  show ?case
  proof (cases "n < 10")
    case False
    from Suc.prems have "n div 10 < 10 ^ Suc k" by auto
    from Suc.IH [OF this] show ?thesis by (subst print_nat.simps) simp
  qed (simp add: print_nat.simps)
qed (simp add: print_nat.simps)

lemma not_zero_prefix: "v \<noteq> [] \<Longrightarrow> \<not> prefix ''0'' v \<longleftrightarrow> hd v \<noteq> CHR ''0''"
  by (cases v) auto

lemma print_nat_number:
  assumes "n > 0"
  shows "print_nat n \<noteq> []" "\<not> prefix ''0'' (print_nat n)" "\<forall>c \<in> set (print_nat n). shell_digit c"
  using print_nat_shape [of n] assms by (simp_all add: not_zero_prefix shell_digit_def)

lemma number_of_digits:
  assumes "v \<noteq> []" "\<not> prefix ''0'' v" "\<forall>c \<in> set v. shell_digit c"
  obtains n where "n > 0" "decimal 0 v = Some n" "v = print_nat n"
  using print_nat_digits [of v] assms by (auto simp: not_zero_prefix shell_digit_def)

lemma ttl_ok_iff: "ttl_ok v \<longleftrightarrow> (\<exists>n. 1 \<le> n \<and> (n \<le> 255 \<or> max_int64 < n) \<and> v = print_nat n)"
proof
  assume "ttl_ok v"
  then have v: "v \<noteq> []" "\<not> prefix ''0'' v" "\<forall>c \<in> set v. shell_digit c" "\<not> test_gt v 255"
    by (auto simp: ttl_ok_def list_ex_iff)
  from v(1-3) obtain n where n: "n > 0" "decimal 0 v = Some n" "v = print_nat n" by (rule number_of_digits)
  with v(1,4) have "n \<le> 255 \<or> max_int64 < n" by (auto simp: test_gt_def)
  with n show "\<exists>n. 1 \<le> n \<and> (n \<le> 255 \<or> max_int64 < n) \<and> v = print_nat n" by (intro exI [of _ n]) simp
next
  assume "\<exists>n. 1 \<le> n \<and> (n \<le> 255 \<or> max_int64 < n) \<and> v = print_nat n"
  then obtain n where n: "1 \<le> n" "n \<le> 255 \<or> max_int64 < n" "v = print_nat n" by blast
  with print_nat_number [of n] show "ttl_ok v"
    by (auto simp: ttl_ok_def test_gt_def decimal_print_nat list_ex_iff)
qed

lemma port_ok_iff:
  assumes "p \<noteq> []" "\<forall>c \<in> set p. shell_digit c"
  shows "port_ok p \<longleftrightarrow> (\<exists>n. 1 \<le> n \<and> n \<le> 65535 \<and> p = print_nat n)"
proof
  assume a: "port_ok p"
  then have p: "\<not> prefix ''0'' p" "length p \<le> 5" "\<not> test_gt p 65535" by (auto simp: port_ok_def)
  from assms(1) p(1) assms(2) obtain n where n: "n > 0" "decimal 0 p = Some n" "p = print_nat n"
    by (rule number_of_digits)
  have "n < 10 ^ 5"
    using decimal_bound [OF n(2)] p(2) power_increasing [of "length p" 5 "10 :: nat"] by linarith
  with p(3) n(2) assms(1) have "n \<le> 65535" by (auto simp: test_gt_def max_int64_def)
  with n show "\<exists>n. 1 \<le> n \<and> n \<le> 65535 \<and> p = print_nat n" by (intro exI [of _ n]) simp
next
  assume "\<exists>n. 1 \<le> n \<and> n \<le> 65535 \<and> p = print_nat n"
  then obtain n where n: "1 \<le> n" "n \<le> 65535" "p = print_nat n" by blast
  have "length p \<le> 5" using length_print_nat [of n 4] n(2,3) by simp
  with n print_nat_number(2) [of n] show "port_ok p" by (simp add: port_ok_def test_gt_def decimal_print_nat)
qed

lemma port_ok_print: "1 \<le> n \<Longrightarrow> n \<le> 65535 \<Longrightarrow> port_ok (print_nat n)"
  using port_ok_iff [of "print_nat n"] print_nat_shape(1,2) by (auto simp: shell_digit_def)

lemma ports_ok_iff:
  "ports_ok v \<longleftrightarrow> (\<exists>ps. ps \<noteq> [] \<and> (\<forall>p \<in> set ps. 1 \<le> p \<and> p \<le> 65535) \<and> v = Join (map print_nat ps) '','')"
proof
  assume a: "ports_ok v"
  let ?fs = "Split CHR '','' v"
  have ch: "\<forall>c \<in> set v. shell_digit c \<or> c = CHR '',''" using a by (auto simp: ports_ok_def list_ex_iff)
  have ne: "[] \<notin> set ?fs" using a by (auto simp: Split_nonempty_iff ports_ok_def)
  have "\<exists>n. 1 \<le> n \<and> n \<le> 65535 \<and> f = print_nat n" if f: "f \<in> set ?fs" for f
  proof -
    have "\<forall>c \<in> set f. shell_digit c" using Split_chars [OF f] Split_no_sep [OF f] ch by auto
    moreover have "f \<noteq> []" using f ne by auto
    ultimately show ?thesis using port_ok_iff a f by (auto simp: ports_ok_def list_all_iff)
  qed
  then obtain num where num: "\<forall>f \<in> set ?fs. 1 \<le> num f \<and> num f \<le> 65535 \<and> f = print_nat (num f)" by metis
  have "map print_nat (map num ?fs) = ?fs" using num by (simp add: map_idI comp_def)
  then have "v = Join (map print_nat (map num ?fs)) '',''" by (simp add: Join_Split)
  with num show "\<exists>ps. ps \<noteq> [] \<and> (\<forall>p \<in> set ps. 1 \<le> p \<and> p \<le> 65535) \<and> v = Join (map print_nat ps) '',''"
    by (intro exI [of _ "map num ?fs"]) simp
next
  assume "\<exists>ps. ps \<noteq> [] \<and> (\<forall>p \<in> set ps. 1 \<le> p \<and> p \<le> 65535) \<and> v = Join (map print_nat ps) '',''"
  then obtain ps where ps: "ps \<noteq> []" "\<forall>p \<in> set ps. 1 \<le> p \<and> p \<le> 65535" "v = Join (map print_nat ps) '',''" by blast
  have d: "\<not> shell_digit CHR '',''" by (simp add: shell_digit_def digit_value_def Let_def)
  have dig: "\<forall>c \<in> set f. shell_digit c" if "f \<in> set (map print_nat ps)" for f
    using that print_nat_shape(2) by (auto simp: shell_digit_def)
  have split: "Split CHR '','' v = map print_nat ps"
    unfolding ps(3) using d dig ps(1) by (intro Split_Join) auto
  have "[] \<notin> set (map print_nat ps)" using print_nat_shape(1) by (metis imageE list.set_map)
  then have "v \<noteq> [] \<and> \<not> prefix '','' v \<and> \<not> suffix '','' v \<and> \<not> sublist '',,'' v"
    unfolding split [symmetric] Split_nonempty_iff by simp
  moreover have "\<forall>c \<in> set v. shell_digit c \<or> c = CHR '',''"
    using set_Join_subset [of "map print_nat ps" "'',''"] dig unfolding ps(3) by auto
  moreover have "list_all port_ok (Split CHR '','' v)"
    using ps(2) port_ok_print unfolding split list_all_iff by auto
  ultimately show "ports_ok v" by (auto simp: ports_ok_def list_ex_iff)
qed

text \<open>
  The arguments the documentation of the app (\<open>apps/macos/README.md\<close>) says are forwarded, and those
  the script forwards besides: a TTL that does not fit 64 bits, on which its comparison fails.
\<close>

definition documented_arg :: "string \<Rightarrow> bool" where
  "documented_arg a \<longleftrightarrow>
     (\<exists>n. 1 \<le> n \<and> n \<le> 255 \<and> a = ''--fake-ttl='' @ print_nat n) \<or>
     a = ''--doh=true'' \<or> a = ''--doh=false'' \<or>
     (\<exists>u \<in> fst ` set Presets. a = ''--doh-upstream='' @ u) \<or>
     (\<exists>i. i \<noteq> [] \<and> length i \<le> 16 \<and> (\<forall>c \<in> set i. is_name_char c) \<and> a = ''--interface='' @ i) \<or>
     (\<exists>ps. ps \<noteq> [] \<and> (\<forall>p \<in> set ps. 1 \<le> p \<and> p \<le> 65535) \<and> a = ''--ports='' @ Join (map print_nat ps) '','')"

definition overflowing_ttl :: "string \<Rightarrow> bool" where
  "overflowing_ttl a \<longleftrightarrow> (\<exists>n > max_int64. a = ''--fake-ttl='' @ print_nat n)"

definition allowed_arg :: "string \<Rightarrow> bool" where
  "allowed_arg a \<longleftrightarrow> documented_arg a \<or> overflowing_ttl a"

lemma allowed_arg_cases:
  "allowed_arg a \<longleftrightarrow>
     (\<exists>n. 1 \<le> n \<and> (n \<le> 255 \<or> max_int64 < n) \<and> a = ''--fake-ttl='' @ print_nat n) \<or>
     a = ''--doh=true'' \<or> a = ''--doh=false'' \<or>
     (\<exists>u \<in> fst ` set Presets. a = ''--doh-upstream='' @ u) \<or>
     (\<exists>i. i \<noteq> [] \<and> length i \<le> 16 \<and> (\<forall>c \<in> set i. is_name_char c) \<and> a = ''--interface='' @ i) \<or>
     (\<exists>ps. ps \<noteq> [] \<and> (\<forall>p \<in> set ps. 1 \<le> p \<and> p \<le> 65535) \<and> a = ''--ports='' @ Join (map print_nat ps) '','')"
proof -
  have "(\<exists>n > max_int64. a = ''--fake-ttl='' @ print_nat n) \<longleftrightarrow>
      (\<exists>n. 1 \<le> n \<and> max_int64 < n \<and> a = ''--fake-ttl='' @ print_nat n)"
    by (rule ex_cong1) (auto simp: max_int64_def)
  then show ?thesis unfolding allowed_arg_def documented_arg_def overflowing_ttl_def by blast
qed

lemma upstream_ok_iff: "upstream_ok v \<longleftrightarrow> v \<in> fst ` set Presets"
  by (simp add: upstream_ok_def Presets_def)

lemma iface_ok_iff: "iface_ok v \<longleftrightarrow> v \<noteq> [] \<and> length v \<le> 16 \<and> (\<forall>c \<in> set v. is_name_char c)"
  by (auto simp: iface_ok_def list_ex_iff)

text \<open>No option's pattern is the beginning of another's, so the order of the branches does not matter.\<close>

lemma after_iff: "after pre tok = Some v \<longleftrightarrow> tok = pre @ v"
  by (auto simp: after_def prefix_def)

lemma after_disjoint:
  "after ''--fake-ttl='' (''--doh='' @ v) = None" "after ''--fake-ttl='' (''--doh-upstream='' @ v) = None"
  "after ''--fake-ttl='' (''--interface='' @ v) = None" "after ''--fake-ttl='' (''--ports='' @ v) = None"
  "after ''--doh='' (''--doh-upstream='' @ v) = None" "after ''--doh='' (''--interface='' @ v) = None"
  "after ''--doh='' (''--ports='' @ v) = None" "after ''--doh-upstream='' (''--interface='' @ v) = None"
  "after ''--doh-upstream='' (''--ports='' @ v) = None" "after ''--interface='' (''--ports='' @ v) = None"
  by (simp_all add: after_def)

lemma safe_token_cases:
  "safe_token (''--fake-ttl='' @ v) = ttl_ok v" "safe_token (''--doh='' @ v) = (v = ''true'' \<or> v = ''false'')"
  "safe_token (''--doh-upstream='' @ v) = upstream_ok v" "safe_token (''--interface='' @ v) = iface_ok v"
  "safe_token (''--ports='' @ v) = ports_ok v"
  unfolding safe_token_def by (simp_all only: after_append after_disjoint option.case)

lemma safe_token_iff: "safe_token tok \<longleftrightarrow> allowed_arg tok"
proof
  assume s: "safe_token tok"
  then consider v where "tok = ''--fake-ttl='' @ v" | v where "tok = ''--doh='' @ v" | v where "tok = ''--doh-upstream='' @ v"
    | v where "tok = ''--interface='' @ v" | v where "tok = ''--ports='' @ v"
    unfolding safe_token_def by (auto split: option.splits dest!: after_SomeD)
  then show "allowed_arg tok"
  proof cases
    case 1
    with s have "ttl_ok v" by (simp only: safe_token_cases)
    with 1 show ?thesis unfolding allowed_arg_cases ttl_ok_iff by blast
  next
    case 2
    with s have "v = ''true'' \<or> v = ''false''" by (simp only: safe_token_cases)
    with 2 show ?thesis unfolding allowed_arg_cases by auto
  next
    case 3
    with s have "upstream_ok v" by (simp only: safe_token_cases)
    with 3 show ?thesis unfolding allowed_arg_cases upstream_ok_iff by blast
  next
    case 4
    with s have "iface_ok v" by (simp only: safe_token_cases)
    with 4 show ?thesis unfolding allowed_arg_cases iface_ok_iff by blast
  next
    case 5
    with s have "ports_ok v" by (simp only: safe_token_cases)
    with 5 show ?thesis unfolding allowed_arg_cases ports_ok_iff by blast
  qed
next
  assume "allowed_arg tok"
  then show "safe_token tok" unfolding allowed_arg_cases
  proof (elim disjE)
    assume "\<exists>n. 1 \<le> n \<and> (n \<le> 255 \<or> max_int64 < n) \<and> tok = ''--fake-ttl='' @ print_nat n"
    then obtain n where n: "1 \<le> n" "n \<le> 255 \<or> max_int64 < n" and tok: "tok = ''--fake-ttl='' @ print_nat n" by blast
    from n show ?thesis unfolding tok safe_token_cases ttl_ok_iff by blast
  next
    assume "tok = ''--doh=true''"
    then show ?thesis using safe_token_cases(2) [of "''true''"] by simp
  next
    assume "tok = ''--doh=false''"
    then show ?thesis using safe_token_cases(2) [of "''false''"] by simp
  next
    assume "\<exists>u \<in> fst ` set Presets. tok = ''--doh-upstream='' @ u"
    then obtain u where u: "u \<in> fst ` set Presets" and tok: "tok = ''--doh-upstream='' @ u" by blast
    from u show ?thesis unfolding tok safe_token_cases upstream_ok_iff .
  next
    assume "\<exists>i. i \<noteq> [] \<and> length i \<le> 16 \<and> (\<forall>c \<in> set i. is_name_char c) \<and> tok = ''--interface='' @ i"
    then obtain i where i: "i \<noteq> []" "length i \<le> 16" "\<forall>c \<in> set i. is_name_char c" and tok: "tok = ''--interface='' @ i" by blast
    from i show ?thesis unfolding tok safe_token_cases iface_ok_iff by blast
  next
    assume "\<exists>ps. ps \<noteq> [] \<and> (\<forall>p \<in> set ps. 1 \<le> p \<and> p \<le> 65535) \<and> tok = ''--ports='' @ Join (map print_nat ps) '',''"
    then obtain ps where ps: "ps \<noteq> []" "\<forall>p \<in> set ps. 1 \<le> p \<and> p \<le> 65535"
      and tok: "tok = ''--ports='' @ Join (map print_nat ps) '',''" by blast
    from ps show ?thesis unfolding tok safe_token_cases ports_ok_iff by blast
  qed
qed

lemma name_char_plain: "is_name_char c \<Longrightarrow> \<not> ifs_space c \<and> c \<noteq> carriage_return"
  by (auto simp: is_name_char_def shell_digit_def digit_value_def Let_def ifs_space_def tab_def newline_def carriage_return_def
      split: if_splits)

lemma digit_name_char: "shell_digit c \<Longrightarrow> is_name_char c"
  by (simp add: is_name_char_def)

lemma shell_word_append:
  assumes "shell_word u" and "\<forall>c \<in> set v. is_name_char c \<or> c = CHR '',''"
  shows "shell_word (u @ v)"
proof -
  have "\<not> ifs_space c \<and> c \<noteq> carriage_return" if "c \<in> set v" for c
  proof -
    from that assms(2) consider "is_name_char c" | "c = CHR '',''" by blast
    then show ?thesis
    proof cases
      case 2
      then show ?thesis by (simp add: ifs_space_def tab_def newline_def carriage_return_def)
    qed (rule name_char_plain)
  qed
  with assms(1) show ?thesis unfolding shell_word_def set_append by blast
qed

lemma option_words:
  "shell_word ''start''" "shell_word ''--fake-ttl=''" "shell_word ''--doh=''" "shell_word ''--doh-upstream=''"
  "shell_word ''--interface=''" "shell_word ''--ports=''"
  by (simp_all add: shell_word_def ifs_space_def tab_def newline_def carriage_return_def)

lemma preset_chars: "u \<in> fst ` set Presets \<Longrightarrow> c \<in> set u \<Longrightarrow> is_name_char c"
proof -
  have "list_all (\<lambda>(u, _). list_all is_name_char u) Presets" by code_simp
  then show "u \<in> fst ` set Presets \<Longrightarrow> c \<in> set u \<Longrightarrow> is_name_char c" by (auto simp: list_all_iff)
qed

lemma ports_chars:
  "ports_ok v \<Longrightarrow> c \<in> set v \<Longrightarrow> is_name_char c \<or> c = CHR '',''"
  using digit_name_char by (auto simp: ports_ok_def list_ex_iff)

lemma bool_chars: "\<forall>c \<in> set (if b then ''true'' else ''false''). is_name_char c"
  by (simp add: is_name_char_def Let_def)

text \<open>The settings the app's own controls can make, and texts the helper takes.\<close>

definition good_settings :: "settings_store \<Rightarrow> bool" where
  "good_settings s \<longleftrightarrow> fakeTTL s \<le> 255 \<and>
     (TrimSpace (doHUpstream s) = [] \<or> TrimSpace (doHUpstream s) \<in> fst ` set Presets) \<and>
     (TrimSpace (set_interface s) = [] \<or> iface_ok (TrimSpace (set_interface s))) \<and>
     (TrimSpace (set_ports s) = [] \<or> ports_ok (TrimSpace (set_ports s)))"

definition start_args :: "settings_store \<Rightarrow> string list" where
  "start_args s =
     [''--fake-ttl='' @ print_nat (nat (max 1 (fakeTTL s))), ''--doh='' @ (if doHEnabled s then ''true'' else ''false'')] @
     (if TrimSpace (doHUpstream s) = [] then [] else [''--doh-upstream='' @ TrimSpace (doHUpstream s)]) @
     (if TrimSpace (set_interface s) = [] then [] else [''--interface='' @ TrimSpace (set_interface s)]) @
     (if TrimSpace (set_ports s) = [] then [] else [''--ports='' @ TrimSpace (set_ports s)])"

lemma buildStartCommand_args: "buildStartCommand s = Join (''start'' # start_args s) '' ''"
  by (simp add: buildStartCommand_def start_args_def Let_def)

lemma start_args_ok:
  assumes "good_settings s" and "a \<in> set (start_args s)"
  shows "shell_word a \<and> safe_token a"
proof -
  let ?n = "nat (max 1 (fakeTTL s))"
  have one: "a \<in> set (if P then [] else [x]) \<Longrightarrow> a = x \<and> \<not> P" for x and P by (cases P) simp_all
  have two: "a \<in> set [x, y] \<Longrightarrow> a = x \<or> a = y" for x y by simp
  from assms(2) consider "a = ''--fake-ttl='' @ print_nat ?n" | "a = ''--doh='' @ (if doHEnabled s then ''true'' else ''false'')"
    | "a = ''--doh-upstream='' @ TrimSpace (doHUpstream s)" "TrimSpace (doHUpstream s) \<noteq> []"
    | "a = ''--interface='' @ TrimSpace (set_interface s)" "TrimSpace (set_interface s) \<noteq> []"
    | "a = ''--ports='' @ TrimSpace (set_ports s)" "TrimSpace (set_ports s) \<noteq> []"
    unfolding start_args_def set_append by (elim UnE) (blast dest: one two)+
  then show ?thesis
  proof cases
    case 1
    have n: "1 \<le> ?n" "?n \<le> 255" using assms(1) by (auto simp: good_settings_def)
    have "\<forall>c \<in> set (print_nat ?n). is_name_char c \<or> c = CHR '',''"
      using print_nat_shape(2) digit_name_char by (auto simp: shell_digit_def)
    with shell_word_append [OF option_words(2)] have "shell_word a" unfolding 1 by blast
    moreover have "safe_token a" unfolding 1 safe_token_cases ttl_ok_iff using n by blast
    ultimately show ?thesis ..
  next
    case 2
    have "shell_word a" unfolding 2 using bool_chars by (intro shell_word_append option_words) blast
    moreover have "safe_token a" unfolding 2 safe_token_cases by simp
    ultimately show ?thesis ..
  next
    case 3
    with assms(1) have u: "TrimSpace (doHUpstream s) \<in> fst ` set Presets" by (simp add: good_settings_def)
    have "shell_word a" unfolding 3(1) using preset_chars [OF u] by (intro shell_word_append option_words) blast
    moreover have "safe_token a" unfolding 3(1) safe_token_cases upstream_ok_iff using u .
    ultimately show ?thesis ..
  next
    case 4
    with assms(1) have i: "iface_ok (TrimSpace (set_interface s))" by (simp add: good_settings_def)
    have "shell_word a" unfolding 4(1) using i [unfolded iface_ok_iff] by (intro shell_word_append option_words) blast
    moreover have "safe_token a" unfolding 4(1) safe_token_cases using i .
    ultimately show ?thesis ..
  next
    case 5
    with assms(1) have i: "ports_ok (TrimSpace (set_ports s))" by (simp add: good_settings_def)
    have "shell_word a" unfolding 5(1) using ports_chars [OF i] by (intro shell_word_append option_words) blast
    moreover have "safe_token a" unfolding 5(1) safe_token_cases using i .
    ultimately show ?thesis ..
  qed
qed

section \<open>Properties\<close>

lemma start_engine_iff:
  "handle_command text = StartEngine argv \<longleftrightarrow>
   (\<exists>args. read_words text = ''start'' # args \<and> list_all allowed_arg args \<and> argv = ''run'' # ''-v'' # args)"
proof -
  have "safe_token = allowed_arg" using safe_token_iff by blast
  then show ?thesis
    by (auto simp: handle_command_def sanitize_start_args_def sanitize_loop_all split: list.splits option.splits if_splits)
qed

lemma print_max_int64: "print_nat 9223372036854775808 = ''9223372036854775808''"
  by (simp add: print_nat.simps digit_chars)

lemma overflow_not_documented:
  "overflowing_ttl ''--fake-ttl=9223372036854775808'' \<and> \<not> documented_arg ''--fake-ttl=9223372036854775808''"
proof
  show "overflowing_ttl ''--fake-ttl=9223372036854775808''"
    unfolding overflowing_ttl_def by (intro exI [of _ 9223372036854775808]) (simp add: print_max_int64 max_int64_def)
  have big: "n = 9223372036854775808" if "''9223372036854775808'' = print_nat n" for n
    using that [folded print_max_int64] by (metis decimal_print_nat option.inject)
  show "\<not> documented_arg ''--fake-ttl=9223372036854775808''" unfolding documented_arg_def by (auto dest!: big)
qed

text \<open>
  C14: What reaches the process of root: the helper starts the engine exactly for the commands
  whose first word is \<open>start\<close> and each of whose other words is an argument the app's
  documentation lists, or a TTL above the largest 64-bit number; and then with \<open>run -v\<close> and
  these words, unchanged and in their order.  In particular no resolver but the five presets can
  be chosen.  The second kind of argument is the one gap: the documentation says that a TTL
  outside 1-255 is rejected without starting the engine, and \<open>--fake-ttl=9223372036854775808\<close> is not.
\<close>

theorem helper_args_confined:
  "(handle_command text = StartEngine argv \<longleftrightarrow>
     (\<exists>args. read_words text = ''start'' # args \<and> list_all (\<lambda>a. documented_arg a \<or> overflowing_ttl a) args \<and>
       argv = ''run'' # ''-v'' # args)) \<and>
   handle_command ''start --fake-ttl=9223372036854775808'' = StartEngine [''run'', ''-v'', ''--fake-ttl=9223372036854775808''] \<and>
   \<not> documented_arg ''--fake-ttl=9223372036854775808''"
proof -
  have w: "read_words ''start --fake-ttl=9223372036854775808'' = [''start'', ''--fake-ttl=9223372036854775808'']" by code_simp
  have "handle_command ''start --fake-ttl=9223372036854775808'' = StartEngine [''run'', ''-v'', ''--fake-ttl=9223372036854775808'']"
    unfolding start_engine_iff w using overflow_not_documented by (simp add: allowed_arg_def)
  moreover have "allowed_arg = (\<lambda>a. documented_arg a \<or> overflowing_ttl a)" by (simp add: fun_eq_iff allowed_arg_def)
  ultimately show ?thesis using overflow_not_documented by (simp only: start_engine_iff) simp
qed

text \<open>
  C23: What the app sends is what the helper runs: for settings the app's controls can make (a TTL
  up to 255, a preset or no upstream, texts for interface and ports of the form the helper
  takes), the command the app writes into the file starts the engine with the arguments of
  the settings, each once and in order.
\<close>

theorem app_start_accepted:
  assumes "good_settings s"
  shows "send_file (buildStartCommand s) = Some (Join (''start'' # start_args s) '' '' @ [newline]) \<and>
    handle_command (command_text (Join (''start'' # start_args s) '' '' @ [newline])) =
      StartEngine ([''run'', ''-v''] @ start_args s)"
proof -
  have w: "\<forall>w \<in> set (''start'' # start_args s). shell_word w"
    using start_args_ok [OF assms] option_words(1) by auto
  have "list_all safe_token (start_args s)" using start_args_ok [OF assms] by (auto simp: list_all_iff)
  with read_words_Join [OF w]
  have h: "handle_command (Join (''start'' # start_args s) '' '') = StartEngine ([''run'', ''-v''] @ start_args s)"
    unfolding handle_command_def sanitize_start_args_def by (simp only: sanitize_loop_all) simp
  have "prefix ''start'' (''start'' @ rest)" for rest by (rule prefixI) (rule refl)
  moreover obtain rest where "Join (''start'' # start_args s) '' '' = ''start'' @ rest"
    by (cases "start_args s") auto
  ultimately have "send_file (buildStartCommand s) = Some (Join (''start'' # start_args s) '' '' @ [newline])"
    unfolding send_file_def buildStartCommand_args by (simp only: list_ex_iff) (metis list.set_intros(1))
  with h show ?thesis unfolding command_text_Join [OF w] by blast
qed

lemma default_settings_good: "good_settings default_settings"
proof -
  have "print_nat 443 = ''443''" by (simp add: print_nat.simps digit_chars)
  then have "ports_ok ''443''" unfolding ports_ok_iff by (intro exI [of _ "[443]"]) simp
  moreover have "TrimSpace ''cloudflare'' = ''cloudflare''" "TrimSpace '''' = ''''" "TrimSpace ''443'' = ''443''" by code_simp+
  ultimately show ?thesis by (simp add: good_settings_def default_settings_def Presets_def)
qed

theorem app_start_accepted_witness:
  "handle_command (command_text (Join (''start'' # start_args default_settings) '' '' @ [newline])) =
     StartEngine [''run'', ''-v'', ''--fake-ttl=8'', ''--doh=true'', ''--doh-upstream=cloudflare'', ''--ports=443'']"
proof -
  have "TrimSpace ''cloudflare'' = ''cloudflare''" "TrimSpace [] = []" "TrimSpace ''443'' = ''443''" by code_simp+
  then have "start_args default_settings = [''--fake-ttl=8'', ''--doh=true'', ''--doh-upstream=cloudflare'', ''--ports=443'']"
    by (simp add: start_args_def default_settings_def print_nat.simps digit_chars)
  with app_start_accepted [OF default_settings_good] show ?thesis by simp
qed

text \<open>
  Two commands the helper does not withstand: a TTL of more than 64 bits passes the test
  against 255, because the shell's comparison fails on it and the \<open>if\<close> takes that for false;
  and a file of blanks ends the script, because the array of its words is empty.
\<close>

theorem helper_gaps:
  "handle_command (command_text (''start --fake-ttl=99999999999999999999'' @ [newline])) =
     StartEngine [''run'', ''-v'', ''--fake-ttl=99999999999999999999''] \<and>
   handle_command (command_text (''start --fake-ttl=256'' @ [newline])) = RejectStart \<and>
   handle_command (command_text ('' '' @ [newline])) = HelperDies"
proof (intro conjI)
  have words: "read_words (command_text (''start --fake-ttl=99999999999999999999'' @ [newline])) =
      [''start'', ''--fake-ttl=99999999999999999999'']"
    "read_words (command_text (''start --fake-ttl=256'' @ [newline])) = [''start'', ''--fake-ttl=256'']"
    "read_words (command_text ('' '' @ [newline])) = []" by code_simp+
  have n: "print_nat 99999999999999999999 = ''99999999999999999999''" "print_nat 256 = ''256''"
    by (simp_all add: print_nat.simps digit_chars)
  have "ttl_ok (print_nat 99999999999999999999)" unfolding ttl_ok_iff
    by (intro exI [of _ 99999999999999999999]) (simp add: max_int64_def)
  then have "safe_token (''--fake-ttl='' @ ''99999999999999999999'')" unfolding safe_token_cases n .
  then show "handle_command (command_text (''start --fake-ttl=99999999999999999999'' @ [newline])) =
     StartEngine [''run'', ''-v'', ''--fake-ttl=99999999999999999999'']"
    unfolding handle_command_def words by (simp add: sanitize_start_args_def)
  have "\<not> ttl_ok (print_nat 256)" by (simp add: ttl_ok_def test_gt_def decimal_print_nat max_int64_def print_nat_shape)
  then have "\<not> safe_token (''--fake-ttl='' @ ''256'')" unfolding safe_token_cases n .
  then show "handle_command (command_text (''start --fake-ttl=256'' @ [newline])) = RejectStart"
    unfolding handle_command_def words by (simp add: sanitize_start_args_def)
  show "handle_command (command_text ('' '' @ [newline])) = HelperDies"
    unfolding handle_command_def words by simp
qed

end
