(* ===== verification/Helper_Daemon.thy ===== *)
theory Helper_Daemon
  imports Helper_Args Event_Runs
begin

text \<open>
  The macOS helper as a process: the loop of the script the app renders
  (\<open>apps/macos/.../Core/Installer/HelperDaemonScriptBuilder.swift\<close>) against the app, which writes
  commands into a file and reads a status file (\<open>Core/GecitControlService.swift\<close>), and against
  the engine, which may end at any time; and what the app offers its user
  (\<open>Core/RuntimeStore.swift\<close>).  Log files and messages are left out.
\<close>

section \<open>States and steps\<close>

datatype run_state = Onboarding | Stopped | Starting | Running | Stopping | ErrorState

text \<open>
  Where the script is: before its look at the command file, with a command it has read but
  not yet removed from the file, handling it, in the two seconds after a launch or after a
  \<open>kill\<close>, or ended.
\<close>

datatype helper_pc = Polling | HasRead string | Handling string | CheckingLaunch | KillingEngine nat | HelperGone

record helper =
  cmd_file :: string
  pid_file :: "nat option"
  status_file :: "run_state \<times> nat option"
  alive :: "nat set"
  helper_at :: helper_pc
  launches :: "string list list"

datatype helper_event =
    AppSends string | EngineExits nat | PollFile | TruncateFile | HandleCommand nat bool | CheckLaunch | KillEngine | LaunchdRestarts

definition is_running :: "helper \<Rightarrow> bool" where
  "is_running s = (case pid_file s of None \<Rightarrow> False | Some p \<Rightarrow> p \<in> alive s)"

definition write_status :: "run_state \<Rightarrow> helper \<Rightarrow> helper" where
  "write_status st s = s\<lparr>status_file := (st, if is_running s then pid_file s else None)\<rparr>"

definition helper_goto :: "helper_pc \<Rightarrow> helper \<Rightarrow> helper" where
  "helper_goto p s = s\<lparr>helper_at := p\<rparr>"

text \<open>\<open>start_gecit\<close> up to its \<open>sleep\<close>; \<open>pid\<close> is the new process, \<open>exec\<close> whether the binary can be run.\<close>

definition start_gecit :: "nat \<Rightarrow> bool \<Rightarrow> string list \<Rightarrow> helper \<Rightarrow> helper" where
  "start_gecit pid exec argv s =
     (if is_running s then helper_goto Polling (write_status Running s)
      else if \<not> exec then helper_goto Polling (write_status ErrorState s)
      else
        let s = write_status Starting s;
            s = s\<lparr>alive := insert pid (alive s), launches := launches s @ [argv]\<rparr>;
            s = s\<lparr>pid_file := Some pid\<rparr>
        in helper_goto CheckingLaunch s)"

definition finish_stop :: "helper \<Rightarrow> helper" where
  "finish_stop s = helper_goto Polling (write_status Stopped (s\<lparr>pid_file := None\<rparr>))"

definition stop_gecit :: "helper \<Rightarrow> helper" where
  "stop_gecit s =
     (let s = write_status Stopping s in
      case pid_file s of
        Some p \<Rightarrow> if p \<in> alive s then helper_goto (KillingEngine p) s else finish_stop s
      | None \<Rightarrow> finish_stop s)"

definition run_command :: "nat \<Rightarrow> bool \<Rightarrow> string \<Rightarrow> helper \<Rightarrow> helper" where
  "run_command pid exec c s =
     (case handle_command c of
        StartEngine argv \<Rightarrow> start_gecit pid exec argv s
      | RejectStart \<Rightarrow> helper_goto Polling (write_status ErrorState s)
      | StopEngine \<Rightarrow> stop_gecit s
      | ReportStatus \<Rightarrow> helper_goto Polling (write_status (if is_running s then Running else Stopped) s)
      | InvalidCommand \<Rightarrow> helper_goto Polling (write_status ErrorState s)
      | HelperDies \<Rightarrow> helper_goto HelperGone s)"

text \<open>
  The app replaces the whole file.  The engine may exit at any time, and a \<open>kill -9\<close> ends it.
  launchd starts the script again when it has ended.
\<close>

fun helper_step :: "helper_event \<Rightarrow> helper \<Rightarrow> helper option" where
  "helper_step (AppSends c) s = map_option (\<lambda>f. s\<lparr>cmd_file := f\<rparr>) (send_file c)"
| "helper_step (EngineExits p) s = (if p \<in> alive s then Some (s\<lparr>alive := alive s - {p}\<rparr>) else None)"
| "helper_step PollFile s =
     (if helper_at s \<noteq> Polling then None
      else if cmd_file s \<noteq> [] then Some (helper_goto (HasRead (command_text (cmd_file s))) s)
      else Some (if is_running s then write_status Running s else s))"
| "helper_step TruncateFile s =
     (case helper_at s of HasRead c \<Rightarrow> Some (helper_goto (Handling c) (s\<lparr>cmd_file := []\<rparr>)) | _ \<Rightarrow> None)"
| "helper_step (HandleCommand pid exec) s =
     (case helper_at s of Handling c \<Rightarrow> if pid \<in> alive s then None else Some (run_command pid exec c s) | _ \<Rightarrow> None)"
| "helper_step CheckLaunch s =
     (if helper_at s \<noteq> CheckingLaunch then None
      else Some (helper_goto Polling
        (if is_running s then write_status Running s else write_status ErrorState (s\<lparr>pid_file := None\<rparr>))))"
| "helper_step KillEngine s =
     (case helper_at s of KillingEngine p \<Rightarrow> Some (finish_stop (s\<lparr>alive := alive s - {p}\<rparr>)) | _ \<Rightarrow> None)"
| "helper_step LaunchdRestarts s =
     (if helper_at s = HelperGone then Some (helper_goto Polling (write_status Stopped s)) else None)"

primrec helper_run :: "helper_event list \<Rightarrow> helper \<Rightarrow> helper option" where
  "helper_run [] s = Some s"
| "helper_run (e # es) s = Option.bind (helper_step e s) (helper_run es)"

definition helper_start :: helper where
  "helper_start = \<lparr>cmd_file = [], pid_file = None, status_file = (Stopped, None), alive = {}, helper_at = Polling, launches = []\<rparr>"

section \<open>The app's buttons\<close>

definition canStart :: "bool \<Rightarrow> run_state \<Rightarrow> bool" where
  "canStart helperInstalled state \<longleftrightarrow> helperInstalled \<and> state \<noteq> Running \<and> state \<noteq> Starting \<and> state \<noteq> Stopping"

definition canStop :: "bool \<Rightarrow> run_state \<Rightarrow> bool" where
  "canStop helperInstalled state \<longleftrightarrow> helperInstalled \<and> (state = Running \<or> state = Starting \<or> state = ErrorState)"

datatype app_action = InstallHelper | SendStop | SendStart

definition performPrimaryAction :: "bool \<Rightarrow> run_state \<Rightarrow> app_action" where
  "performPrimaryAction helperInstalled state =
     (if \<not> helperInstalled then InstallHelper
      else if canStop helperInstalled state then SendStop
      else SendStart)"

section \<open>Invariants\<close>

lemma helper_sel [simp]:
  "cmd_file (write_status st s) = cmd_file s" "pid_file (write_status st s) = pid_file s" "alive (write_status st s) = alive s"
  "helper_at (write_status st s) = helper_at s" "launches (write_status st s) = launches s"
  "cmd_file (helper_goto p s) = cmd_file s" "pid_file (helper_goto p s) = pid_file s" "alive (helper_goto p s) = alive s"
  "helper_at (helper_goto p s) = p" "launches (helper_goto p s) = launches s" "status_file (helper_goto p s) = status_file s"
  "cmd_file (finish_stop s) = cmd_file s" "pid_file (finish_stop s) = None" "alive (finish_stop s) = alive s"
  "helper_at (finish_stop s) = Polling" "launches (finish_stop s) = launches s"
  by (simp_all add: write_status_def helper_goto_def finish_stop_def)

text \<open>The only engine process is the one in the pid file.\<close>

definition one_engine :: "helper \<Rightarrow> bool" where
  "one_engine s \<longleftrightarrow> alive s \<subseteq> set_option (pid_file s) \<and>
     (case helper_at s of KillingEngine p \<Rightarrow> pid_file s = Some p | _ \<Rightarrow> True)"

definition launched_ok :: "helper \<Rightarrow> bool" where
  "launched_ok s \<longleftrightarrow> list_all (\<lambda>argv. \<exists>args. argv = ''run'' # ''-v'' # args \<and> list_all allowed_arg args) (launches s)"

text \<open>Commands that will still be carried out.\<close>

definition commands_left :: "helper \<Rightarrow> nat" where
  "commands_left s = (case helper_at s of HasRead _ \<Rightarrow> 1 | Handling _ \<Rightarrow> (if cmd_file s = [] then 1 else 2)
     | _ \<Rightarrow> (if cmd_file s = [] then 0 else 1))"

fun is_send :: "helper_event \<Rightarrow> bool" where
  "is_send (AppSends _) = True"
| "is_send _ = False"

lemma run_command_one:
  assumes "one_engine s" and "helper_at s = Handling c" and "pid \<notin> alive s"
  shows "one_engine (run_command pid exec c s)"
  using assms
  by (auto simp: run_command_def start_gecit_def stop_gecit_def one_engine_def is_running_def Let_def
      split: helper_cmd.split option.splits if_splits)

lemma helper_step_one:
  assumes "helper_step e s = Some s'" and "one_engine s"
  shows "one_engine s'"
proof (cases e)
  case (HandleCommand pid exec)
  with assms show ?thesis by (auto split: helper_pc.splits if_splits intro: run_command_one)
qed (use assms in \<open>auto simp: one_engine_def is_running_def split: helper_pc.splits if_splits option.splits\<close>)

lemma run_command_launches:
  "launched_ok s \<Longrightarrow> launched_ok (run_command pid exec c s)"
  using start_engine_iff [of c]
  by (auto simp: run_command_def start_gecit_def stop_gecit_def launched_ok_def Let_def
      split: helper_cmd.split option.splits if_splits)

lemma run_command_count:
  assumes "helper_at s = Handling c"
  shows "length (launches (run_command pid exec c s)) + commands_left (run_command pid exec c s) \<le> length (launches s) + commands_left s"
  using assms
  by (auto simp: run_command_def start_gecit_def stop_gecit_def commands_left_def Let_def
      split: helper_cmd.split option.splits if_splits helper_pc.splits)

lemma helper_step_launches:
  assumes "helper_step e s = Some s'" and "launched_ok s"
  shows "launched_ok s'"
proof (cases e)
  case (HandleCommand pid exec)
  with assms show ?thesis by (auto split: helper_pc.splits if_splits intro: run_command_launches)
qed (use assms in \<open>auto simp: launched_ok_def split: helper_pc.splits if_splits option.splits\<close>)

lemma helper_step_count:
  assumes "helper_step e s = Some s'"
  shows "length (launches s') + commands_left s' \<le> length (launches s) + commands_left s + (if is_send e then 1 else 0)"
proof (cases e)
  case (HandleCommand pid exec)
  with assms obtain c where "helper_at s = Handling c" "s' = run_command pid exec c s"
    by (auto split: helper_pc.splits if_splits)
  with run_command_count [of s c pid exec] HandleCommand show ?thesis by simp
qed (use assms in \<open>auto simp: commands_left_def split: helper_pc.splits if_splits option.splits\<close>)

interpretation helper_runs: event_runs helper_step helper_run
  by unfold_locales simp_all

lemma helper_run_inv:
  "helper_run es s = Some s' \<Longrightarrow> one_engine s \<Longrightarrow> launched_ok s \<Longrightarrow>
   one_engine s' \<and> launched_ok s' \<and> length (launches s') + commands_left s' \<le> length (launches s) + commands_left s + length (filter is_send es)"
proof (induction es arbitrary: s)
  case (Cons e es)
  from Cons.prems(1) obtain s1 where s1: "helper_step e s = Some s1" "helper_run es s1 = Some s'"
    by (rule helper_runs.run_first)
  from Cons.IH [OF s1(2) helper_step_one [OF s1(1) Cons.prems(2)] helper_step_launches [OF s1(1) Cons.prems(3)]]
    helper_step_count [OF s1(1)]
  show ?case by auto
qed simp

section \<open>Properties\<close>

text \<open>
  C21: The helper runs one engine at a time: in every interleaving of its loop with the app, the
  engine and launchd, at most one engine process is alive, the one in the pid file; it was
  started with allowed arguments only; and there are never more launches than commands sent.
\<close>

theorem helper_one_engine:
  assumes "helper_run es helper_start = Some s"
  shows "alive s \<subseteq> set_option (pid_file s) \<and> card (alive s) \<le> 1 \<and>
    list_all (\<lambda>argv. \<exists>args. argv = ''run'' # ''-v'' # args \<and> list_all allowed_arg args) (launches s) \<and>
    length (launches s) \<le> length (filter is_send es)"
proof -
  have "one_engine helper_start" "launched_ok helper_start" "length (launches helper_start) + commands_left helper_start = 0"
    by (simp_all add: one_engine_def launched_ok_def helper_start_def commands_left_def)
  from helper_run_inv [OF assms this(1,2)] this(3) have i: "one_engine s" "launched_ok s"
    "length (launches s) \<le> length (filter is_send es)" by auto
  then have a: "alive s \<subseteq> set_option (pid_file s)" by (auto simp: one_engine_def)
  moreover have "card (set_option (pid_file s)) \<le> 1" by (cases "pid_file s") simp_all
  with a have "card (alive s) \<le> 1" using card_mono [of "set_option (pid_file s)" "alive s"] by (cases "pid_file s") auto
  ultimately show ?thesis using i(2,3) by (simp add: launched_ok_def)
qed

lemma start_command: "handle_command (command_text (''start'' @ [newline])) = StartEngine [''run'', ''-v'']"
  "handle_command (command_text (''stop'' @ [newline])) = StopEngine"
  "send_file ''start'' = Some (''start'' @ [newline])" "send_file ''stop'' = Some (''stop'' @ [newline])"
  by code_simp+

text \<open>A start whose engine comes up as process 7.\<close>

definition demo_launch :: "helper_event list" where
  "demo_launch = [AppSends ''start'', PollFile, TruncateFile, HandleCommand 7 True, CheckLaunch]"

definition demo_running :: helper where
  "demo_running = helper_start\<lparr>pid_file := Some 7, status_file := (Running, Some 7), alive := {7}, launches := [[''run'', ''-v'']]\<rparr>"

lemma demo_launch_run: "helper_run demo_launch helper_start = Some demo_running"
proof -
  have f: "''start'' @ [newline] \<noteq> []" by simp
  show ?thesis
    by (simp add: demo_launch_def start_command f run_command_def start_gecit_def is_running_def write_status_def
        helper_goto_def helper_start_def demo_running_def del: append.simps)
qed

theorem helper_one_engine_witness:
  "helper_run demo_launch helper_start = Some demo_running \<and> alive demo_running = {7} \<and> card (alive demo_running) \<le> 1"
  using demo_launch_run helper_one_engine [OF demo_launch_run] by (simp add: demo_running_def)

text \<open>
  A stop can get lost: the helper reads the command file and empties it in two steps, and what
  the app writes in between is gone.  A start followed at once by a stop leaves the engine
  running, and the helper reports it as running.
\<close>

theorem stop_lost_in_race:
  "helper_run [AppSends ''start'', PollFile, AppSends ''stop'', TruncateFile, HandleCommand 7 True, CheckLaunch, PollFile]
     helper_start = Some demo_running \<and> alive demo_running = {7} \<and> cmd_file demo_running = []"
proof -
  have f: "''start'' @ [newline] \<noteq> []" by simp
  show ?thesis
    by (simp add: start_command f run_command_def start_gecit_def is_running_def write_status_def
        helper_goto_def helper_start_def demo_running_def del: append.simps)
qed

text \<open>
  The end of an engine goes unnoticed: once the running engine has ended by itself, the
  helper's loop leaves the status file as it was, however often it goes round, so the app
  keeps showing a running engine with its process number, and offers to stop it.
\<close>

theorem engine_exit_unnoticed:
  "\<exists>s. helper_run (demo_launch @ [EngineExits 7] @ replicate n PollFile) helper_start = Some s \<and>
     alive s = {} \<and> status_file s = (Running, Some 7) \<and> performPrimaryAction True (fst (status_file s)) = SendStop"
proof -
  let ?s = "demo_running\<lparr>alive := {}\<rparr>"
  have "helper_step PollFile ?s = Some ?s"
    by (simp add: demo_running_def helper_start_def is_running_def)
  then have "helper_run (replicate n PollFile) ?s = Some ?s" by (induction n) simp_all
  moreover have "helper_run [EngineExits 7] demo_running = Some ?s" by (simp add: demo_running_def)
  ultimately have "helper_run (demo_launch @ [EngineExits 7] @ replicate n PollFile) helper_start = Some ?s"
    by (simp only: helper_runs.run_of_append demo_launch_run Option.bind.simps)
  then show ?thesis by (intro exI [of _ ?s]) (simp add: demo_running_def performPrimaryAction_def canStop_def)
qed

text \<open>
  The app's one button does what its guards allow, with one exception: while the engine is
  being stopped it sends a start, which \<open>canStart\<close> forbids.
\<close>

theorem primary_action_guards:
  "(performPrimaryAction inst st = SendStop \<longleftrightarrow> canStop inst st) \<and>
   (performPrimaryAction inst st = SendStart \<and> \<not> canStart inst st \<longleftrightarrow> inst \<and> st = Stopping)"
  by (cases st) (auto simp: performPrimaryAction_def canStart_def canStop_def)

end
