(* ===== verification/Runtime_Store.thy ===== *)
theory Runtime_Store
  imports Helper_Daemon
begin

text \<open>
  What the macOS app shows of its helper (\<open>apps/macos/.../Core/RuntimeStore.swift\<close>, with the
  readers of \<open>GecitControlService.swift\<close> and \<open>isInstalled\<close> of \<open>GecitHelperInstaller.swift\<close>): a store
  on the main thread that polls the status file with a timer while its window is open, and
  shows a state of its own from the press of a button until the helper reports one.  Texts are
  in UTF-8.  Decoding the status file is a library; a file that is missing or cannot be decoded
  is \<open>None\<close>.
\<close>

section \<open>Files\<close>

record gecit_status =
  gs_state :: run_state
  gs_pid :: "int option"
  gs_message :: string
  gs_updatedAt :: string

record app_files =
  status_data :: "gecit_status option"
  log_text :: "string option"
  script_there :: bool
  plist_there :: bool
  binary_there :: bool
  version_text :: "string option"
  command_writable :: bool

definition dotless_i :: string where "dotless_i = [CHR 0xC4, CHR 0xB1]"
definition s_cedilla :: string where "s_cedilla = [CHR 0xC5, CHR 0x9F]"
definition u_umlaut :: string where "u_umlaut = [CHR 0xC3, CHR 0xBC]"
definition single_quote :: string where "single_quote = [CHR 0x27]"

definition starting_message :: string where
  "starting_message = ''Gecit ba'' @ s_cedilla @ ''lat'' @ dotless_i @ ''l'' @ dotless_i @ ''yor''"

definition failed_message :: string where
  "failed_message = ''Gecit ba'' @ s_cedilla @ ''lat'' @ dotless_i @ ''lamad'' @ dotless_i"

definition stopping_message :: string where
  "stopping_message = ''Gecit durduruluyor''"

definition no_logs :: string where
  "no_logs = ''Hen'' @ u_umlaut @ ''z log yok.''"

definition updated_message :: string where
  "updated_message = ''Helper g'' @ u_umlaut @ ''ncellendi. Bir kez daha '' @ single_quote @ ''Yeniden Kur'' @ single_quote @
     '' ile kurulumu tazele.''"

definition incomplete_message :: string where
  "incomplete_message = ''Kurulum tamamlanmad'' @ dotless_i @ ''. Y'' @ [CHR 0xC3, CHR 0xB6] @ ''netici onay'' @ dotless_i @
     '' penceresi kapanm'' @ dotless_i @ s_cedilla @ '' olabilir.''"

definition empty_status :: gecit_status where
  "empty_status = \<lparr>gs_state = Onboarding, gs_pid = None,
     gs_message = ''Haz'' @ dotless_i @ ''rlan'' @ dotless_i @ ''yor'', gs_updatedAt = []\<rparr>"

definition readStatus :: "app_files \<Rightarrow> gecit_status" where
  "readStatus f = (case status_data f of None \<Rightarrow> empty_status | Some st \<Rightarrow> st)"

definition suffix_lines :: "nat \<Rightarrow> 'a list \<Rightarrow> 'a list" where
  "suffix_lines n ls = drop (length ls - n) ls"

definition readLogs :: "app_files \<Rightarrow> string" where
  "readLogs f = (case log_text f of None \<Rightarrow> no_logs | Some txt \<Rightarrow> Join (suffix_lines 200 (Split newline txt)) [newline])"

definition helperVersion :: string where "helperVersion = ''5''"
definition onboardingVersion :: string where "onboardingVersion = ''1''"

definition isInstalled :: "app_files \<Rightarrow> bool" where
  "isInstalled f \<longleftrightarrow> script_there f \<and> plist_there f \<and> binary_there f \<and>
     (case version_text f of None \<Rightarrow> False | Some v \<Rightarrow> TrimSpace v = helperVersion)"

section \<open>The store\<close>

datatype page = MainPage | LogsPage | SettingsPage

text \<open>
  \<open>timers\<close> are the timers of the run loop with their intervals, \<open>timer\<close> the one the store
  remembers.  \<open>pending\<close> are the refreshes the main queue still has to run, with what they say
  about the logs; \<open>sent\<close> are the contents written to the command file.
\<close>

record app_store =
  helperInstalled :: bool
  onboardingCompleted :: bool
  storedVersion :: "string option"
  status :: gecit_status
  logs :: string
  installError :: "string option"
  currentPage :: page
  timer :: "nat option"
  timers :: "(nat \<times> nat) list"
  next_timer :: nat
  pollingInterval :: "nat option"
  isObserving :: bool
  lastStatusSignature :: string
  lastLogsSignature :: string
  pending :: "bool option list"
  sent :: "string list"

fun rawValue :: "run_state \<Rightarrow> string" where
  "rawValue Onboarding = ''onboarding''"
| "rawValue Stopped = ''stopped''"
| "rawValue Starting = ''starting''"
| "rawValue Running = ''running''"
| "rawValue Stopping = ''stopping''"
| "rawValue ErrorState = ''error''"

definition print_int :: "int \<Rightarrow> string" where
  "print_int i = (if i < 0 then ''-'' @ print_nat (nat (- i)) else print_nat (nat i))"

definition bar :: char where "bar = CHR ''|''"

definition signature :: "gecit_status \<Rightarrow> string" where
  "signature st =
     rawValue (gs_state st) @ [bar] @ print_int (case gs_pid st of None \<Rightarrow> -1 | Some p \<Rightarrow> p) @ [bar] @
     gs_message st @ [bar] @ gs_updatedAt st"

definition refreshStatus :: "app_files \<Rightarrow> app_store \<Rightarrow> app_store" where
  "refreshStatus f s =
     (let s = s\<lparr>helperInstalled := isInstalled f\<rparr>;
          nextStatus = readStatus f;
          s = (if \<not> helperInstalled s \<and> gs_state nextStatus = ErrorState \<and> gs_message nextStatus = failed_message
               then s\<lparr>installError := Some updated_message\<rparr> else s)
      in if signature nextStatus \<noteq> lastStatusSignature s
         then s\<lparr>lastStatusSignature := signature nextStatus, status := nextStatus\<rparr>
         else s)"

text \<open>\<open>hash\<close> is Swift's hash of a string, seeded anew in each process.\<close>

definition refreshLogs :: "(string \<Rightarrow> int) \<Rightarrow> app_files \<Rightarrow> app_store \<Rightarrow> app_store" where
  "refreshLogs hash f s =
     (let nextLogs = readLogs f; sig = print_int (hash nextLogs)
      in if sig \<noteq> lastLogsSignature s then s\<lparr>lastLogsSignature := sig, logs := nextLogs\<rparr> else s)"

definition shouldReadLogs :: "app_store \<Rightarrow> bool" where
  "shouldReadLogs s \<longleftrightarrow> currentPage s = LogsPage"

definition refresh :: "(string \<Rightarrow> int) \<Rightarrow> app_files \<Rightarrow> bool option \<Rightarrow> app_store \<Rightarrow> app_store" where
  "refresh hash f includeLogs s =
     (let s = refreshStatus f s
      in if (case includeLogs of None \<Rightarrow> shouldReadLogs s | Some b \<Rightarrow> b) then refreshLogs hash f s else s)"

definition targetPollingInterval :: "app_store \<Rightarrow> nat" where
  "targetPollingInterval s = (if shouldReadLogs s then 2 else 4)"

definition invalidate :: "app_store \<Rightarrow> app_store" where
  "invalidate s = (case timer s of None \<Rightarrow> s | Some t \<Rightarrow> s\<lparr>timers := filter (\<lambda>(u, _). u \<noteq> t) (timers s)\<rparr>)"

definition schedulePolling :: "bool \<Rightarrow> app_store \<Rightarrow> app_store" where
  "schedulePolling force s =
     (if \<not> isObserving s then s
      else
        let interval = targetPollingInterval s in
        if \<not> (force \<or> timer s = None \<or> pollingInterval s \<noteq> Some interval) then s
        else
          let s = (invalidate s)\<lparr>pollingInterval := Some interval\<rparr>
          in s\<lparr>timers := timers s @ [(next_timer s, interval)], timer := Some (next_timer s), next_timer := next_timer s + 1\<rparr>)"

definition handlePageChange :: "(string \<Rightarrow> int) \<Rightarrow> app_files \<Rightarrow> page \<Rightarrow> app_store \<Rightarrow> app_store" where
  "handlePageChange hash f oldPage s =
     (if oldPage = currentPage s then s
      else
        let s = (if currentPage s = LogsPage then refreshLogs hash f s else s)
        in if isObserving s then schedulePolling True s else s)"

definition set_page :: "(string \<Rightarrow> int) \<Rightarrow> app_files \<Rightarrow> page \<Rightarrow> app_store \<Rightarrow> app_store" where
  "set_page hash f p s = handlePageChange hash f (currentPage s) (s\<lparr>currentPage := p\<rparr>)"

definition startObserving :: "(string \<Rightarrow> int) \<Rightarrow> app_files \<Rightarrow> app_store \<Rightarrow> app_store" where
  "startObserving hash f s = schedulePolling True (refresh hash f None (s\<lparr>isObserving := True\<rparr>))"

definition stopObserving :: "app_store \<Rightarrow> app_store" where
  "stopObserving s = (invalidate (s\<lparr>isObserving := False\<rparr>))\<lparr>timer := None, pollingInterval := None\<rparr>"

definition resetTransientState :: "(string \<Rightarrow> int) \<Rightarrow> app_files \<Rightarrow> app_store \<Rightarrow> app_store" where
  "resetTransientState hash f s = (set_page hash f MainPage s)\<lparr>logs := no_logs, lastLogsSignature := []\<rparr>"

text \<open>The app ignores a command that could not be written.\<close>

definition send :: "app_files \<Rightarrow> string \<Rightarrow> app_store \<Rightarrow> app_store" where
  "send f c s =
     (case send_file c of
        None \<Rightarrow> s
      | Some d \<Rightarrow> if command_writable f then s\<lparr>sent := sent s @ [d]\<rparr> else s)"

definition refreshSoon :: "bool \<Rightarrow> app_store \<Rightarrow> app_store" where
  "refreshSoon includeLogs s = s\<lparr>pending := pending s @ [Some includeLogs, Some includeLogs]\<rparr>"

definition store_start :: "app_files \<Rightarrow> settings_store \<Rightarrow> app_store \<Rightarrow> app_store" where
  "store_start f cfg s =
     refreshSoon True (send f (buildStartCommand cfg)
       (s\<lparr>status := (status s)\<lparr>gs_state := Starting, gs_message := starting_message\<rparr>\<rparr>))"

definition store_stop :: "app_files \<Rightarrow> app_store \<Rightarrow> app_store" where
  "store_stop f s =
     refreshSoon True (send f ''stop''
       (s\<lparr>status := (status s)\<lparr>gs_state := Stopping, gs_message := stopping_message\<rparr>\<rparr>))"

definition store_cleanup :: "app_files \<Rightarrow> app_store \<Rightarrow> app_store" where
  "store_cleanup f s = refreshSoon False (stopObserving (send f ''cleanup'' s))"

text \<open>\<open>failed\<close> is the error of the installer, or none; \<open>f\<close> the files after it has run.\<close>

definition installHelper :: "(string \<Rightarrow> int) \<Rightarrow> app_files \<Rightarrow> string option \<Rightarrow> app_store \<Rightarrow> app_store" where
  "installHelper hash f failed s =
     (let s = s\<lparr>installError := None\<rparr> in
      case failed of
        Some e \<Rightarrow> s\<lparr>installError := Some e\<rparr>
      | None \<Rightarrow>
          let s = s\<lparr>helperInstalled := isInstalled f\<rparr>;
              s = s\<lparr>onboardingCompleted := helperInstalled s\<rparr>
          in if helperInstalled s
             then refresh hash f (Some True) (send f ''status'' (s\<lparr>storedVersion := Some onboardingVersion\<rparr>))
             else s\<lparr>installError := Some incomplete_message\<rparr>)"

definition store_init :: "(string \<Rightarrow> int) \<Rightarrow> app_files \<Rightarrow> string option \<Rightarrow> app_store" where
  "store_init hash f stored =
     refresh hash f None
       \<lparr>helperInstalled = isInstalled f, onboardingCompleted = isInstalled f \<and> stored = Some onboardingVersion,
        storedVersion = stored, status = empty_status, logs = no_logs, installError = None, currentPage = MainPage,
        timer = None, timers = [], next_timer = 0, pollingInterval = None, isObserving = False,
        lastStatusSignature = [], lastLogsSignature = [], pending = [], sent = []\<rparr>"

section \<open>Events\<close>

text \<open>
  What happens to the store: its files change, the user presses the button (\<open>Install\<close> is the
  press that installs, with the installer's outcome and the files after it), the window opens
  and closes (\<open>AppDelegate.swift\<close>), pages change, timers fire, which enqueues a refresh, and
  the main queue runs what is enqueued.
\<close>

datatype app_event =
    FilesBecome app_files | Install "string option" app_files | PressPrimary settings_store
  | WindowOpens | WindowCloses | AppTerminates | AppRefreshes | SetPage page | TimerFires nat | RunPending nat

fun store_step :: "(string \<Rightarrow> int) \<Rightarrow> app_event \<Rightarrow> app_files \<times> app_store \<Rightarrow> (app_files \<times> app_store) option" where
  "store_step hash (FilesBecome f') (f, s) = Some (f', s)"
| "store_step hash (Install failed f') (f, s) = Some (f', installHelper hash f' failed s)"
| "store_step hash (PressPrimary cfg) (f, s) =
     (case performPrimaryAction (helperInstalled s) (gs_state (status s)) of
        InstallHelper \<Rightarrow> None
      | SendStop \<Rightarrow> Some (f, store_stop f s)
      | SendStart \<Rightarrow> Some (f, store_start f cfg s))"
| "store_step hash WindowOpens (f, s) = Some (f, startObserving hash f s)"
| "store_step hash WindowCloses (f, s) = Some (f, resetTransientState hash f (stopObserving s))"
| "store_step hash AppTerminates (f, s) = Some (f, store_cleanup f (stopObserving s))"
| "store_step hash AppRefreshes (f, s) = Some (f, refresh hash f None s)"
| "store_step hash (SetPage p) (f, s) = Some (f, set_page hash f p s)"
| "store_step hash (TimerFires t) (f, s) =
     (if t \<in> fst ` set (timers s) then Some (f, s\<lparr>pending := pending s @ [None]\<rparr>) else None)"
| "store_step hash (RunPending i) (f, s) =
     (if i < length (pending s)
      then Some (f, refresh hash f (pending s ! i) (s\<lparr>pending := take i (pending s) @ drop (Suc i) (pending s)\<rparr>))
      else None)"

primrec store_run :: "(string \<Rightarrow> int) \<Rightarrow> app_event list \<Rightarrow> app_files \<times> app_store \<Rightarrow> (app_files \<times> app_store) option" where
  "store_run hash [] x = Some x"
| "store_run hash (e # es) x = Option.bind (store_step hash e x) (store_run hash es)"

section \<open>Signatures\<close>

lemma print_nat_inj: "print_nat m = print_nat n \<Longrightarrow> m = n"
  by (metis decimal_print_nat option.inject)

lemma print_nat_chars: "c \<in> set (print_nat n) \<Longrightarrow> c \<noteq> bar \<and> c \<noteq> CHR ''-''"
proof -
  have "digit_value bar = None" "digit_value (CHR ''-'') = None" by code_simp+
  then show "c \<in> set (print_nat n) \<Longrightarrow> c \<noteq> bar \<and> c \<noteq> CHR ''-''" using print_nat_shape(2) [of n] by auto
qed

lemma print_int_no_bar: "bar \<notin> set (print_int i)"
  using print_nat_chars by (auto simp: print_int_def bar_def)

lemma print_int_inj: "print_int i = print_int j \<Longrightarrow> i = j"
proof -
  have h: "hd (print_nat n) \<noteq> CHR ''-''" for n
    using print_nat_shape(1) [of n] print_nat_chars [of "hd (print_nat n)" n] by auto
  have "print_nat n \<noteq> CHR ''-'' # t" "CHR ''-'' # t \<noteq> print_nat n" for n t
    using h [of n] by (metis list.sel(1))+
  then show "print_int i = print_int j \<Longrightarrow> i = j"
    by (auto simp: print_int_def dest!: print_nat_inj split: if_splits)
qed

lemma rawValue_inj: "rawValue a = rawValue b \<Longrightarrow> a = b"
  by (cases a; cases b) simp_all

lemma rawValue_no_bar: "bar \<notin> set (rawValue a)"
  by (cases a) (simp_all add: bar_def)

lemma split_at_bar:
  assumes "x @ bar # y = x' @ bar # y'" and "bar \<notin> set x" and "bar \<notin> set x'"
  shows "x = x' \<and> y = y'"
proof -
  have "takeWhile (\<lambda>c. c \<noteq> bar) (z @ bar # t) = z" if "bar \<notin> set z" for z t
    using that by (induction z) auto
  with assms show ?thesis by (metis append_same_eq list.inject same_append_eq)
qed

text \<open>
  Statuses whose signatures tell them apart: no bar in the message, and not the process number
  that stands for none.  The helper writes only such.
\<close>

definition plain_status :: "gecit_status \<Rightarrow> bool" where
  "plain_status st \<longleftrightarrow> bar \<notin> set (gs_message st) \<and> gs_pid st \<noteq> Some (- 1)"

lemma signature_inj:
  assumes "signature st = signature st'" and "plain_status st" and "plain_status st'"
  shows "st = st'"
proof -
  let ?p = "\<lambda>st. print_int (case gs_pid st of None \<Rightarrow> -1 | Some p \<Rightarrow> p)"
  have 1: "rawValue (gs_state st) = rawValue (gs_state st') \<and>
    ?p st @ bar # gs_message st @ bar # gs_updatedAt st = ?p st' @ bar # gs_message st' @ bar # gs_updatedAt st'"
    using assms(1) rawValue_no_bar by (intro split_at_bar) (auto simp: signature_def)
  then have 2: "?p st = ?p st' \<and> gs_message st @ bar # gs_updatedAt st = gs_message st' @ bar # gs_updatedAt st'"
    using print_int_no_bar by (intro split_at_bar) auto
  then have 3: "gs_message st = gs_message st' \<and> gs_updatedAt st = gs_updatedAt st'"
    using assms(2,3) by (intro split_at_bar) (auto simp: plain_status_def)
  have "gs_pid st = gs_pid st'"
    using 2 assms(2,3) by (auto simp: plain_status_def dest!: print_int_inj split: option.splits)
  with 1 3 show ?thesis by (intro gecit_status.equality) (auto dest: rawValue_inj)
qed

lemma empty_status_plain: "plain_status empty_status"
  by (simp add: plain_status_def empty_status_def bar_def dotless_i_def)

section \<open>The timer\<close>

text \<open>While it observes, the store has one timer, with the interval of its page; else none.\<close>

definition timer_ok :: "app_store \<Rightarrow> bool" where
  "timer_ok s \<longleftrightarrow>
     (if isObserving s
      then \<exists>t. timer s = Some t \<and> timers s = [(t, targetPollingInterval s)] \<and> pollingInterval s = Some (targetPollingInterval s)
      else timer s = None \<and> timers s = [] \<and> pollingInterval s = None)"

definition same_timer :: "app_store \<Rightarrow> app_store \<Rightarrow> bool" where
  "same_timer s s' \<longleftrightarrow> timer s' = timer s \<and> timers s' = timers s \<and> pollingInterval s' = pollingInterval s \<and>
     isObserving s' = isObserving s \<and> currentPage s' = currentPage s"

lemma same_timer_ok: "same_timer s s' \<Longrightarrow> timer_ok s' = timer_ok s"
  by (simp add: same_timer_def timer_ok_def targetPollingInterval_def shouldReadLogs_def)

lemma same_timer_intros:
  "same_timer s s" "same_timer s s' \<Longrightarrow> same_timer s' s'' \<Longrightarrow> same_timer s s''"
  "same_timer s (s\<lparr>status := st\<rparr>)" "same_timer s (s\<lparr>pending := p\<rparr>)" "same_timer s (s\<lparr>helperInstalled := b\<rparr>)"
  "same_timer s (s\<lparr>installError := e\<rparr>)" "same_timer s (s\<lparr>logs := l\<rparr>)" "same_timer s (s\<lparr>lastLogsSignature := l\<rparr>)"
  by (simp_all add: same_timer_def)

lemma refreshLogs_timer: "same_timer s (refreshLogs hash f s)"
  by (simp add: same_timer_def refreshLogs_def Let_def)

lemma refreshStatus_timer: "same_timer s (refreshStatus f s)"
  by (simp add: same_timer_def refreshStatus_def Let_def)

lemma refresh_timer: "same_timer s (refresh hash f b s)"
  using refreshLogs_timer refreshStatus_timer same_timer_intros(2)
  by (simp add: refresh_def Let_def split: option.split) blast

lemma send_timer: "same_timer s (send f c s)"
  by (simp add: same_timer_def send_def split: option.split)

lemma press_timer: "same_timer s (store_start f cfg s)" "same_timer s (store_stop f s)"
  by (auto simp: store_start_def store_stop_def refreshSoon_def same_timer_def send_def split: option.split)

lemma installHelper_timer: "same_timer s (installHelper hash f failed s)"
proof -
  have "same_timer s (refresh hash f b (send f c (s\<lparr>installError := e, helperInstalled := h, onboardingCompleted := o', storedVersion := v\<rparr>)))"
    for b c e h o' v
    using refresh_timer send_timer same_timer_intros(2) by (fastforce simp: same_timer_def)
  then show ?thesis
    by (auto simp: installHelper_def Let_def same_timer_def split: option.split)
qed

lemma invalidate_ok: "timer_ok s \<Longrightarrow> timers (invalidate s) = []"
  by (auto simp: timer_ok_def invalidate_def split: option.split if_splits)

lemma invalidate_sel [simp]:
  "isObserving (invalidate s) = isObserving s" "currentPage (invalidate s) = currentPage s" "status (invalidate s) = status s"
  "lastStatusSignature (invalidate s) = lastStatusSignature s" "helperInstalled (invalidate s) = helperInstalled s"
  "next_timer (invalidate s) = next_timer s"
  by (simp_all add: invalidate_def split: option.split)

lemma schedulePolling_ok: "isObserving s \<Longrightarrow> timers (invalidate s) = [] \<Longrightarrow> timer_ok (schedulePolling True s)"
  by (simp add: schedulePolling_def timer_ok_def Let_def targetPollingInterval_def shouldReadLogs_def)

lemma stopObserving_ok: "timer_ok s \<Longrightarrow> timer_ok (stopObserving s)"
proof -
  assume t: "timer_ok s"
  have "timers (invalidate (s\<lparr>isObserving := False\<rparr>)) = timers (invalidate s)" by (simp add: invalidate_def split: option.split)
  with invalidate_ok [OF t] show ?thesis by (simp add: stopObserving_def timer_ok_def)
qed

lemma invalidate_page: "timers (invalidate (s\<lparr>currentPage := p\<rparr>)) = timers (invalidate s)"
  "timers (invalidate (s\<lparr>isObserving := b\<rparr>)) = timers (invalidate s)"
  by (simp_all add: invalidate_def split: option.split)

lemma same_timer_invalidate: "same_timer s s' \<Longrightarrow> timers (invalidate s') = timers (invalidate s)"
  by (simp add: invalidate_def same_timer_def split: option.split)

lemma set_page_ok: assumes "timer_ok s" shows "timer_ok (set_page hash f p s)"
proof -
  let ?s = "s\<lparr>currentPage := p\<rparr>"
  let ?t = "if p = LogsPage then refreshLogs hash f ?s else ?s"
  have same: "same_timer ?s ?t" using refreshLogs_timer same_timer_intros(1) by simp
  have "timers (invalidate ?t) = []" using same_timer_invalidate [OF same] invalidate_page(1) invalidate_ok [OF assms] by simp
  then have "timer_ok (schedulePolling True ?t)" if "isObserving s"
    using schedulePolling_ok [of ?t] that same by (simp add: same_timer_def)
  moreover have "timer_ok ?t" if "\<not> isObserving s"
    using assms that same_timer_ok [OF same] by (simp add: timer_ok_def)
  moreover have "timer_ok ?s" if "currentPage s = p"
    using assms that same_timer_ok [of s ?s] by (simp add: same_timer_def)
  ultimately show ?thesis using same by (auto simp: set_page_def handlePageChange_def Let_def same_timer_def)
qed

lemma startObserving_ok: assumes "timer_ok s" shows "timer_ok (startObserving hash f s)"
proof -
  let ?t = "refresh hash f None (s\<lparr>isObserving := True\<rparr>)"
  have same: "same_timer (s\<lparr>isObserving := True\<rparr>) ?t" by (rule refresh_timer)
  have "timers (invalidate ?t) = []" using same_timer_invalidate [OF same] invalidate_page(2) invalidate_ok [OF assms] by simp
  with same show ?thesis unfolding startObserving_def by (intro schedulePolling_ok) (simp_all add: same_timer_def)
qed

lemma store_step_timer:
  assumes "store_step hash e (f, s) = Some (f', s')" and "timer_ok s"
  shows "timer_ok s'"
proof (cases e)
  case (Install failed f1)
  with assms same_timer_ok [OF installHelper_timer] show ?thesis by auto
next
  case (PressPrimary cfg)
  with assms same_timer_ok [OF press_timer(1)] same_timer_ok [OF press_timer(2)] show ?thesis
    by (auto split: app_action.splits)
next
  case WindowOpens
  with assms startObserving_ok show ?thesis by auto
next
  case WindowCloses
  let ?t = "set_page hash f MainPage (stopObserving s)"
  have "timer_ok ?t" by (intro set_page_ok stopObserving_ok assms(2))
  moreover have "same_timer ?t (?t\<lparr>logs := no_logs, lastLogsSignature := []\<rparr>)" by (simp add: same_timer_def)
  ultimately show ?thesis using assms(1) WindowCloses same_timer_ok by (auto simp: resetTransientState_def)
next
  case AppTerminates
  have "timer_ok (send f c (stopObserving s))" for c
    using stopObserving_ok [OF assms(2)] same_timer_ok [OF send_timer] by simp
  from stopObserving_ok [OF this] have "timer_ok (refreshSoon False (stopObserving (send f ''cleanup'' (stopObserving s))))"
    using same_timer_ok [OF same_timer_intros(4)] by (simp add: refreshSoon_def)
  with assms(1) AppTerminates show ?thesis by (auto simp: store_cleanup_def)
next
  case AppRefreshes
  with assms same_timer_ok [OF refresh_timer] show ?thesis by auto
next
  case (SetPage p)
  with assms set_page_ok show ?thesis by auto
next
  case (RunPending i)
  with assms same_timer_ok [OF refresh_timer] same_timer_ok [OF same_timer_intros(4)] show ?thesis
    by (auto split: if_splits)
qed (use assms same_timer_ok [OF same_timer_intros(4)] in \<open>auto split: if_splits\<close>)


lemma store_init_timer: "timer_ok (store_init hash f stored)"
  unfolding store_init_def by (subst same_timer_ok [OF refresh_timer]) (simp add: timer_ok_def)

section \<open>What is shown\<close>

text \<open>A button sets the state and the message, and keeps the process number and the time.\<close>

definition pressed :: "gecit_status \<Rightarrow> gecit_status set" where
  "pressed st = {st\<lparr>gs_state := Starting, gs_message := starting_message\<rparr>,
     st\<lparr>gs_state := Stopping, gs_message := stopping_message\<rparr>}"

definition adopted :: "gecit_status \<Rightarrow> app_store \<Rightarrow> bool" where
  "adopted st s \<longleftrightarrow> plain_status st \<and> lastStatusSignature s = signature st \<and> (status s = st \<or> status s \<in> pressed st)"

definition same_status :: "app_store \<Rightarrow> app_store \<Rightarrow> bool" where
  "same_status s s' \<longleftrightarrow> status s' = status s \<and> lastStatusSignature s' = lastStatusSignature s"

lemma same_status_adopted: "same_status s s' \<Longrightarrow> adopted st s' = adopted st s"
  by (simp add: same_status_def adopted_def)

lemma signature_not_Nil: "signature st \<noteq> []"
  by (simp add: signature_def)

lemma refreshLogs_status [simp]: "status (refreshLogs hash f s) = status s"
  "lastStatusSignature (refreshLogs hash f s) = lastStatusSignature s"
  by (simp_all add: refreshLogs_def Let_def)

lemma refresh_status:
  "status (refresh hash f b s) = (if signature (readStatus f) = lastStatusSignature s then status s else readStatus f)"
  "lastStatusSignature (refresh hash f b s) = signature (readStatus f)"
  by (simp_all add: refresh_def refreshStatus_def Let_def split: option.split)

lemma refresh_adopts:
  assumes "adopted st s" and "plain_status (readStatus f)"
  shows "adopted (readStatus f) (refresh hash f b s)"
proof (cases "signature (readStatus f) = lastStatusSignature s")
  case True
  then have "readStatus f = st" using assms by (auto simp: adopted_def intro: signature_inj)
  with assms(1) True show ?thesis by (simp add: adopted_def refresh_status)
next
  case False
  with assms(2) show ?thesis by (simp add: adopted_def refresh_status)
qed

lemma send_status [simp]: "status (send f c s) = status s" "lastStatusSignature (send f c s) = lastStatusSignature s"
  by (simp_all add: send_def split: option.split)

lemma refreshSoon_status [simp]: "status (refreshSoon b s) = status s" "lastStatusSignature (refreshSoon b s) = lastStatusSignature s"
  by (simp_all add: refreshSoon_def)

lemma pressed_twice: "st' \<in> pressed st \<Longrightarrow> pressed st' = pressed st"
  by (auto simp: pressed_def)

lemma press_adopted:
  assumes "adopted st s"
  shows "adopted st (store_start f cfg s)" "adopted st (store_stop f s)"
    "gs_state (status (store_start f cfg s)) = Starting" "gs_state (status (store_stop f s)) = Stopping"
proof -
  have "(status s)\<lparr>gs_state := Starting, gs_message := starting_message\<rparr> \<in> pressed st"
    "(status s)\<lparr>gs_state := Stopping, gs_message := stopping_message\<rparr> \<in> pressed st"
    using assms by (auto simp: adopted_def pressed_def)
  with assms show "adopted st (store_start f cfg s)" "adopted st (store_stop f s)"
    by (simp_all add: adopted_def store_start_def store_stop_def)
qed (simp_all add: store_start_def store_stop_def)

lemma schedulePolling_status [simp]: "status (schedulePolling b s) = status s"
  "lastStatusSignature (schedulePolling b s) = lastStatusSignature s"
  by (simp_all add: schedulePolling_def Let_def)

lemma set_page_status: "same_status s (set_page hash f p s)"
  by (simp add: same_status_def set_page_def handlePageChange_def Let_def)

lemma stopObserving_status: "same_status s (stopObserving s)"
  by (simp add: same_status_def stopObserving_def)

fun event_files :: "app_event \<Rightarrow> app_files option" where
  "event_files (FilesBecome f) = Some f"
| "event_files (Install _ f) = Some f"
| "event_files _ = None"

definition adopted_some :: "app_store \<Rightarrow> bool" where
  "adopted_some s \<longleftrightarrow> (\<exists>st. adopted st s)"

lemma same_status_adopted_some: "same_status s s' \<Longrightarrow> adopted_some s' = adopted_some s"
  by (simp add: adopted_some_def same_status_adopted)

lemma refresh_adopted_some: "adopted_some s \<Longrightarrow> plain_status (readStatus f) \<Longrightarrow> adopted_some (refresh hash f b s)"
  by (auto simp: adopted_some_def intro: refresh_adopts)

lemma adopted_some_simps [simp]:
  "adopted_some (s\<lparr>installError := e\<rparr>) = adopted_some s" "adopted_some (s\<lparr>helperInstalled := h\<rparr>) = adopted_some s"
  "adopted_some (s\<lparr>onboardingCompleted := h\<rparr>) = adopted_some s" "adopted_some (s\<lparr>storedVersion := v\<rparr>) = adopted_some s"
  "adopted_some (s\<lparr>pending := p\<rparr>) = adopted_some s" "adopted_some (s\<lparr>isObserving := h\<rparr>) = adopted_some s"
  "adopted_some (send f c s) = adopted_some s"
  by (simp_all add: adopted_some_def adopted_def)

lemma press_adopted_some: "adopted_some s \<Longrightarrow> adopted_some (store_start f cfg s)" "adopted_some s \<Longrightarrow> adopted_some (store_stop f s)"
  unfolding adopted_some_def using press_adopted by blast+

lemma installHelper_adopted:
  "adopted_some s \<Longrightarrow> plain_status (readStatus f) \<Longrightarrow> adopted_some (installHelper hash f failed s)"
  by (simp add: installHelper_def Let_def refresh_adopted_some split: option.split)

lemma store_step_adopted:
  assumes "store_step hash e (f, s) = Some (f', s')" and "adopted_some s" and "plain_status (readStatus f)"
    and "\<forall>g \<in> set_option (event_files e). plain_status (readStatus g)"
  shows "adopted_some s' \<and> plain_status (readStatus f')"
proof (cases e)
  case (Install failed f1)
  with assms installHelper_adopted show ?thesis by auto
next
  case (PressPrimary cfg)
  with assms press_adopted_some show ?thesis by (auto split: app_action.splits)
next
  case WindowOpens
  then have s': "same_status (refresh hash f None (s\<lparr>isObserving := True\<rparr>)) s'" "f' = f"
    using assms(1) by (auto simp: startObserving_def same_status_def)
  have "adopted_some (s\<lparr>isObserving := True\<rparr>)" using assms(2) by simp
  from refresh_adopted_some [OF this assms(3)] show ?thesis using same_status_adopted_some [OF s'(1)] s'(2) assms(3) by simp
next
  case WindowCloses
  then have "same_status s s'" "f' = f"
    using assms(1) set_page_status [of "stopObserving s" hash f MainPage] stopObserving_status [of s]
    by (auto simp: resetTransientState_def same_status_def)
  then show ?thesis using assms(2,3) same_status_adopted_some by blast
next
  case AppTerminates
  then have "same_status s s'" "f' = f"
    using assms(1) by (auto simp: store_cleanup_def same_status_def stopObserving_def)
  then show ?thesis using assms(2,3) same_status_adopted_some by blast
next
  case AppRefreshes
  with assms refresh_adopted_some show ?thesis by auto
next
  case (SetPage p)
  with assms set_page_status [of s hash f p] same_status_adopted_some show ?thesis by auto
next
  case (RunPending i)
  with assms refresh_adopted_some show ?thesis by (auto split: if_splits)
next
  case (TimerFires t)
  with assms show ?thesis by (auto split: if_splits)
qed (use assms in auto)

interpretation store_runs: event_runs "store_step hash" "store_run hash" for hash
  by unfold_locales simp_all

lemma store_run_inv:
  assumes "store_run hash es (f, s) = Some (f', s')" and "adopted_some s" and "timer_ok s" and "plain_status (readStatus f)"
    and "\<forall>e \<in> set es. \<forall>g \<in> set_option (event_files e). plain_status (readStatus g)"
  shows "adopted_some s' \<and> timer_ok s' \<and> plain_status (readStatus f')"
proof -
  let ?I = "\<lambda>(f, s). adopted_some s \<and> timer_ok s \<and> plain_status (readStatus f)"
  have "?I (f', s')"
    by (rule store_runs.run_keeps [where I = ?I, OF assms(1)])
       (use assms store_step_adopted store_step_timer in \<open>auto simp del: store_step.simps\<close>)
  then show ?thesis by simp
qed

lemma store_init_adopted: "plain_status (readStatus f) \<Longrightarrow> adopted_some (store_init hash f stored)"
  unfolding adopted_some_def
  by (rule exI [of _ "readStatus f"]) (simp add: adopted_def store_init_def refresh_status signature_not_Nil)

section \<open>Properties\<close>

text \<open>
  C22: The macOS app keeps up with its helper.  In every interleaving of button presses, windows,
  pages, timers and changes of the files, a refresh shows the status in the file, or what the
  user asked for since that status was first seen; any other status the helper writes then is
  shown by the next refresh, whatever button was pressed.  There is exactly one polling timer
  while a window is open, with the interval of its page, and none otherwise.
\<close>

theorem store_shows_helper:
  assumes "store_run hash es (f0, store_init hash f0 stored) = Some (f, s)" and "plain_status (readStatus f0)"
    and "\<forall>e \<in> set es. \<forall>g \<in> set_option (event_files e). plain_status (readStatus g)"
  shows "let s1 = refresh hash f b s in
    (status s1 = readStatus f \<or> status s1 \<in> pressed (readStatus f)) \<and>
    (\<forall>f' cfg b'. plain_status (readStatus f') \<and> readStatus f' \<noteq> readStatus f \<longrightarrow>
      status (refresh hash f' b' (store_start f cfg s1)) = readStatus f' \<and>
      status (refresh hash f' b' (store_stop f s1)) = readStatus f') \<and>
    (if isObserving s then \<exists>t. timers s = [(t, if currentPage s = LogsPage then 2 else 4)] else timers s = [])"
proof -
  from store_run_inv [OF assms(1) store_init_adopted [OF assms(2)] store_init_timer assms(2,3)]
  have i: "adopted_some s" "timer_ok s" "plain_status (readStatus f)" by auto
  then obtain st where "adopted st s" by (auto simp: adopted_some_def)
  from refresh_adopts [OF this i(3), of hash b] have a: "adopted (readStatus f) (refresh hash f b s)" .
  have "status (refresh hash f' b' t) = readStatus f'"
    if "adopted (readStatus f) t" "plain_status (readStatus f')" "readStatus f' \<noteq> readStatus f" for f' b' t
    using that i(3) signature_inj by (auto simp: adopted_def refresh_status)
  with a press_adopted(1,2) [OF a] i(2) show ?thesis
    by (auto simp: Let_def adopted_def timer_ok_def targetPollingInterval_def shouldReadLogs_def)
qed

definition demo_files :: "run_state \<Rightarrow> string \<Rightarrow> app_files" where
  "demo_files st time = \<lparr>status_data = Some \<lparr>gs_state = st, gs_pid = None, gs_message = ''Gecit durdu'', gs_updatedAt = time\<rparr>,
     log_text = None, script_there = True, plist_there = True, binary_there = True, version_text = Some (''5'' @ [newline]),
     command_writable = True\<rparr>"

lemma demo_files_plain: "plain_status (readStatus (demo_files st time))"
  by (simp add: plain_status_def readStatus_def demo_files_def bar_def)

lemma demo_files_installed: "isInstalled (demo_files st time)"
proof -
  have "TrimSpace (''5'' @ [newline]) = ''5''" by code_simp
  then show ?thesis by (simp add: isInstalled_def demo_files_def helperVersion_def)
qed

text \<open>The window opens on a stopped helper, the logs are shown, and the user starts.\<close>

theorem store_shows_helper_witness:
  "\<exists>s. store_run (\<lambda>_. 0) [WindowOpens, SetPage LogsPage, PressPrimary default_settings]
      (demo_files Stopped ''12:00'', store_init (\<lambda>_. 0) (demo_files Stopped ''12:00'') None) = Some (demo_files Stopped ''12:00'', s) \<and>
    (\<exists>t. timers s = [(t, 2)]) \<and> gs_state (status (refresh (\<lambda>_. 0) (demo_files Stopped ''12:00'') None s)) = Starting"
proof -
  let ?f = "demo_files Stopped ''12:00''"
  let ?s0 = "set_page (\<lambda>_. 0) ?f LogsPage (startObserving (\<lambda>_. 0) ?f (store_init (\<lambda>_. 0) ?f None))"
  have st: "gs_state (readStatus ?f) = Stopped" by (simp add: readStatus_def demo_files_def)
  have d: "helperInstalled ?s0 \<and> status ?s0 = readStatus ?f \<and> isObserving ?s0 \<and> currentPage ?s0 = LogsPage \<and>
      lastStatusSignature ?s0 = signature (readStatus ?f)"
    using demo_files_installed [of Stopped "''12:00''"] signature_not_Nil
    by (simp add: set_page_def handlePageChange_def startObserving_def store_init_def refresh_def refreshStatus_def refreshLogs_def
        schedulePolling_def Let_def shouldReadLogs_def)
  then have r: "store_run (\<lambda>_. 0) [WindowOpens, SetPage LogsPage, PressPrimary default_settings] (?f, store_init (\<lambda>_. 0) ?f None) =
      Some (?f, store_start ?f default_settings ?s0)"
    using st by (simp add: performPrimaryAction_def canStop_def)
  have "\<forall>e \<in> set [WindowOpens, SetPage LogsPage, PressPrimary default_settings].
      \<forall>g \<in> set_option (event_files e). plain_status (readStatus g)" by simp
  from conjunct2 [OF conjunct2 [OF store_shows_helper [OF r demo_files_plain this, of None, unfolded Let_def]]]
  have "\<exists>t. timers (store_start ?f default_settings ?s0) = [(t, 2)]"
    using d press_timer(1) [of ?s0 ?f default_settings] by (simp add: same_timer_def)
  with r d show ?thesis by (auto simp: refresh_status store_start_def)
qed

text \<open>
  A command that gets lost is not noticed: while the status in the file stays as it was, no
  refresh replaces the state a button has set.  A start that was lost (as in \<open>stop_lost_in_race\<close>,
  or written for a helper that is not running) leaves the app at starting, however often it
  polls, and its button sends a stop.
\<close>

fun leaves_files :: "app_event \<Rightarrow> bool" where
  "leaves_files (FilesBecome _) = False"
| "leaves_files (Install _ _) = False"
| "leaves_files (PressPrimary _) = False"
| "leaves_files _ = True"

lemma quiet_step:
  assumes "store_step hash e (f, s) = Some (f', s')" and "leaves_files e" and "lastStatusSignature s = signature (readStatus f)"
  shows "f' = f \<and> same_status s s'"
proof (cases e)
  case WindowCloses
  then show ?thesis
    using assms(1) set_page_status [of "stopObserving s" hash f MainPage] stopObserving_status [of s]
    by (auto simp: resetTransientState_def same_status_def)
next
  case (SetPage p)
  then show ?thesis using assms(1) set_page_status [of s hash f p] by auto
qed (use assms in \<open>auto simp: same_status_def startObserving_def refresh_status store_cleanup_def stopObserving_def split: if_splits\<close>)

theorem lost_start_shows_starting:
  assumes "store_run hash es (f, store_start f cfg (refresh hash f b s)) = Some (f', s')" and "list_all leaves_files es"
  shows "gs_state (status s') = Starting \<and> (performPrimaryAction True (gs_state (status s')) = SendStop)"
proof -
  let ?s = "store_start f cfg (refresh hash f b s)"
  let ?I = "\<lambda>(g, t). g = f \<and> same_status ?s t"
  have sig: "lastStatusSignature ?s = signature (readStatus f)" by (simp add: store_start_def refresh_status)
  have "?I x'" if "e \<in> set es" "store_step hash e x = Some x'" "?I x" for e x x'
  proof -
    obtain t t' g' where x: "x = (f, t)" "x' = (g', t')" "same_status ?s t" using \<open>?I x\<close> by (cases x, cases x') auto
    have "leaves_files e" using assms(2) that(1) by (simp add: list_all_iff)
    from quiet_step [OF that(2) [unfolded x(1,2)] this] sig x show ?thesis by (simp add: same_status_def)
  qed
  with store_runs.run_keeps [where I = ?I, OF assms(1)] have "same_status ?s s'" by (force simp: same_status_def)
  then show ?thesis by (simp add: same_status_def store_start_def performPrimaryAction_def canStop_def)
qed

text \<open>The logs shown are the last 200 lines.\<close>

lemma Join_suffix: "ls \<noteq> [] \<Longrightarrow> suffix (Join (drop n ls) [c]) (Join ls [c])"
proof (induction n arbitrary: ls)
  case (Suc n)
  then obtain l ls' where l: "ls = l # ls'" by (cases ls) auto
  show ?case
  proof (cases ls')
    case (Cons l' ls'')
    then have "suffix (Join ls' [c]) (Join ls [c])" by (simp add: l suffix_def)
    moreover have "suffix (Join (drop n ls') [c]) (Join ls' [c])" using Suc.IH [of ls'] Cons by simp
    ultimately show ?thesis using l by (simp add: suffix_order.order_trans)
  qed (simp add: l)
qed simp

theorem readLogs_tail:
  "log_text f = Some txt \<Longrightarrow> suffix (readLogs f) txt \<and> (length (Split newline txt) \<le> 200 \<longrightarrow> readLogs f = txt)"
  using Join_suffix [of "Split newline txt" "length (Split newline txt) - 200" newline]
  by (simp add: readLogs_def suffix_lines_def Join_Split)

end
