(* ===== verification/Helper_Install.thy ===== *)
theory Helper_Install
  imports Runtime_Store
begin

text \<open>
  The installation of the macOS helper (\<open>GecitHelperInstaller.install\<close>,
  \<open>Installer/AdministratorScriptRunner.swift\<close> and the script of
  \<open>Installer/HelperInstallScriptBuilder.swift\<close>), which runs as root after the user has given a
  password, and what the app shows of its outcome.
\<close>

section \<open>The command for AppleScript\<close>

definition backslash :: char where "backslash = CHR 0x5C"
definition quote_char :: char where "quote_char = CHR 0x22"

text \<open>\<open>replacingOccurrences\<close> of one character.\<close>

definition replace_char :: "char \<Rightarrow> string \<Rightarrow> string \<Rightarrow> string" where
  "replace_char c r s = concat (map (\<lambda>x. if x = c then r else [x]) s)"

definition appleScriptEscaped :: "string \<Rightarrow> string" where
  "appleScriptEscaped s = replace_char quote_char [backslash, quote_char] (replace_char backslash [backslash, backslash] s)"

definition apple_script :: "string \<Rightarrow> string" where
  "apple_script path =
     ''do shell script '' @ [quote_char] @ ''/bin/bash '' @ [quote_char] @ '' & quoted form of '' @ [quote_char] @
     appleScriptEscaped path @ [quote_char] @ '' with administrator privileges''"

text \<open>
  How AppleScript reads a text literal after its opening quote: up to the next quote that no
  backslash precedes, a backslash making the next quote or backslash part of the text.  The
  other escapes (\<open>n\<close>, \<open>r\<close>, \<open>t\<close>) stand for the character they name.
\<close>

fun read_literal :: "string \<Rightarrow> (string \<times> string) option" where
  "read_literal [] = None"
| "read_literal (c # cs) =
     (if c = quote_char then Some ([], cs)
      else if c = backslash then
        (case cs of
           [] \<Rightarrow> None
         | d # ds \<Rightarrow>
             (case (if d = quote_char \<or> d = backslash then Some d
                    else if d = CHR ''n'' then Some newline
                    else if d = CHR ''r'' then Some carriage_return
                    else if d = CHR ''t'' then Some tab else None) of
                None \<Rightarrow> None
              | Some x \<Rightarrow> map_option (\<lambda>(t, rest). (x # t, rest)) (read_literal ds)))
      else map_option (\<lambda>(t, rest). (c # t, rest)) (read_literal cs))"

text \<open>\<open>quoted form\<close>: single quotes around the text, each single quote in it as four characters.\<close>

definition quoted_form :: "string \<Rightarrow> string" where
  "quoted_form s = single_quote @ replace_char (CHR 0x27) (single_quote @ [backslash] @ single_quote @ single_quote) s @ single_quote"

text \<open>How the shell reads a word of single-quoted parts and escaped characters.\<close>

fun shell_quoted :: "bool \<Rightarrow> string \<Rightarrow> string option" where
  "shell_quoted True [] = None"
| "shell_quoted True (c # cs) =
     (if c = CHR 0x27 then shell_quoted False cs else map_option (\<lambda>t. c # t) (shell_quoted True cs))"
| "shell_quoted False [] = Some []"
| "shell_quoted False (c # cs) =
     (if c = CHR 0x27 then shell_quoted True cs
      else if c = backslash then
        (case cs of [] \<Rightarrow> None | d # ds \<Rightarrow> map_option (\<lambda>t. d # t) (shell_quoted False ds))
      else map_option (\<lambda>t. c # t) (shell_quoted False cs))"

section \<open>The script\<close>

text \<open>
  Its commands in order, up to \<open>kickstart\<close>.  Under \<open>set -e\<close> the first that fails ends it;
  \<open>|| true\<close> keeps \<open>bootout\<close> from doing so.  \<open>works\<close> says which commands succeed, \<open>there\<close> whether
  the files to install still exist is part of that.
\<close>

datatype install_command =
    MkdirApp | InstallScript | InstallBinary | InstallPlist | WriteVersion | MkdirShared | TouchFiles
  | ChmodShared | ChmodFiles | ChownFiles | ChmodPid | ChownPid | Bootout | Bootstrap | Kickstart

record machine =
  m_files :: app_files
  m_console_user :: string
  m_pid_file :: bool
  m_loaded :: bool
  m_running :: bool

definition install_commands :: "machine \<Rightarrow> install_command list" where
  "install_commands m =
     [MkdirApp, InstallScript, InstallBinary, InstallPlist, WriteVersion, MkdirShared, TouchFiles, ChmodShared, ChmodFiles,
      ChownFiles] @ (if m_pid_file m then [ChmodPid, ChownPid] else []) @ [Bootout, Bootstrap, Kickstart]"

fun install_effect :: "install_command \<Rightarrow> machine \<Rightarrow> machine" where
  "install_effect InstallScript m = m\<lparr>m_files := (m_files m)\<lparr>script_there := True\<rparr>\<rparr>"
| "install_effect InstallBinary m = m\<lparr>m_files := (m_files m)\<lparr>binary_there := True\<rparr>\<rparr>"
| "install_effect InstallPlist m = m\<lparr>m_files := (m_files m)\<lparr>plist_there := True\<rparr>\<rparr>"
| "install_effect WriteVersion m = m\<lparr>m_files := (m_files m)\<lparr>version_text := Some (helperVersion @ [newline])\<rparr>\<rparr>"
| "install_effect Bootout m = m\<lparr>m_loaded := False, m_running := False\<rparr>"
| "install_effect Bootstrap m = m\<lparr>m_loaded := True, m_running := True\<rparr>"
| "install_effect Kickstart m = m\<lparr>m_running := True\<rparr>"
| "install_effect _ m = m"

fun run_commands :: "(install_command \<Rightarrow> bool) \<Rightarrow> install_command list \<Rightarrow> machine \<Rightarrow> bool \<times> machine" where
  "run_commands works [] m = (True, m)"
| "run_commands works (c # cs) m =
     (if works c then run_commands works cs (install_effect c m)
      else if c = Bootout then run_commands works cs m
      else (False, m))"

definition install_script :: "(install_command \<Rightarrow> bool) \<Rightarrow> machine \<Rightarrow> bool \<times> machine" where
  "install_script works m =
     (if m_console_user m = [] \<or> m_console_user m = ''root'' then (False, m)
      else run_commands works (install_commands m) m)"

text \<open>
  \<open>install\<close>: the binary of the app's bundle, the files in a new temporary directory (\<open>prepared\<close>
  says whether all of that worked), the password (\<open>granted\<close>) and the script's status; an error
  carries what the programs printed, or a text.
\<close>

definition denied_message :: string where
  "denied_message = ''Y'' @ [CHR 0xC3, CHR 0xB6] @ ''netici onay'' @ dotless_i @ '' ba'' @ s_cedilla @ ''ar'' @ dotless_i @
     ''s'' @ dotless_i @ ''z oldu''"

definition no_binary_message :: string where
  "no_binary_message = ''Uygulama paketinde gecit-darwin-arm64 bulunamad'' @ dotless_i @ ''.''"

definition install ::
    "bool \<Rightarrow> string option \<Rightarrow> bool \<Rightarrow> (install_command \<Rightarrow> bool) \<Rightarrow> string \<Rightarrow> machine \<Rightarrow> string option \<times> machine" where
  "install bundled prepare_error granted works out m =
     (if \<not> bundled then (Some no_binary_message, m)
      else case prepare_error of
        Some e \<Rightarrow> (Some e, m)
      | None \<Rightarrow>
          let failure = Some (if out = [] then denied_message else out) in
          if \<not> granted then (failure, m)
          else (case install_script works m of (done, m) \<Rightarrow> (if done then None else failure, m)))"

section \<open>Facts\<close>

lemma backslash_quote [simp]: "backslash \<noteq> quote_char" "quote_char \<noteq> backslash"
  by (simp_all add: backslash_def quote_char_def)

lemma replace_char_simps [simp]: "replace_char c r [] = []"
  "replace_char c r (x # s) = (if x = c then r else [x]) @ replace_char c r s"
  by (simp_all add: replace_char_def)

lemma replace_char_append [simp]: "replace_char c r (s @ t) = replace_char c r s @ replace_char c r t"
  by (simp add: replace_char_def)

lemma escaped_Cons:
  "appleScriptEscaped (c # s) =
    (if c = backslash then [backslash, backslash] else if c = quote_char then [backslash, quote_char] else [c]) @ appleScriptEscaped s"
  by (simp add: appleScriptEscaped_def)

lemma shell_quoted_inner: "shell_quoted True (replace_char (CHR 0x27) (single_quote @ [backslash] @ single_quote @ single_quote) s @ [CHR 0x27]) = Some s"
  by (induction s) (simp_all add: single_quote_def backslash_def)

lemma run_commands_app:
  "run_commands works (xs @ ys) m =
    (case run_commands works xs m of (True, m') \<Rightarrow> run_commands works ys m' | (False, m') \<Rightarrow> (False, m'))"
  by (induction xs arbitrary: m) (auto split: prod.split bool.split)

lemma helper_version_read: "TrimSpace (helperVersion @ [newline]) = helperVersion"
  unfolding helperVersion_def by code_simp

text \<open>A command that is done leaves what the commands before it did, but for the launchd job.\<close>

lemma installed_kept: "isInstalled (m_files m) \<Longrightarrow> isInstalled (m_files (install_effect c m))"
  by (cases c) (simp_all add: isInstalled_def helper_version_read)

lemma run_commands_installed: "isInstalled (m_files m) \<Longrightarrow> isInstalled (m_files (snd (run_commands works cs m)))"
  by (induction works cs m rule: run_commands.induct) (auto intro: installed_kept)

lemma first_commands:
  assumes "run_commands works [MkdirApp, InstallScript, InstallBinary, InstallPlist, WriteVersion] m = (True, m')"
  shows "isInstalled (m_files m')"
  using assms by (auto simp: isInstalled_def helper_version_read split: if_splits)

lemma install_commands_split:
  "install_commands m = [MkdirApp, InstallScript, InstallBinary, InstallPlist, WriteVersion] @
     ([MkdirShared, TouchFiles, ChmodShared, ChmodFiles, ChownFiles] @ (if m_pid_file m then [ChmodPid, ChownPid] else [])) @
     [Bootout, Bootstrap, Kickstart]"
  by (simp add: install_commands_def)

lemma last_commands:
  "run_commands works [Bootout, Bootstrap, Kickstart] m = (True, m') \<Longrightarrow> m_loaded m' \<and> m_running m'"
  by (auto split: if_splits)

section \<open>Properties\<close>

text \<open>
  The path of the install script reaches the shell of root as one word, the path itself,
  whatever characters it has: AppleScript reads the literal in the command back as the path,
  and the shell reads its quoted form back.
\<close>

theorem install_path_intact:
  "read_literal (appleScriptEscaped path @ quote_char # rest) = Some (path, rest) \<and>
   shell_quoted False (quoted_form path) = Some path"
proof
  show "read_literal (appleScriptEscaped path @ quote_char # rest) = Some (path, rest)"
    by (induction path) (simp_all add: escaped_Cons, simp add: appleScriptEscaped_def)
  show "shell_quoted False (quoted_form path) = Some path"
    using shell_quoted_inner [of path] by (simp add: quoted_form_def) (simp add: single_quote_def)
qed

text \<open>
  An installation that reports success has installed the helper and started it, and the app
  takes it for installed; one that is refused, or that finds no user at the console, changes
  nothing and leaves an error.
\<close>

theorem install_outcomes:
  assumes "install bundled prepare_error granted works out m = (err, m')"
  shows "(err = None \<longrightarrow> isInstalled (m_files m') \<and> m_loaded m' \<and> m_running m' \<and>
      helperInstalled (installHelper hash (m_files m') err s) \<and>
      onboardingCompleted (installHelper hash (m_files m') err s)) \<and>
    (\<not> bundled \<or> prepare_error \<noteq> None \<or> \<not> granted \<or> m_console_user m \<in> {[], ''root''} \<longrightarrow>
      m' = m \<and> err \<noteq> None \<and> installError (installHelper hash (m_files m') err s) = err)"
proof (intro conjI impI)
  assume "err = None"
  with assms have s: "run_commands works (install_commands m) m = (True, m')"
    by (auto simp: install_def install_script_def Let_def split: if_splits option.splits prod.splits)
  let ?mid = "[MkdirShared, TouchFiles, ChmodShared, ChmodFiles, ChownFiles] @ (if m_pid_file m then [ChmodPid, ChownPid] else [])"
  from s obtain m1 m2 where
    1: "run_commands works [MkdirApp, InstallScript, InstallBinary, InstallPlist, WriteVersion] m = (True, m1)" and
    2: "run_commands works ?mid m1 = (True, m2)" and 3: "run_commands works [Bootout, Bootstrap, Kickstart] m2 = (True, m')"
    unfolding install_commands_split run_commands_app [of works "[MkdirApp, InstallScript, InstallBinary, InstallPlist, WriteVersion]"]
      run_commands_app [of works ?mid]
    by (auto simp del: run_commands.simps split: prod.splits bool.splits)
  from run_commands_installed [OF first_commands [OF 1], of works ?mid] 2 have "isInstalled (m_files m2)" by simp
  from run_commands_installed [OF this, of works "[Bootout, Bootstrap, Kickstart]"] 3
  show i: "isInstalled (m_files m')" by (simp del: run_commands.simps)
  from last_commands [OF 3] show "m_loaded m'" "m_running m'" by simp_all
  have "helperInstalled (refresh hash f b t) = isInstalled f" "onboardingCompleted (refresh hash f b t) = onboardingCompleted t"
    for f b t by (simp_all add: refresh_def refreshStatus_def refreshLogs_def Let_def split: option.split)
  moreover have "onboardingCompleted (send f c t) = onboardingCompleted t" for f c t by (simp add: send_def split: option.split)
  ultimately show "helperInstalled (installHelper hash (m_files m') err s)" "onboardingCompleted (installHelper hash (m_files m') err s)"
    using i \<open>err = None\<close> by (simp_all add: installHelper_def Let_def)
next
  assume "\<not> bundled \<or> prepare_error \<noteq> None \<or> \<not> granted \<or> m_console_user m \<in> {[], ''root''}"
  with assms show "m' = m" "err \<noteq> None" by (auto simp: install_def install_script_def Let_def split: option.splits if_splits)
  then show "installError (installHelper hash (m_files m') err s) = err" by (auto simp: installHelper_def Let_def)
qed

text \<open>
  A failed installation can look like a good one: the script writes the version file before it
  hands the helper to launchd.  When only \<open>bootstrap\<close> fails, the install ends with an error and
  no helper is loaded, but the next refresh takes it for installed and offers a start, which
  nothing will ever read.
\<close>

theorem failed_install_looks_installed:
  assumes "m_console_user m \<notin> {[], ''root''}" and "status_data (m_files m) = None"
  shows "\<exists>m'. install True None True (\<lambda>c. c \<noteq> Bootstrap) [] m = (Some denied_message, m') \<and>
    \<not> m_loaded m' \<and> \<not> m_running m' \<and>
    (let s' = refresh hash (m_files m') None (installHelper hash (m_files m') (Some denied_message) (store_init hash (m_files m) None))
     in helperInstalled s' \<and> performPrimaryAction (helperInstalled s') (gs_state (status s')) = SendStart)"
proof -
  obtain m' where m': "run_commands (\<lambda>c. c \<noteq> Bootstrap) (install_commands m) m = (False, m')"
    "isInstalled (m_files m')" "\<not> m_loaded m'" "\<not> m_running m'" "status_data (m_files m') = None"
    using assms(2) by (cases "m_pid_file m") (simp_all add: install_commands_def isInstalled_def helper_version_read)
  have "status (refresh hash (m_files m') None t) = readStatus (m_files m') \<or> status (refresh hash (m_files m') None t) = status t"
    for t by (simp add: refresh_status)
  moreover have "status (installHelper hash f (Some e) t) = status t" for f e t by (simp add: installHelper_def)
  moreover have "status (store_init hash (m_files m) None) = empty_status" "readStatus (m_files m') = empty_status"
    using assms(2) m'(5) by (simp_all add: store_init_def refresh_status readStatus_def signature_not_Nil)
  ultimately have "status (refresh hash (m_files m') None (installHelper hash (m_files m') (Some denied_message)
      (store_init hash (m_files m) None))) = empty_status" by metis
  moreover have "helperInstalled (refresh hash f b t) = isInstalled f" for f b t
    by (simp add: refresh_def refreshStatus_def refreshLogs_def Let_def split: option.split)
  ultimately show ?thesis using m' assms(1)
    by (intro exI [of _ m']) (simp add: install_def install_script_def performPrimaryAction_def canStop_def empty_status_def Let_def)
qed

end
