(* ===== verification/Dns_Port.thy ===== *)
theory Dns_Port
  imports Engines Event_Runs
begin

text \<open>
  The TUN engine on macOS call by call (\<open>Start\<close> and \<open>Stop\<close> of \<open>src/cmd/gecit/app/run_tun.go\<close>,
  \<open>StopMDNSResponder\<close> and \<open>ResumeMDNSResponder\<close> of \<open>src/pkg/dns/system_darwin.go\<close>) against
  launchd and the system's responder, which compete with it for UDP port 53 between any two of
  its calls.  \<open>Engines\<close> has the same operations as one step each, with the outcome of the DNS
  server's \<open>Start\<close> as an argument; here that outcome is whether the port was free.
\<close>

section \<open>States and steps\<close>

datatype port_user = Responder | Probe | Server | OtherProcess

text \<open>
  The calls of the two operations.  \<open>KillResponder i\<close> and \<open>ProbePort i\<close> are the two halves of
  round \<open>i\<close> of the loop of \<open>StopMDNSResponder\<close>, \<open>CloseProbe\<close> its exit with the port free.
\<close>

datatype engine_call =
    KillResponder nat | ProbePort nat | CloseProbe
  | DnsStart | SetDns | MgrStart | MgrStop | RestoreDns | DnsStop | Resume

text \<open>
  \<open>hups\<close> counts the \<open>killall -HUP mDNSResponder\<close>, \<open>kills\<close> the \<open>killall mDNSResponder\<close>;
  \<open>calls\<close> is what the operation has left to do.
\<close>

record 'd dns_port_run =
  dp_host :: "'d tun_host"
  calls :: "engine_call list"
  start_error :: "tun_engine_error option"
  port53 :: "port_user option"
  responder_up :: bool
  kills :: nat
  hups :: nat

definition free_port :: "port_user \<Rightarrow> 'd dns_port_run \<Rightarrow> 'd dns_port_run" where
  "free_port u s = (if port53 s = Some u then s\<lparr>port53 := None\<rparr> else s)"

text \<open>
  One round: the kill and the sleep (\<open>ended\<close> says whether the responder is gone after them),
  then the attempt to bind.
\<close>

definition kill_responder :: "bool \<Rightarrow> 'd dns_port_run \<Rightarrow> 'd dns_port_run" where
  "kill_responder ended s =
     (let s = s\<lparr>kills := kills s + 1\<rparr>
      in if ended then free_port Responder (s\<lparr>responder_up := False\<rparr>) else s)"

definition after_probe :: "nat \<Rightarrow> engine_call list \<Rightarrow> engine_call list" where
  "after_probe i rest = (if i + 1 < 10 then KillResponder (i + 1) # rest else rest)"

definition hup_responder :: "'d dns_port_run \<Rightarrow> 'd dns_port_run" where
  "hup_responder s = s\<lparr>hups := hups s + 1\<rparr>"

fun do_call ::
    "'d system_ops \<Rightarrow> tun_engine_env \<Rightarrow> bool \<Rightarrow> engine_call \<Rightarrow> engine_call list \<Rightarrow> 'd dns_port_run \<Rightarrow> 'd dns_port_run" where
  "do_call ops env ended (KillResponder i) rest s = (kill_responder ended s)\<lparr>calls := ProbePort i # rest\<rparr>"
| "do_call ops env _ (ProbePort i) rest s =
     (if port53 s = None then s\<lparr>port53 := Some Probe, calls := CloseProbe # rest\<rparr>
      else s\<lparr>calls := after_probe i rest\<rparr>)"
| "do_call ops env _ CloseProbe rest s = (free_port Probe s)\<lparr>calls := rest\<rparr>"
| "do_call ops env _ DnsStart rest s =
     (if port53 s = None
      then s\<lparr>port53 := Some Server, dp_host := (dp_host s)\<lparr>th_dns_running := True\<rparr>, calls := rest\<rparr>
      else s\<lparr>start_error := Some TunDnsServer, calls := [Resume]\<rparr>)"
| "do_call ops env _ SetDns rest s =
     (case op_set ops (th_dns (dp_host s)) of
        (ok, d) \<Rightarrow>
          let s = s\<lparr>dp_host := (dp_host s)\<lparr>th_dns := d\<rparr>\<rparr>
          in if ok then s\<lparr>calls := rest\<rparr>
             else s\<lparr>start_error := Some TunSystemDNS, calls := [DnsStop, Resume]\<rparr>)"
| "do_call ops env _ MgrStart rest s =
     (case tun_Start (te_mgr env) (th_mgr (dp_host s), th_open (dp_host s)) of
        (e, m, opn) \<Rightarrow>
          let s = s\<lparr>dp_host := (dp_host s)\<lparr>th_mgr := m, th_open := opn\<rparr>\<rparr>
          in case e of
            None \<Rightarrow> s\<lparr>calls := rest\<rparr>
          | Some e \<Rightarrow> s\<lparr>start_error := Some (TunManager e),
              calls := (if te_doh env then [RestoreDns, DnsStop, Resume] else [])\<rparr>)"
| "do_call ops env _ MgrStop rest s =
     s\<lparr>dp_host := (dp_host s)\<lparr>th_open := tun_Stop (th_mgr (dp_host s), th_open (dp_host s))\<rparr>, calls := rest\<rparr>"
| "do_call ops env _ RestoreDns rest s =
     (hup_responder s)\<lparr>dp_host := (dp_host s)\<lparr>th_dns := op_restore ops (th_dns (dp_host s))\<rparr>, calls := rest\<rparr>"
| "do_call ops env _ DnsStop rest s =
     (free_port Server s)\<lparr>dp_host := (dp_host s)\<lparr>th_dns_running := False\<rparr>, calls := rest\<rparr>"
| "do_call ops env _ Resume rest s = (hup_responder s)\<lparr>calls := rest\<rparr>"

text \<open>\<open>Start\<close> and \<open>Stop\<close> as sequences of calls.\<close>

definition start_calls :: "tun_engine_env \<Rightarrow> engine_call list" where
  "start_calls env = (if te_doh env then [KillResponder 0, DnsStart, SetDns, MgrStart] else [MgrStart])"

definition stop_calls :: "tun_engine_env \<Rightarrow> engine_call list" where
  "stop_calls env = MgrStop # (if te_doh env then [RestoreDns, DnsStop, Resume] else [])"

text \<open>
  Between two calls launchd starts the responder again, which takes the port when it is free
  and may end or release it at any time, and other processes may use the port.
\<close>

datatype port_event =
    EngineCalls bool | LaunchdStarts | ResponderBinds | ResponderEnds | OtherBinds | OtherReleases

fun port_step :: "'d system_ops \<Rightarrow> tun_engine_env \<Rightarrow> port_event \<Rightarrow> 'd dns_port_run \<Rightarrow> 'd dns_port_run option" where
  "port_step ops env (EngineCalls ended) s = (case calls s of [] \<Rightarrow> None | c # rest \<Rightarrow> Some (do_call ops env ended c rest s))"
| "port_step ops env LaunchdStarts s = Some (s\<lparr>responder_up := True\<rparr>)"
| "port_step ops env ResponderBinds s =
     (if responder_up s \<and> port53 s = None then Some (s\<lparr>port53 := Some Responder\<rparr>) else None)"
| "port_step ops env ResponderEnds s = Some (free_port Responder (s\<lparr>responder_up := False\<rparr>))"
| "port_step ops env OtherBinds s = (if port53 s = None then Some (s\<lparr>port53 := Some OtherProcess\<rparr>) else None)"
| "port_step ops env OtherReleases s = Some (free_port OtherProcess s)"

primrec port_run :: "'d system_ops \<Rightarrow> tun_engine_env \<Rightarrow> port_event list \<Rightarrow> 'd dns_port_run \<Rightarrow> 'd dns_port_run option" where
  "port_run ops env [] s = Some s"
| "port_run ops env (e # es) s = Option.bind (port_step ops env e s) (port_run ops env es)"

text \<open>An operation begins: the calls \<open>cs\<close> on the machine \<open>h\<close>, with whoever has the port.\<close>

definition port_begin :: "engine_call list \<Rightarrow> 'd tun_host \<Rightarrow> port_user option \<Rightarrow> bool \<Rightarrow> 'd dns_port_run" where
  "port_begin cs h user up =
     \<lparr>dp_host = h, calls = cs, start_error = None, port53 = user, responder_up = up, kills = 0, hups = 0\<rparr>"

fun is_call :: "port_event \<Rightarrow> bool" where
  "is_call (EngineCalls _) = True"
| "is_call _ = False"

fun is_bind :: "port_event \<Rightarrow> bool" where
  "is_bind ResponderBinds = True"
| "is_bind OtherBinds = True"
| "is_bind _ = False"

section \<open>Both operations end\<close>

lemma free_port_sel [simp]:
  "dp_host (free_port u s) = dp_host s" "calls (free_port u s) = calls s" "start_error (free_port u s) = start_error s"
  "responder_up (free_port u s) = responder_up s" "kills (free_port u s) = kills s" "hups (free_port u s) = hups s"
  "port53 (free_port u s) = (if port53 s = Some u then None else port53 s)"
  by (simp_all add: free_port_def)

lemma kill_responder_sel [simp]:
  "dp_host (kill_responder b s) = dp_host s" "calls (kill_responder b s) = calls s"
  "start_error (kill_responder b s) = start_error s" "kills (kill_responder b s) = Suc (kills s)"
  "hups (kill_responder b s) = hups s"
  "port53 (kill_responder b s) = (if b \<and> port53 s = Some Responder then None else port53 s)"
  by (simp_all add: kill_responder_def Let_def)

lemma hup_responder_sel [simp]:
  "dp_host (hup_responder s) = dp_host s" "port53 (hup_responder s) = port53 s" "calls (hup_responder s) = calls s"
  "start_error (hup_responder s) = start_error s" "kills (hup_responder s) = kills s" "hups (hup_responder s) = Suc (hups s)"
  by (simp_all add: hup_responder_def)

text \<open>Every call has a bounded number of successors; the most are the ten rounds of the loop.\<close>

fun call_rank :: "engine_call \<Rightarrow> nat" where
  "call_rank (KillResponder i) = 21 - 2 * i"
| "call_rank (ProbePort i) = 20 - 2 * i"
| "call_rank DnsStart = 2"
| "call_rank SetDns = 3"
| "call_rank MgrStart = 4"
| "call_rank _ = 1"

definition calls_rank :: "engine_call list \<Rightarrow> nat" where
  "calls_rank cs = sum_list (map call_rank cs)"

lemma calls_rank_simps [simp]: "calls_rank [] = 0" "calls_rank (c # cs) = call_rank c + calls_rank cs"
  by (simp_all add: calls_rank_def)

fun round_ok :: "engine_call \<Rightarrow> bool" where
  "round_ok (KillResponder i) = (i < 10)"
| "round_ok (ProbePort i) = (i < 10)"
| "round_ok _ = True"

lemma do_call_rank:
  assumes "round_ok c" and "list_all round_ok rest"
  shows "list_all round_ok (calls (do_call ops env b c rest s)) \<and>
    calls_rank (calls (do_call ops env b c rest s)) + 1 \<le> call_rank c + calls_rank rest"
  using assms by (cases c) (auto simp: after_probe_def Let_def split: prod.split option.split)

lemma port_step_rank:
  assumes "port_step ops env e s = Some s'" and "list_all round_ok (calls s)"
  shows "list_all round_ok (calls s') \<and> calls_rank (calls s') + (if is_call e then 1 else 0) \<le> calls_rank (calls s)"
proof (cases e)
  case (EngineCalls b)
  then obtain c rest where c: "calls s = c # rest" "s' = do_call ops env b c rest s"
    using assms(1) by (auto split: list.splits)
  with do_call_rank [of c rest ops env b s] assms(2) EngineCalls show ?thesis by auto
qed (use assms in \<open>auto split: if_splits\<close>)

interpretation port_runs: bounded_runs "port_step ops env" "port_run ops env" "\<lambda>s. list_all round_ok (calls s)"
  "\<lambda>s. calls_rank (calls s)" is_call for ops env
  by unfold_locales (auto dest: port_step_rank simp del: port_step.simps)

section \<open>Who has the port\<close>

text \<open>
  The engine has the port exactly while its DNS server runs and, before that, between a
  successful probe and its close.
\<close>

definition port_owned :: "'d dns_port_run \<Rightarrow> bool" where
  "port_owned s \<longleftrightarrow>
     (port53 s = Some Server \<longleftrightarrow> th_dns_running (dp_host s)) \<and>
     (port53 s = Some Probe \<longleftrightarrow> calls s \<noteq> [] \<and> hd (calls s) = CloseProbe) \<and>
     CloseProbe \<notin> set (tl (calls s))"

lemma not_close_hd: "CloseProbe \<notin> set cs \<Longrightarrow> cs \<noteq> [] \<Longrightarrow> hd cs \<noteq> CloseProbe"
  by (cases cs) auto

lemma not_close_tl: "CloseProbe \<notin> set cs \<Longrightarrow> CloseProbe \<notin> set (tl cs)"
  by (cases cs) auto

lemma do_call_owned:
  assumes "port_owned s" and "calls s = c # rest"
  shows "port_owned (do_call ops env b c rest s)"
proof -
  have n: "CloseProbe \<notin> set rest" using assms by (simp add: port_owned_def)
  with assms not_close_hd [OF n] not_close_tl [OF n] show ?thesis
    by (cases c) (auto simp: port_owned_def after_probe_def Let_def split: prod.split option.split)
qed

lemma port_step_owned:
  assumes "port_step ops env e s = Some s'" and "port_owned s"
  shows "port_owned s'"
proof (cases e)
  case (EngineCalls b)
  with assms show ?thesis by (auto split: list.splits intro: do_call_owned)
qed (use assms in \<open>auto simp: port_owned_def split: if_splits\<close>)

section \<open>Every interleaving does what the operations do in one step\<close>

text \<open>What the calls that cannot fail do to the machine.\<close>

fun call_effect :: "'d system_ops \<Rightarrow> engine_call \<Rightarrow> 'd tun_host \<Rightarrow> 'd tun_host" where
  "call_effect ops MgrStop h = h\<lparr>th_open := tun_Stop (th_mgr h, th_open h)\<rparr>"
| "call_effect ops RestoreDns h = h\<lparr>th_dns := op_restore ops (th_dns h)\<rparr>"
| "call_effect ops DnsStop h = h\<lparr>th_dns_running := False\<rparr>"
| "call_effect ops _ h = h"

definition undo_calls :: "engine_call set" where
  "undo_calls = {MgrStop, RestoreDns, DnsStop, Resume}"

lemma do_undo_call:
  assumes "c \<in> undo_calls"
  shows "calls (do_call ops env b c rest s) = rest" "dp_host (do_call ops env b c rest s) = call_effect ops c (dp_host s)"
    "start_error (do_call ops env b c rest s) = start_error s"
  using assms by (auto simp: undo_calls_def)

text \<open>How far \<open>Start\<close> has come, with its error and what it has done to the machine \<open>h\<close>.\<close>

inductive start_stage ::
    "'d system_ops \<Rightarrow> tun_engine_env \<Rightarrow> 'd tun_host \<Rightarrow> engine_call list \<Rightarrow> tun_engine_error option \<Rightarrow> 'd tun_host \<Rightarrow> bool"
  for ops env h where
  freeing: "te_doh env \<Longrightarrow> cs = [KillResponder i] \<or> cs = [ProbePort i] \<or> cs = [CloseProbe] \<or> cs = [] \<Longrightarrow>
    start_stage ops env h (cs @ [DnsStart, SetDns, MgrStart]) None h"
| serving: "te_doh env \<Longrightarrow> start_stage ops env h [SetDns, MgrStart] None (h\<lparr>th_dns_running := True\<rparr>)"
| set_up: "te_doh env \<Longrightarrow> op_set ops (th_dns h) = (True, d) \<Longrightarrow>
    start_stage ops env h [MgrStart] None (h\<lparr>th_dns_running := True, th_dns := d\<rparr>)"
| plain: "\<not> te_doh env \<Longrightarrow> start_stage ops env h [MgrStart] None h"
| decided: "set cs \<subseteq> undo_calls \<Longrightarrow>
    tunEngine_Start ops (env\<lparr>te_dns_ok := err \<noteq> Some TunDnsServer\<rparr>) h = (err, fold (call_effect ops) cs h') \<Longrightarrow>
    start_stage ops env h cs err h'"


lemma start_stage_calls:
  assumes "start_stage ops env h (calls s) (start_error s) (dp_host s)" and "calls s = c # rest"
  shows "start_stage ops env h (calls (do_call ops env b c rest s)) (start_error (do_call ops env b c rest s))
    (dp_host (do_call ops env b c rest s))"
  using assms(1)
proof (cases rule: start_stage.cases)
  case (freeing cs i)
  from freeing(5) consider "c = KillResponder i" "cs = [c]" | "c = ProbePort i" "cs = [c]" | "c = CloseProbe" "cs = [c]"
    | "c = DnsStart" "cs = []" using assms(2) freeing(1) by (auto simp: Cons_eq_append_conv)
  then show ?thesis
  proof cases
    case 4
    then show ?thesis using freeing assms(2)
      by (auto intro!: start_stage.serving start_stage.decided simp: undo_calls_def tunEngine_Start_def)
  qed (use freeing assms(2) start_stage.freeing [OF freeing(4), of "[ProbePort i]" i ops h]
      start_stage.freeing [OF freeing(4), of "[KillResponder (i + 1)]" "i + 1" ops h]
      start_stage.freeing [OF freeing(4), of "[CloseProbe]" i ops h]
      start_stage.freeing [OF freeing(4), of "[]" i ops h] in \<open>auto simp: after_probe_def\<close>)
next
  case serving
  obtain ok d where "op_set ops (th_dns h) = (ok, d)" by fastforce
  with serving assms(2) start_stage.set_up [of env ops h d] show ?thesis
    by (cases ok) (simp_all add: start_stage.decided undo_calls_def tunEngine_Start_def)
next
  case (set_up d)
  obtain err m opn where "tun_Start (te_mgr env) (th_mgr h, th_open h) = (err, m, opn)" by (metis prod_cases3)
  with set_up assms(2) show ?thesis
    by (cases err) (auto intro!: start_stage.decided simp: undo_calls_def tunEngine_Start_def)
next
  case plain
  obtain err m opn where "tun_Start (te_mgr env) (th_mgr h, th_open h) = (err, m, opn)" by (metis prod_cases3)
  with plain assms(2) show ?thesis
    by (cases err) (auto intro!: start_stage.decided simp: undo_calls_def tunEngine_Start_def)
next
  case decided
  then have "c \<in> undo_calls" "set rest \<subseteq> undo_calls" using assms(2) by auto
  with decided assms(2) show ?thesis by (auto intro!: start_stage.decided simp: do_undo_call)
qed

lemma port_step_stage:
  assumes "port_step ops env e s = Some s'" and "start_stage ops env h (calls s) (start_error s) (dp_host s)"
  shows "start_stage ops env h (calls s') (start_error s') (dp_host s')"
proof (cases e)
  case (EngineCalls b)
  with assms show ?thesis by (auto split: list.splits intro: start_stage_calls)
qed (use assms in \<open>auto split: if_splits\<close>)

lemma start_stage_begin: "start_stage ops env h (start_calls env) None h"
  using start_stage.freeing [of env "[KillResponder 0]" 0 ops h] start_stage.plain [of env ops h]
  by (simp add: start_calls_def)

lemma start_stage_done:
  "start_stage ops env h [] err h' \<Longrightarrow>
   tunEngine_Start ops (env\<lparr>te_dns_ok := err \<noteq> Some TunDnsServer\<rparr>) h = (err, h')"
  by (auto elim: start_stage.cases)

lemma tunEngine_Start_running:
  assumes "tunEngine_Start ops env h = (err, h')" and "\<not> th_dns_running h"
  shows "th_dns_running h' \<longleftrightarrow> te_doh env \<and> err = None"
  using assms by (auto simp: tunEngine_Start_def Let_def split: if_splits prod.splits option.splits bool.splits)

text \<open>A start that fails sends the responder its signal.\<close>

definition resumed :: "tun_engine_env \<Rightarrow> 'd dns_port_run \<Rightarrow> bool" where
  "resumed env s \<longleftrightarrow> (te_doh env \<and> start_error s \<noteq> None \<longrightarrow> 0 < hups s \<or> Resume \<in> set (calls s))"

lemma port_step_resumed:
  assumes "port_step ops env e s = Some s'" and "resumed env s"
  shows "resumed env s'"
proof (cases e)
  case (EngineCalls b)
  then obtain c rest where c: "calls s = c # rest" "s' = do_call ops env b c rest s"
    using assms(1) by (auto split: list.splits)
  with assms(2) show ?thesis
    by (cases c) (auto simp: resumed_def after_probe_def Let_def split: prod.split option.split)
qed (use assms in \<open>auto simp: resumed_def free_port_def split: if_splits\<close>)


text \<open>
  While nobody else binds the port, the server finds it taken only after ten kills: the loop
  stops at the first round that finds it free.
\<close>

definition quiet_rounds :: "'d dns_port_run \<Rightarrow> bool" where
  "quiet_rounds s \<longleftrightarrow>
     (case calls s of
        KillResponder i # _ \<Rightarrow> kills s = i
      | ProbePort i # _ \<Rightarrow> kills s = i + 1
      | DnsStart # _ \<Rightarrow> port53 s = None \<or> kills s = 10
      | _ \<Rightarrow> True) \<and>
     (start_error s = Some TunDnsServer \<longrightarrow> kills s = 10)"

lemma do_call_quiet:
  assumes "quiet_rounds s" and "calls s = c # rest" and "port_owned s" and "round_ok c"
    and "start_stage ops env h (calls s) (start_error s) (dp_host s)"
  shows "quiet_rounds (do_call ops env b c rest s)"
  using assms(5)
proof (cases rule: start_stage.cases)
  case (freeing cs i)
  then show ?thesis using assms(1-4)
    by (auto simp: quiet_rounds_def port_owned_def after_probe_def)
next
  case decided
  with assms(1,2) show ?thesis
    by (auto simp: quiet_rounds_def undo_calls_def split: list.split engine_call.split)
next
  case serving
  obtain ok d where "op_set ops (th_dns h) = (ok, d)" by fastforce
  with serving assms(1,2) show ?thesis by (cases ok) (simp_all add: quiet_rounds_def)
next
  case (set_up d)
  obtain err m opn where "tun_Start (te_mgr env) (th_mgr h, th_open h) = (err, m, opn)" by (metis prod_cases3)
  with set_up assms(1,2) show ?thesis by (cases err) (simp_all add: quiet_rounds_def)
next
  case plain
  obtain err m opn where "tun_Start (te_mgr env) (th_mgr h, th_open h) = (err, m, opn)" by (metis prod_cases3)
  with plain assms(1,2) show ?thesis by (cases err) (simp_all add: quiet_rounds_def)
qed

lemma quiet_rounds_mono:
  assumes "quiet_rounds s" and "calls s' = calls s" "kills s' = kills s" "start_error s' = start_error s"
    and "port53 s = None \<Longrightarrow> port53 s' = None"
  shows "quiet_rounds s'"
proof (cases "\<exists>rest. calls s = DnsStart # rest")
  case True
  with assms show ?thesis by (auto simp: quiet_rounds_def)
next
  case False
  then have "quiet_rounds s' = quiet_rounds s"
    using assms(2-4) by (auto simp: quiet_rounds_def split: list.split engine_call.split)
  with assms(1) show ?thesis by simp
qed

lemma port_step_quiet:
  assumes "port_step ops env e s = Some s'" and "\<not> is_bind e" and "quiet_rounds s" and "port_owned s"
    and "list_all round_ok (calls s)" and "start_stage ops env h (calls s) (start_error s) (dp_host s)"
  shows "quiet_rounds s'"
proof (cases e)
  case (EngineCalls b)
  with assms show ?thesis by (auto split: list.splits intro!: do_call_quiet)
qed (use assms(1-3) in \<open>auto split: if_splits intro: quiet_rounds_mono\<close>)

section \<open>Properties\<close>

lemma start_run_facts:
  assumes "port_run ops env es (port_begin (start_calls env) h user up) = Some s"
    and "\<not> th_dns_running h" and "user \<noteq> Some Server" and "user \<noteq> Some Probe"
  shows "port_owned s" "list_all round_ok (calls s)" "start_stage ops env h (calls s) (start_error s) (dp_host s)"
    "resumed env s" "list_all (\<lambda>e. \<not> is_bind e) es \<Longrightarrow> quiet_rounds s"
proof -
  let ?s = "port_begin (start_calls env) h user up"
  let ?I = "\<lambda>s. port_owned s \<and> list_all round_ok (calls s) \<and> start_stage ops env h (calls s) (start_error s) (dp_host s) \<and> resumed env s"
  have i: "?I ?s" using assms(2-4) start_stage_begin [of ops env h]
    by (simp add: port_begin_def port_owned_def start_calls_def resumed_def)
  have step: "?I s'" if "e \<in> set es" "port_step ops env e s = Some s'" "?I s" for e s s'
    using that(3) port_step_owned [OF that(2)] port_step_stage [OF that(2)] port_step_resumed [OF that(2)]
      port_step_rank [OF that(2)] by simp
  from port_runs.run_keeps [where I = ?I, OF assms(1) i step]
  show "port_owned s" "list_all round_ok (calls s)" "start_stage ops env h (calls s) (start_error s) (dp_host s)" "resumed env s"
    by auto
  assume b: "list_all (\<lambda>e. \<not> is_bind e) es"
  have q: "quiet_rounds ?s" by (simp add: quiet_rounds_def port_begin_def start_calls_def)
  have "?I s' \<and> quiet_rounds s'" if "e \<in> set es" "port_step ops env e s = Some s'" "?I s \<and> quiet_rounds s" for e s s'
    using that b step [of e s s'] port_step_quiet [of ops env e s s' h] by (auto simp: list_all_iff)
  from port_runs.run_keeps [where I = "\<lambda>s. ?I s \<and> quiet_rounds s", OF assms(1) conjI [OF i q] this] show "quiet_rounds s" by simp
qed

text \<open>
  C13: macOS: whatever launchd, the responder and other processes do with port 53 between the
  calls, the engine's \<open>Start\<close> ends after at most 30 calls, never stuck before that.  It then has
  done exactly what it does with no one else around, where the DNS server starts or not; its
  server has the port if and only if the start succeeded with DNS enabled, the probe of the
  port is closed, and after a failure the responder has had its signal.
\<close>

theorem mac_start_port53:
  assumes "port_run ops env es (port_begin (start_calls env) h user up) = Some s"
    and "\<not> th_dns_running h" and "user \<noteq> Some Server" and "user \<noteq> Some Probe"
  shows "length (filter is_call es) \<le> 30 \<and>
    (calls s \<noteq> [] \<longrightarrow> (\<exists>s'. port_step ops env (EngineCalls ended) s = Some s')) \<and>
    (calls s = [] \<longrightarrow>
      tunEngine_Start ops (env\<lparr>te_dns_ok := start_error s \<noteq> Some TunDnsServer\<rparr>) h = (start_error s, dp_host s) \<and>
      (port53 s = Some Server \<longleftrightarrow> te_doh env \<and> start_error s = None) \<and> port53 s \<noteq> Some Probe \<and>
      (te_doh env \<and> start_error s \<noteq> None \<longrightarrow> 0 < hups s))"
proof -
  note f = start_run_facts [OF assms]
  have "list_all round_ok (start_calls env)" "calls_rank (start_calls env) \<le> 30"
    by (simp_all add: start_calls_def)
  then have "length (filter is_call es) \<le> 30"
    using port_runs.run_bounded [OF assms(1)] by (simp add: port_begin_def)
  moreover have "\<exists>s'. port_step ops env (EngineCalls ended) s = Some s'" if "calls s \<noteq> []"
    using that by (cases "calls s") auto
  moreover have "tunEngine_Start ops (env\<lparr>te_dns_ok := start_error s \<noteq> Some TunDnsServer\<rparr>) h = (start_error s, dp_host s)"
    if "calls s = []" using that f(3) start_stage_done by fastforce
  moreover from this have "th_dns_running (dp_host s) \<longleftrightarrow> te_doh env \<and> start_error s = None" if "calls s = []"
    using that tunEngine_Start_running [OF _ assms(2)] by fastforce
  ultimately show ?thesis using f(1,4) by (auto simp: port_owned_def resumed_def)
qed

text \<open>
  A start on a machine whose responder has the port and comes back once: the first kill does
  not end it, and after the second it returns without binding.
\<close>

definition demo_port_events :: "port_event list" where
  "demo_port_events = [EngineCalls False, EngineCalls False, EngineCalls True, LaunchdStarts, EngineCalls True, EngineCalls True,
     EngineCalls True, EngineCalls True, EngineCalls True]"

theorem mac_start_port53_witness:
  "\<exists>s. port_run (darwin_ops demo_run (\<lambda>s f. Some s)) demo_tun_engine_env demo_port_events
      (port_begin (start_calls demo_tun_engine_env) (demo_tun_host (demo_mac [''8.8.8.8''])) (Some Responder) True) = Some s \<and>
    calls s = [] \<and> start_error s = None \<and> kills s = 2 \<and> port53 s = Some Server"
proof -
  let ?ops = "darwin_ops demo_run (\<lambda>s f. Some s)" and ?h = "demo_tun_host (demo_mac [''8.8.8.8''])"
  obtain ok d where "mac_SetSystemDNS demo_run (\<lambda>s f. Some s) None (th_dns ?h) = (ok, d)" by fastforce
  moreover from this have ok
    using mac_Set_and_Restore [OF demo_spec, of "th_dns ?h" "[''8.8.8.8'']" "\<lambda>s f. Some s"]
    by (simp add: demo_tun_host_def demo_mac_def demo_servers_def demo_valid_def)
  ultimately have d: "op_set ?ops (th_dns ?h) = (True, d)" by (simp add: darwin_ops_def)
  obtain m opn where m: "tun_Start demo_tun_env (th_mgr ?h, th_open ?h) = (None, m, opn)"
    by (simp add: demo_tun_host_def tun_defs fresh_tun_manager_def demo_tun_env_def)
  obtain s where s: "port_run ?ops demo_tun_engine_env demo_port_events
      (port_begin (start_calls demo_tun_engine_env) ?h (Some Responder) True) = Some s"
    "calls s = []" "start_error s = None" "kills s = 2"
    using d m by (simp add: demo_port_events_def port_begin_def start_calls_def demo_tun_engine_env_def free_port_def
        kill_responder_def after_probe_def)
  moreover have "\<not> th_dns_running ?h" by (simp add: demo_tun_host_def)
  ultimately show ?thesis
    using mac_start_port53 [OF s(1)] by (simp add: demo_tun_engine_env_def)
qed

text \<open>
  The DNS server finds the port taken for two reasons only: another process has taken it, or
  ten kills have not freed it.
\<close>

theorem port_taken_reasons:
  assumes "port_run ops env es (port_begin (start_calls env) h user up) = Some s"
    and "\<not> th_dns_running h" and "user \<noteq> Some Server" and "user \<noteq> Some Probe"
    and "start_error s = Some TunDnsServer"
  shows "(\<exists>e \<in> set es. is_bind e) \<or> kills s = 10"
  using start_run_facts(5) [OF assms(1-4)] assms(5) by (auto simp: quiet_rounds_def list_all_iff)

text \<open>
  The first happens: \<open>StopMDNSResponder\<close> closes its probe before the server binds, and it kills
  the responder without unloading it from launchd, which may start it again in between.  The
  start then fails although the port was found free, and the machine is as it was.
\<close>

theorem responder_returns_between:
  assumes "te_doh env"
  shows "\<exists>s. port_run ops env [EngineCalls True, EngineCalls True, EngineCalls True, LaunchdStarts, ResponderBinds,
      EngineCalls True, EngineCalls True] (port_begin (start_calls env) h (Some Responder) True) = Some s \<and>
    calls s = [] \<and> start_error s = Some TunDnsServer \<and> dp_host s = h \<and> kills s = 1"
  using assms by (simp add: port_begin_def start_calls_def free_port_def kill_responder_def hup_responder_def)

text \<open>
  \<open>Stop\<close> takes at most four calls, does what it does in one step, gives the port up and sends
  the responder two signals: \<open>RestoreSystemDNS\<close> resumes it, before the server has left the
  port, and the engine once more after that.
\<close>

lemma fold_effect_call:
  assumes "port_step ops env e s = Some s'" and "set (calls s) \<subseteq> undo_calls"
  shows "set (calls s') \<subseteq> undo_calls \<and> fold (call_effect ops) (calls s') (dp_host s') = fold (call_effect ops) (calls s) (dp_host s) \<and>
    hups s' + length (filter (\<lambda>c. c = RestoreDns \<or> c = Resume) (calls s')) =
      hups s + length (filter (\<lambda>c. c = RestoreDns \<or> c = Resume) (calls s))"
proof (cases e)
  case (EngineCalls b)
  then obtain c rest where c: "calls s = c # rest" "s' = do_call ops env b c rest s"
    using assms(1) by (auto split: list.splits)
  then have "c \<in> undo_calls" "set rest \<subseteq> undo_calls" using assms(2) by auto
  with c show ?thesis by (auto simp: undo_calls_def)
qed (use assms in \<open>auto split: if_splits\<close>)

theorem mac_stop_port53:
  assumes "port_run ops env es s = Some s'" and "calls s = stop_calls env" and "te_doh env" and "port_owned s"
  shows "length (filter is_call es) \<le> 4 \<and>
    (calls s' = [] \<longrightarrow> dp_host s' = tunEngine_Stop ops env (dp_host s) \<and>
      port53 s' \<noteq> Some Server \<and> port53 s' \<noteq> Some Probe \<and> hups s' = hups s + 2)"
proof -
  have c: "calls s = [MgrStop, RestoreDns, DnsStop, Resume]" using assms(2,3) by (simp add: stop_calls_def)
  have u: "set (calls s) \<subseteq> undo_calls" by (simp add: c undo_calls_def)
  let ?n = "\<lambda>s. length (filter (\<lambda>c. c = RestoreDns \<or> c = Resume) (calls s))"
  let ?I = "\<lambda>t. port_owned t \<and> set (calls t) \<subseteq> undo_calls \<and>
    fold (call_effect ops) (calls t) (dp_host t) = tunEngine_Stop ops env (dp_host s) \<and> hups t + ?n t = hups s + 2"
  have i: "?I s" using assms(3,4) by (simp add: c undo_calls_def tunEngine_Stop_def Let_def)
  have "?I t'" if "?I t" "port_step ops env e t = Some t'" for e t t'
    using that port_step_owned [OF that(2)] fold_effect_call [OF that(2)] by simp
  with port_runs.run_keeps [where I = ?I, OF assms(1) i] have I: "?I s'" by blast
  have "th_dns_running (dp_host s') = False" if "calls s' = []"
    using I that assms(3) by (auto simp: tunEngine_Stop_def Let_def)
  moreover have "length (filter is_call es) \<le> 4" using port_runs.run_bounded [OF assms(1)] by (simp add: c)
  ultimately show ?thesis using I by (auto simp: port_owned_def)
qed

end
