(* ===== verification/Raw_Handles.thy ===== *)
theory Raw_Handles
  imports Interfaces "HOL-Library.Multiset"
begin

text \<open>
  The sockets and capture handles the program holds, as a table of the open ones: the raw
  socket of each system (\<open>New\<close> and \<open>Close\<close> of \<open>src/pkg/rawsock\<close>), the packet capture and the
  tracker that owns one (\<open>NewCapture\<close>, \<open>Stop\<close> of \<open>src/pkg/capture\<close>, \<open>NewSeqTracker\<close> and \<open>Stop\<close>
  of \<open>src/pkg/seqtrack\<close>).  The system hands out handles that are not in use; their numbers are
  part of the environment.  The locale \<open>handle_owner\<close> is the contract of all of them.
\<close>

section \<open>The contract\<close>

text \<open>
  \<open>acquire\<close> opens what an object needs, or fails and leaves nothing open; \<open>release\<close> closes it.
  \<open>unused\<close> says that the handles the system hands out are free.
\<close>

locale handle_owner =
  fixes acquire :: "'env \<Rightarrow> nat set \<Rightarrow> 'r option \<times> nat set" and release :: "'r \<Rightarrow> nat set \<Rightarrow> nat set"
    and unused :: "'env \<Rightarrow> nat set \<Rightarrow> bool" and owned :: "'r \<Rightarrow> nat set"
  assumes acquire_fails: "acquire env H = (None, H') \<Longrightarrow> unused env H \<Longrightarrow> H' = H"
    and acquire_owns: "acquire env H = (Some r, H') \<Longrightarrow> unused env H \<Longrightarrow> H' = H \<union> owned r \<and> owned r \<inter> H = {}"
    and release_owned: "release r H = H - owned r"

text \<open>A program that makes objects one after the other and keeps those it gets.\<close>

fun acquire_all :: "('env \<Rightarrow> nat set \<Rightarrow> 'r option \<times> nat set) \<Rightarrow> 'env list \<Rightarrow> nat set \<Rightarrow> 'r list \<times> nat set" where
  "acquire_all acq [] H = ([], H)"
| "acquire_all acq (env # envs) H =
     (case acq env H of
        (None, H) \<Rightarrow> acquire_all acq envs H
      | (Some r, H) \<Rightarrow> (case acquire_all acq envs H of (rs, H) \<Rightarrow> (r # rs, H)))"

fun all_unused :: "('env \<Rightarrow> nat set \<Rightarrow> 'r option \<times> nat set) \<Rightarrow> ('env \<Rightarrow> nat set \<Rightarrow> bool) \<Rightarrow> 'env list \<Rightarrow> nat set \<Rightarrow> bool" where
  "all_unused acq un [] H = True"
| "all_unused acq un (env # envs) H = (un env H \<and> all_unused acq un envs (snd (acq env H)))"

context handle_owner
begin

lemma acquire_all_owned:
  "acquire_all acquire envs H = (rs, H') \<Longrightarrow> all_unused acquire unused envs H \<Longrightarrow>
   H' = H \<union> (\<Union>r \<in> set rs. owned r) \<and> (\<forall>r \<in> set rs. owned r \<inter> H = {})"
proof (induction envs arbitrary: H rs)
  case (Cons env envs)
  show ?case
  proof (cases "acquire env H")
    case (Pair got H1)
    show ?thesis
    proof (cases got)
      case None
      with Pair Cons.prems acquire_fails [of env H H1] Cons.IH [of H rs] show ?thesis by simp
    next
      case (Some r)
      with Pair Cons.prems obtain rs' where rs: "acquire_all acquire envs H1 = (rs', H')" "rs = r # rs'"
        by (auto split: prod.splits)
      from Some Pair Cons.prems(2) have o: "H1 = H \<union> owned r" "owned r \<inter> H = {}" using acquire_owns [of env H r H1] by auto
      from Cons.IH [OF rs(1)] Cons.prems(2) Pair have "H' = H1 \<union> (\<Union>r \<in> set rs'. owned r) \<and> (\<forall>r \<in> set rs'. owned r \<inter> H1 = {})"
        by simp
      with o rs(2) show ?thesis by auto
    qed
  qed
qed simp

lemma release_all: "fold release rs H = H - (\<Union>r \<in> set rs. owned r)"
  by (induction rs arbitrary: H) (auto simp: release_owned)

text \<open>Releasing each once, in any order, leaves what was open before.\<close>

lemma handles_balanced:
  assumes "acquire_all acquire envs H = (rs, H')" and "all_unused acquire unused envs H" and "mset rs' = mset rs"
  shows "fold release rs' H' = H"
  using acquire_all_owned [OF assms(1,2)] mset_eq_setD [OF assms(3)] by (auto simp: release_all)

end

section \<open>Raw sockets\<close>

text \<open>Linux: a socket, and the option that the packets come with their header.\<close>

record socket_env =
  sock_ok :: bool
  sock_fd :: nat
  hdrincl_ok :: bool

definition open_socket :: "socket_env \<Rightarrow> nat set \<Rightarrow> nat option \<times> nat set" where
  "open_socket env H =
     (if \<not> sock_ok env then (None, H)
      else
        let H = insert (sock_fd env) H in
        if \<not> hdrincl_ok env then (None, H - {sock_fd env}) else (Some (sock_fd env), H))"

definition New_linux :: "socket_env \<Rightarrow> nat set \<Rightarrow> nat option \<times> nat set" where
  "New_linux = open_socket"

definition Close_linux :: "nat \<Rightarrow> nat set \<Rightarrow> nat set" where
  "Close_linux fd H = H - {fd}"

text \<open>macOS: the same socket, then the capture handle of the IPv6 injector.\<close>

record darwin_env = socket_env +
  inj_ok :: bool
  inj_handle :: nat

record darwin_socket =
  ds_fd :: nat
  ds_v6 :: nat

definition New_darwin :: "darwin_env \<Rightarrow> nat set \<Rightarrow> darwin_socket option \<times> nat set" where
  "New_darwin env H =
     (if \<not> sock_ok env then (None, H)
      else
        let fd = sock_fd env; H = insert fd H in
        if \<not> hdrincl_ok env then (None, H - {fd})
        else if \<not> inj_ok env then (None, H - {fd})
        else (Some \<lparr>ds_fd = fd, ds_v6 = inj_handle env\<rparr>, insert (inj_handle env) H))"

text \<open>\<open>Close\<close> goes on to the injector when closing the socket fails, and returns that error.\<close>

definition Close_darwin :: "bool \<Rightarrow> darwin_socket \<Rightarrow> nat set \<Rightarrow> bool \<times> nat set" where
  "Close_darwin closed s H =
     (let H = H - {ds_fd s}; H = H - {ds_v6 s} in (closed, H))"

text \<open>Windows: a capture handle on the device \<open>New_windows\<close> chooses.\<close>

record windows_env =
  we_iface :: string
  we_devs :: "pcap_dev list option"
  we_open_ok :: "string \<Rightarrow> bool"
  we_nics :: "nic list"
  we_route :: "string option"
  we_arp :: "string option"
  we_handle :: nat

record pcap_socket =
  ps_handle :: nat
  ps_srcMAC :: bytes
  ps_dstMAC :: bytes

definition New_windows_socket :: "windows_env \<Rightarrow> nat set \<Rightarrow> pcap_socket option \<times> nat set" where
  "New_windows_socket env H =
     (case New_windows (we_iface env) (we_devs env) (we_open_ok env) (we_nics env) (we_route env) (we_arp env) of
        None \<Rightarrow> (None, H)
      | Some (dev, src_mac, dst_mac) \<Rightarrow>
          (Some \<lparr>ps_handle = we_handle env, ps_srcMAC = src_mac, ps_dstMAC = dst_mac\<rparr>, insert (we_handle env) H))"

definition Close_windows :: "pcap_socket \<Rightarrow> nat set \<Rightarrow> nat set" where
  "Close_windows s H = H - {ps_handle s}"

section \<open>Captures and trackers\<close>

record capture_env =
  ce_open_ok :: bool
  ce_handle :: nat
  ce_filter_ok :: bool

record pcap_capture =
  pc_handle :: nat
  pc_ports :: "nat set"

definition NewCapture_darwin :: "nat list \<Rightarrow> capture_env \<Rightarrow> nat set \<Rightarrow> pcap_capture option \<times> nat set" where
  "NewCapture_darwin ports env H =
     (if \<not> ce_open_ok env then (None, H)
      else
        let H = insert (ce_handle env) H in
        if \<not> ce_filter_ok env then (None, H - {ce_handle env})
        else (Some \<lparr>pc_handle = ce_handle env, pc_ports = set ports\<rparr>, H))"

text \<open>
  On Windows the capture asks first whether Npcap is there, that is whether the devices can be
  listed, and then for the device of the interface.
\<close>

record win_capture_env = capture_env +
  wc_addrs :: "net_addr list option"
  wc_devs :: "pcap_dev list option"

definition NpcapAvailable :: "pcap_dev list option \<Rightarrow> bool" where
  "NpcapAvailable devs \<longleftrightarrow> devs \<noteq> None"

definition NewCapture_windows :: "nat list \<Rightarrow> win_capture_env \<Rightarrow> nat set \<Rightarrow> pcap_capture option \<times> nat set" where
  "NewCapture_windows ports env H =
     (if \<not> NpcapAvailable (wc_devs env) then (None, H)
      else case resolvePcapDevice (wc_addrs env) (wc_devs env) of
        None \<Rightarrow> (None, H)
      | Some _ \<Rightarrow>
          if \<not> ce_open_ok env then (None, H)
          else
            let H = insert (ce_handle env) H in
            if \<not> ce_filter_ok env then (None, H - {ce_handle env})
            else (Some \<lparr>pc_handle = ce_handle env, pc_ports = set ports\<rparr>, H))"

definition capture_Stop :: "pcap_capture \<Rightarrow> nat set \<Rightarrow> nat set" where
  "capture_Stop c H = H - {pc_handle c}"

text \<open>The tracker keeps the capture it was given; its \<open>Stop\<close> stops it, when there is one.\<close>

definition tracker_Stop :: "pcap_capture option \<Rightarrow> nat set \<Rightarrow> nat set" where
  "tracker_Stop detector H = (case detector of None \<Rightarrow> H | Some c \<Rightarrow> capture_Stop c H)"

definition open_tracker ::
    "('env \<Rightarrow> nat set \<Rightarrow> pcap_capture option \<times> nat set) \<Rightarrow> 'env \<Rightarrow> nat set \<Rightarrow> pcap_capture option option \<times> nat set" where
  "open_tracker newCapture env H =
     (case newCapture env H of
        (None, H) \<Rightarrow> (None, H)
      | (Some det, H) \<Rightarrow> (Some (Some det), H))"

section \<open>All of them keep the contract\<close>

definition fd_unused :: "socket_env \<Rightarrow> nat set \<Rightarrow> bool" where
  "fd_unused env H \<longleftrightarrow> sock_fd env \<notin> H"

definition darwin_unused :: "darwin_env \<Rightarrow> nat set \<Rightarrow> bool" where
  "darwin_unused env H \<longleftrightarrow> sock_fd env \<notin> H \<and> inj_handle env \<notin> insert (sock_fd env) H"

definition darwin_owned :: "darwin_socket \<Rightarrow> nat set" where
  "darwin_owned s = {ds_fd s, ds_v6 s}"

interpretation linux_sock: handle_owner New_linux Close_linux fd_unused "\<lambda>fd. {fd}"
  by unfold_locales (auto simp: New_linux_def Close_linux_def open_socket_def fd_unused_def Let_def split: if_splits)

interpretation darwin_sock: handle_owner New_darwin "\<lambda>s H. snd (Close_darwin closed s H)" darwin_unused darwin_owned
  for closed
  by unfold_locales (auto simp: New_darwin_def Close_darwin_def darwin_unused_def darwin_owned_def Let_def split: if_splits)

interpretation windows_sock: handle_owner New_windows_socket Close_windows "\<lambda>env H. we_handle env \<notin> H" "\<lambda>s. {ps_handle s}"
  by unfold_locales (auto simp: New_windows_socket_def Close_windows_def split: option.splits)

interpretation darwin_cap: handle_owner "NewCapture_darwin ports" capture_Stop "\<lambda>env H. ce_handle env \<notin> H" "\<lambda>c. {pc_handle c}"
  for ports
  by unfold_locales (auto simp: NewCapture_darwin_def capture_Stop_def Let_def split: if_splits)

interpretation windows_cap: handle_owner "NewCapture_windows ports" capture_Stop "\<lambda>env H. ce_handle env \<notin> H" "\<lambda>c. {pc_handle c}"
  for ports
  by unfold_locales (auto simp: NewCapture_windows_def capture_Stop_def Let_def split: if_splits option.splits)

text \<open>A tracker over any capture that keeps the contract keeps it.\<close>

definition tracker_owned :: "('r \<Rightarrow> nat set) \<Rightarrow> 'r option \<Rightarrow> nat set" where
  "tracker_owned own det = (case det of None \<Rightarrow> {} | Some c \<Rightarrow> own c)"

locale capture_provider = handle_owner newCapture capture_Stop unused owned
  for newCapture :: "'env \<Rightarrow> nat set \<Rightarrow> pcap_capture option \<times> nat set" and unused owned

sublocale capture_provider \<subseteq> tracker: handle_owner "open_tracker newCapture" tracker_Stop unused "tracker_owned owned"
proof unfold_locales
  fix env H H'
  show "H' = H" if "open_tracker newCapture env H = (None, H')" "unused env H"
    using that acquire_fails by (auto simp: open_tracker_def split: prod.splits option.splits)
next
  fix env H r H'
  show "H' = H \<union> tracker_owned owned r \<and> tracker_owned owned r \<inter> H = {}"
    if "open_tracker newCapture env H = (Some r, H')" "unused env H"
    using that acquire_owns [of env H _ H'] by (auto simp: open_tracker_def tracker_owned_def split: prod.splits option.splits)
next
  show "tracker_Stop r H = H - tracker_owned owned r" for r H
    by (simp add: tracker_Stop_def tracker_owned_def release_owned split: option.split)
qed

interpretation darwin_tracker: capture_provider "NewCapture_darwin ports" "\<lambda>env H. ce_handle env \<notin> H" "\<lambda>c. {pc_handle c}"
  for ports
  by unfold_locales

interpretation windows_tracker: capture_provider "NewCapture_windows ports" "\<lambda>env H. ce_handle env \<notin> H" "\<lambda>c. {pc_handle c}"
  for ports
  by unfold_locales

section \<open>Properties\<close>

text \<open>
  No socket and no capture handle is lost.  macOS, where \<open>New\<close> opens two: after any number of
  attempts, each failing at any of its steps or not, the sockets that were returned hold
  distinct handles that were not open before, nothing else has been opened, and closing them, in any order
  and with or without errors, leaves open exactly what was open before.
\<close>

theorem raw_handles_balanced:
  assumes "acquire_all New_darwin envs H = (rs, H')" and "all_unused New_darwin darwin_unused envs H" and "mset rs' = mset rs"
  shows "H' = H \<union> (\<Union>r \<in> set rs. {ds_fd r, ds_v6 r}) \<and> (\<forall>r \<in> set rs. {ds_fd r, ds_v6 r} \<inter> H = {}) \<and>
    fold (\<lambda>r H. snd (Close_darwin closed r H)) rs' H' = H"
  using darwin_sock.acquire_all_owned [OF assms(1,2)] darwin_sock.handles_balanced [OF assms, of closed]
  by (simp add: darwin_owned_def)

text \<open>Linux and Windows, the captures, and the trackers of both systems.\<close>

theorem all_handles_balanced:
  "acquire_all New_linux envs1 H = (rs1, H1) \<Longrightarrow> all_unused New_linux fd_unused envs1 H \<Longrightarrow> fold Close_linux rs1 H1 = H"
  "acquire_all New_windows_socket envs2 H = (rs2, H2) \<Longrightarrow>
     all_unused New_windows_socket (\<lambda>env H. we_handle env \<notin> H) envs2 H \<Longrightarrow> fold Close_windows rs2 H2 = H"
  "acquire_all (open_tracker (NewCapture_darwin ports)) envs3 H = (rs3, H3) \<Longrightarrow>
     all_unused (open_tracker (NewCapture_darwin ports)) (\<lambda>env H. ce_handle env \<notin> H) envs3 H \<Longrightarrow> fold tracker_Stop rs3 H3 = H"
  "acquire_all (open_tracker (NewCapture_windows ports)) envs4 H = (rs4, H4) \<Longrightarrow>
     all_unused (open_tracker (NewCapture_windows ports)) (\<lambda>env H. ce_handle env \<notin> H) envs4 H \<Longrightarrow> fold tracker_Stop rs4 H4 = H"
  by (rule linux_sock.handles_balanced windows_sock.handles_balanced darwin_tracker.tracker.handles_balanced
      windows_tracker.tracker.handles_balanced; simp)+

end
