(* ===== verification/Command_Line.thy ===== *)
theory Command_Line
  imports Engines
begin

text \<open>
  The commands of the program (\<open>src/cmd/gecit/main.go\<close> and \<open>app/run.go\<close>, \<open>status.go\<close>, \<open>cleanup.go\<close>
  with the files per platform beside them): what each prints, its exit status and what it does
  to the machine.  Parsing the command line is a library; what \<open>run\<close> logs is left out.
\<close>

section \<open>Privileges and status\<close>

definition checkPrivileges_unix :: "nat \<Rightarrow> bool" where
  "checkPrivileges_unix euid \<longleftrightarrow> euid = 0"

text \<open>Windows: the group of administrators, and whether the token is a member; both can fail.\<close>

definition checkPrivileges_windows :: "bool \<Rightarrow> bool option \<Rightarrow> bool" where
  "checkPrivileges_windows sid_ok member \<longleftrightarrow> sid_ok \<and> member = Some True"

definition boolStatus :: "bool \<Rightarrow> string" where
  "boolStatus ok = (if ok then ''supported'' else ''NOT supported'')"

text \<open>The two probes of the kernel (\<open>src/pkg/ebpf/features.go\<close>): \<open>None\<close> is no error.\<close>

definition HaveSockOps :: "'e option \<Rightarrow> bool" where
  "HaveSockOps probe \<longleftrightarrow> probe = None"

definition HaveSockOpsSetsockopt :: "'e option \<Rightarrow> bool" where
  "HaveSockOpsSetsockopt probe \<longleftrightarrow> probe = None"

definition status_linux :: "nat \<Rightarrow> 'e option \<Rightarrow> 'e option \<Rightarrow> string list" where
  "status_linux euid sockops setsockopt =
     ''  engine:     ebpf-sockops'' #
     (if euid \<noteq> 0 then [''  (run with sudo for accurate capability detection)'']
      else [''  sock_ops:   '' @ boolStatus (HaveSockOps sockops),
            ''  setsockopt: '' @ boolStatus (HaveSockOpsSetsockopt setsockopt)])"

definition status_darwin :: "nat \<Rightarrow> string list" where
  "status_darwin euid =
     ''  engine:     tun'' #
     (if euid \<noteq> 0 then [''  (run with sudo for accurate capability detection)''] else [''  raw socket: available''])"

definition status_windows :: "bool \<Rightarrow> string list" where
  "status_windows privileged =
     ''  engine:     tun (wintun)'' #
     (if \<not> privileged then [''  (run as Administrator for accurate capability detection)''] else [''  wintun:     available''])"

definition showStatus :: "string \<Rightarrow> string \<Rightarrow> string list \<Rightarrow> string list" where
  "showStatus goos goarch platform = [''gecit status'', ''  platform: '' @ goos @ ''/'' @ goarch] @ platform"

section \<open>The commands\<close>

text \<open>\<open>cleanup\<close> prints a text that ends in a dash and what was done, in UTF-8.\<close>

definition cleanup_text :: "bool \<Rightarrow> string" where
  "cleanup_text cleaned =
     (if cleaned then ''cleanup complete '' @ [CHR 0xE2, CHR 0x80, CHR 0x94] @ '' system settings restored''
      else ''nothing to clean up'')"

definition runCleanup :: "('h \<Rightarrow> bool \<times> 'h) \<Rightarrow> 'h \<Rightarrow> string list \<times> 'h" where
  "runCleanup platformCleanup h = (case platformCleanup h of (cleaned, h) \<Rightarrow> ([cleanup_text cleaned], h))"

text \<open>\<open>platformCleanup\<close> on Linux, and the other two on the machine of the TUN engine.\<close>

definition linux_platformCleanup :: "host \<Rightarrow> bool \<times> host" where
  "linux_platformCleanup h = (False, h)"

definition tun_platformCleanup :: "('d \<Rightarrow> bool \<times> 'd) \<Rightarrow> 'd tun_host \<Rightarrow> bool \<times> 'd tun_host" where
  "tun_platformCleanup cleanup h = (case cleanup (th_dns h) of (cleaned, d) \<Rightarrow> (cleaned, h\<lparr>th_dns := d\<rparr>))"

datatype 'env cli_command = RunCommand bool 'env | StatusCommand "string list" | CleanupCommand

text \<open>\<open>main\<close>: an error of a command is the exit status 1.\<close>

fun main_run ::
    "('env \<Rightarrow> 'h \<Rightarrow> 'e option \<times> 'h) \<Rightarrow> ('env \<Rightarrow> 'h \<Rightarrow> 'h) \<Rightarrow> ('h \<Rightarrow> bool \<times> 'h) \<Rightarrow> 'env cli_command \<Rightarrow> 'h \<Rightarrow>
     nat \<times> string list \<times> 'h" where
  "main_run start stop cleanup (RunCommand privileged env) h =
     (case runEngine start stop privileged env h of (err, h) \<Rightarrow> (if err = None then 0 else 1, [], h))"
| "main_run start stop cleanup (StatusCommand lines) h = (0, lines, h)"
| "main_run start stop cleanup CleanupCommand h = (case runCleanup cleanup h of (out, h) \<Rightarrow> (0, out, h))"

definition after_commands ::
    "('env \<Rightarrow> 'h \<Rightarrow> 'e option \<times> 'h) \<Rightarrow> ('env \<Rightarrow> 'h \<Rightarrow> 'h) \<Rightarrow> ('h \<Rightarrow> bool \<times> 'h) \<Rightarrow> 'env cli_command list \<Rightarrow> 'h \<Rightarrow> 'h" where
  "after_commands start stop cleanup = fold (\<lambda>c h. snd (snd (main_run start stop cleanup c h)))"

section \<open>Every sequence of commands\<close>

text \<open>An engine whose \<open>cleanup\<close> leaves a machine that needs none as it was.\<close>

locale dpi_cli = dpi_engine start stop ok fit kept
  for start :: "'env \<Rightarrow> 'h \<Rightarrow> 'e option \<times> 'h" and stop :: "'env \<Rightarrow> 'h \<Rightarrow> 'h" and ok fit kept +
  fixes cleanup :: "'h \<Rightarrow> bool \<times> 'h"
  assumes cleanup_kept: "fit h \<Longrightarrow> kept h (snd (cleanup h))"
begin

lemma command_kept:
  assumes "fit h" and "\<forall>p env. c = RunCommand p env \<longrightarrow> ok env"
  shows "kept h (snd (snd (main_run start stop cleanup c h)))"
proof (cases c)
  case (RunCommand p env)
  then show ?thesis using run_kept [of env h p] assms by (simp add: case_prod_beta)
next
  case CleanupCommand
  then show ?thesis using cleanup_kept [OF assms(1)] by (simp add: runCleanup_def case_prod_beta)
qed (simp add: kept_refl assms(1))

lemma commands_kept:
  "fit h \<Longrightarrow> \<forall>p env. RunCommand p env \<in> set cs \<longrightarrow> ok env \<Longrightarrow> kept h (after_commands start stop cleanup cs h)"
proof (induction cs arbitrary: h)
  case Nil
  then show ?case by (simp add: after_commands_def kept_refl)
next
  case (Cons c cs)
  let ?h = "snd (snd (main_run start stop cleanup c h))"
  have k: "kept h ?h" using Cons.prems by (intro command_kept) auto
  have "kept ?h (after_commands start stop cleanup cs ?h)"
    using Cons.prems(2) by (intro Cons.IH kept_fit [OF Cons.prems(1) k]) auto
  with k show ?case by (simp add: after_commands_def kept_trans)
qed

end

interpretation linux_cli: dpi_cli linux_run_start linux_run_stop "linux_ok files prog" "linux_fit prog" "linux_kept files prog"
    linux_platformCleanup
  for files prog
  by unfold_locales (simp add: linux_platformCleanup_def linux.kept_refl)

text \<open>macOS: \<open>cleanup\<close> takes 127.0.0.1 as the only server of Wi-Fi for a leftover.\<close>

definition mac_cli_fit :: "'w exec \<Rightarrow> ('w \<Rightarrow> string \<Rightarrow> string list option) \<Rightarrow> (string \<Rightarrow> bool) \<Rightarrow> 'w mac \<Rightarrow> bool" where
  "mac_cli_fit run servers valid m \<longleftrightarrow>
     mac_fit run servers valid m \<and> servers (settings m) ''Wi-Fi'' \<noteq> Some [''127.0.0.1'']"

lemma mac_cleanup_kept:
  assumes "mac_cli_fit run servers valid m"
  shows "mac_kept servers m (snd (mac_platformCleanup run m))"
proof -
  have spec: "networksetup_spec run servers valid" and b: "breadcrumb m = None"
    and w: "servers (settings m) ''Wi-Fi'' \<noteq> Some [''127.0.0.1'']"
    using assms by (auto simp: mac_cli_fit_def mac_fit_def)
  obtain c w where "cleanup_loopback run m = (c, m\<lparr>settings := w\<rparr>)" "servers w = servers (settings m)"
    using cleanup_loopback_result [OF spec, of m] w by metis
  with b show ?thesis by (simp add: mac_platformCleanup_def cleanup_breadcrumb_def mac_kept_def)
qed

interpretation mac_cli_resolver: tun_resolver "darwin_ops run wr" "mac_cli_fit run servers valid" "mac_kept servers"
  for run :: "'w exec" and wr servers valid
proof unfold_locales
  show "\<exists>d'. op_set (darwin_ops run wr) d = (True, d') \<and> mac_kept servers d (op_restore (darwin_ops run wr) d')"
    if "mac_cli_fit run servers valid d" for d
    using that mac_undo [of run servers valid d wr] by (simp add: mac_cli_fit_def)
qed (auto simp: mac_cli_fit_def mac_fit_def mac_kept_def)

interpretation mac_cli: dpi_cli "tun_run_start (darwin_ops run wr)" "tunEngine_Stop (darwin_ops run wr)" "\<lambda>_. True"
    "tun_fit (mac_cli_fit run servers valid)" "tun_kept (mac_kept servers)" "tun_platformCleanup (mac_platformCleanup run)"
  for run :: "'w exec" and wr servers valid
proof unfold_locales
  show "tun_kept (mac_kept servers) h (snd (tun_platformCleanup (mac_platformCleanup run) h))"
    if "tun_fit (mac_cli_fit run servers valid) h" for h
    using that mac_cleanup_kept [of run servers valid "th_dns h"]
    by (simp add: tun_platformCleanup_def tun_fit_def tun_kept_def case_prod_beta)
qed

lemma win_cleanup_kept:
  assumes "win_fit run source offered iface m"
  shows "win_kept source m (snd (win_platformCleanup run m))"
proof -
  have "wcrumb m = None" "source (snd (cleanup_routes run (wsettings m))) = source (wsettings m)"
    using assms cleanup_routes_source [of run source offered iface] by (auto simp: win_fit_def)
  then show ?thesis by (simp add: win_platformCleanup_def win_kept_def case_prod_beta)
qed

interpretation win_cli: dpi_cli "tun_run_start (windows_ops run (\<lambda>s f. Some s))" "tunEngine_Stop (windows_ops run (\<lambda>s f. Some s))"
    "\<lambda>_. True" "tun_fit (win_fit run source offered iface)" "tun_kept (win_kept source)"
    "tun_platformCleanup (win_platformCleanup run)"
  for run :: "'w command" and source offered iface
proof unfold_locales
  show "tun_kept (win_kept source) h (snd (tun_platformCleanup (win_platformCleanup run) h))"
    if "tun_fit (win_fit run source offered iface) h" for h
    using that win_cleanup_kept [of run source offered iface "th_dns h"]
    by (simp add: tun_platformCleanup_def tun_fit_def tun_kept_def case_prod_beta)
qed

section \<open>Properties\<close>

text \<open>
  On each system any sequence of \<open>run\<close>, \<open>status\<close> and \<open>cleanup\<close> leaves the machine as it was: the
  runs of \<open>Engines\<close>, with the other commands between them.
\<close>

theorem linux_commands_keep_host:
  assumes "linux_fit prog h" and "\<forall>p env. RunCommand p env \<in> set cs \<longrightarrow> linux_ok files prog env"
  shows "linux_kept files prog h (after_commands linux_run_start linux_run_stop linux_platformCleanup cs h)"
  using assms by (rule linux_cli.commands_kept)

theorem mac_commands_keep_host:
  assumes "tun_fit (mac_cli_fit run servers valid) h"
  shows "tun_kept (mac_kept servers) h
    (after_commands (tun_run_start (darwin_ops run wr)) (tunEngine_Stop (darwin_ops run wr))
      (tun_platformCleanup (mac_platformCleanup run)) cs h)"
  using assms by (rule mac_cli.commands_kept) simp

theorem windows_commands_keep_host:
  assumes "tun_fit (win_fit run source offered iface) h"
  shows "tun_kept (win_kept source) h
    (after_commands (tun_run_start (windows_ops run (\<lambda>s f. Some s))) (tunEngine_Stop (windows_ops run (\<lambda>s f. Some s)))
      (tun_platformCleanup (win_platformCleanup run)) cs h)"
  using assms by (rule win_cli.commands_kept) simp

text \<open>
  A \<open>run\<close> without privileges fails with status 1 and touches nothing; \<open>status\<close> touches nothing
  and succeeds.
\<close>

theorem unprivileged_run_refused:
  "main_run start stop cleanup (RunCommand False env) h = (1, [], h)"
  "main_run start stop cleanup (StatusCommand ls) h = (0, ls, h)"
  by (simp_all add: runEngine_def)

text \<open>
  \<open>cleanup\<close> does not look at how its commands end, and does not ask for privileges: on macOS,
  with every run of \<open>networksetup\<close> failing, it reports that the settings are restored and exits
  with 0, having changed none of them and removed the breadcrumb that remembers them.
\<close>

theorem cleanup_claims_success:
  assumes "breadcrumb (th_dns h) \<noteq> None" and "\<forall>args w. run args w = ([], False, w)"
  shows "\<exists>h'. main_run start stop (tun_platformCleanup (mac_platformCleanup run)) CleanupCommand h =
      (0, [cleanup_text True], h') \<and>
    settings (th_dns h') = settings (th_dns h) \<and> breadcrumb (th_dns h') = None"
  using assms
  by (auto simp: runCleanup_def tun_platformCleanup_def mac_platformCleanup_def cleanup_breadcrumb_def cleanup_loopback_def
      split: option.split)

end
