(* ===== verification/Spec2Isabelle.thy ===== *)
theory Spec2Isabelle
  imports Sockops_Abi Upstreams Shutdown Engines Tracker Tun_Session Udp_Relay Tun_Routes
    Map_Bounds Map_Decls Name_Labels Helper_Install Dns_Port Raw_Handles Command_Line
begin

text \<open>
  Verification development for gecit, a tool that gets TLS connections past deep packet
  inspection: before the real ClientHello it sends a fake one whose TTL expires between the
  inspector and the server.

  \<^bold>\<open>The program.\<close>  On Linux an eBPF program attached to a cgroup (\<open>src/pkg/ebpf/bpf\<close>) sees every
  outgoing connection.  For a target port it lowers the socket's MSS, so that the real
  ClientHello is fragmented, reports the connection to userspace through a perf ring, counts
  the bytes sent and restores the MSS.  Userspace (\<open>src/pkg/ebpf\<close>) loads and attaches the
  program, fills its maps, and turns each event into a fake packet (\<open>src/pkg/fake\<close>,
  \<open>src/pkg/rawsock\<close>).  On macOS and Windows a TUN device and a user-space network stack
  (\<open>src/pkg/tun\<close>) terminate the connection instead; sequence numbers and the hop limit come
  from captured SYN-ACKs (\<open>src/pkg/capture\<close>, \<open>src/pkg/seqtrack\<close>).  Both engines run a local
  DNS server over HTTPS (\<open>src/pkg/dns\<close>) and point the system resolver at it
  (\<open>src/cmd/gecit/app\<close>).  A macOS application (\<open>src/apps/macos\<close>) starts and stops the engine
  through a helper of root, a shell script that takes commands from a file.

  \<^bold>\<open>Theories.\<close>
  \<^item> \<open>Gecit_Prelude\<close>: machine integers, byte strings, the fixed-width encoders and the locale
    \<open>byte_codec\<close> that states their contract, interpreted for the four encoders.
  \<^item> \<open>Event_Runs\<close>: runs of a step function over a list of events; the locales \<open>event_runs\<close> and
    \<open>bounded_runs\<close> have their invariants and bounds, and every component whose steps are a
    function interprets them.
  \<^item> \<open>C_Layout\<close>: C types and the layout rules of the 64-bit little-endian BPF target.
  \<^item> \<open>Bpf_Helper_Defs\<close>: the 211 helper declarations of \<open>src/include/bpf/bpf_helper_defs.h\<close>.
  \<^item> \<open>Vmlinux_Abi\<close>: what the program uses of \<open>src/vmlinux/x86.h\<close> and \<open>src/vmlinux/arm.h\<close>.
  \<^item> \<open>Bpf_Endian\<close>: the byte-order macros of \<open>src/include/bpf/bpf_endian.h\<close>, for both byte orders.
  \<^item> \<open>Bpf_Maps\<close>: the structs and maps of \<open>src/pkg/ebpf/bpf/maps.h\<close>.
  \<^item> \<open>Map_Decls\<close>: the map declarations with the macros of \<open>src/include/bpf/bpf_helpers.h\<close> expanded.
  \<^item> \<open>Sockops\<close>, \<open>Sockops_Tracking\<close>: \<open>src/pkg/ebpf/bpf/sockops.bpf.c\<close>; one definition per handler,
    then the invariant of the connection map, the abstract byte counter each socket
    implements, and the simulation between the two over any sequence of callbacks.
  \<^item> \<open>Sockops_Abi\<close>: the same program at its binary interface: the context read at the offsets of
    a kernel header, helpers called by number through the prototypes of \<open>Bpf_Helper_Defs\<close>, keys,
    values and events as bytes of the sizes \<open>Bpf_Maps\<close> declares; for both kernel headers it does what
    \<open>Sockops\<close> says.
  \<^item> \<open>Go_Net\<close>, \<open>Go_Strings\<close>, \<open>Go_Ip\<close>, \<open>Go_Url\<close>: the parts of Go's standard library the code uses:
    addresses as bytes and in text, strings, and URLs of plain characters.
  \<^item> \<open>Ebpf_Userspace\<close>: \<open>src/pkg/ebpf/config.go\<close> and the defaults and event decoding of
    \<open>src/pkg/ebpf/manager.go\<close>.
  \<^item> \<open>Map_Bounds\<close>: what fits into the bounded maps of \<open>Bpf_Maps\<close> when \<open>Start\<close> pushes a
    configuration.
  \<^item> \<open>Inet_Checksum\<close>, \<open>Rawsock\<close>: \<open>src/pkg/rawsock/rawsock.go\<close> and the senders per platform.
  \<^item> \<open>Fake_Hello\<close>: \<open>src/pkg/fake\<close>, with index and slice panics as \<open>None\<close>.
  \<^item> \<open>Resolv_Conf\<close>: \<open>src/pkg/dns/system_linux.go\<close>; the locale \<open>system_dns\<close> is the contract the
    engine relies on.
  \<^item> \<open>Ebpf_Lifecycle\<close>: \<open>Start\<close>, \<open>Stop\<close> and \<open>injectFake\<close> of the manager, and the Linux engine of
    \<open>src/cmd/gecit/app/run_linux.go\<close>.
  \<^item> \<open>Linux_System\<close>: the running Linux engine as an inductive step relation over kernel
    callbacks, the perf ring, the event loop and run-time switching, with its invariant.
  \<^item> \<open>Shutdown\<close>: the event loop against \<open>Stop\<close>, and the start of the DNS server against its
    goroutine, as step relations over the program points of the two threads, with an
    invariant and a rank.  A read of the ring waits for a sample, a fault or the closing of the
    reader, so that the order of the calls of \<open>Stop\<close> decides whether it returns.
  \<^item> \<open>Upstreams\<close>: settings and defaults (\<open>src/pkg/engine/config.go\<close>, \<open>run.go\<close>), the construction
    of the Linux engine and of the DNS-over-HTTPS clients, and with \<open>Linux_System\<close> the theorem
    that the engine leaves its own DNS traffic alone.
  \<^item> \<open>Mac_Dns\<close>, \<open>Windows_Dns\<close>: \<open>src/pkg/dns/system_darwin.go\<close> and \<open>system_windows.go\<close>, with the
    clean-up after a crash (\<open>src/cmd/gecit/app/cleanup_darwin.go\<close>, \<open>cleanup_windows.go\<close>);
    programs are run through an argument \<open>run\<close>, which \<open>networksetup_spec\<close> and \<open>netsh_spec\<close>
    describe.
  \<^item> \<open>Engines\<close>: the TUN engine (\<open>run_tun.go\<close>) and \<open>runEngine\<close>; the locale \<open>dpi_engine\<close> is what an
    engine promises about the host, \<open>tun_resolver\<close> what the TUN engine needs of a system's
    resolver, and every sequence of runs on each of the three systems follows.
  \<^item> \<open>Dns_Port\<close>: the TUN engine on macOS call by call, with \<open>StopMDNSResponder\<close>, against launchd and
    the system's responder, which compete with it for port 53; it refines \<open>Engines\<close>.
  \<^item> \<open>Command_Line\<close>: \<open>status\<close>, \<open>cleanup\<close> and \<open>run\<close> with their exit status; \<open>dpi_cli\<close> extends
    \<open>dpi_engine\<close> by the clean-up, and every sequence of commands on each system follows.
  \<^item> \<open>Neighbour_Darwin\<close>: \<open>src/pkg/rawsock/neighbor_darwin.go\<close> and the cache of
    \<open>inject_darwin.go\<close>.
  \<^item> \<open>Interfaces\<close>: the choice of the network interface in \<open>src/pkg/tun/manager.go\<close>, and how the
    Windows raw socket and capture find their devices and hardware addresses.
  \<^item> \<open>Raw_Handles\<close>: the handles opened and closed by the raw sockets, the captures and the
    trackers of all systems, under one contract, the locale \<open>handle_owner\<close>.
  \<^item> \<open>Capture\<close>: \<open>processPacket\<close> of \<open>src/pkg/capture\<close> and the tracker of \<open>src/pkg/seqtrack\<close>.
  \<^item> \<open>Tracker\<close>: the packet loop of the capture, \<open>Stop\<close>, and any number of handlers waiting for
    events, over the tracker's shared map.
  \<^item> \<open>Tun_Handler\<close>, \<open>Tun_Manager\<close>: \<open>src/pkg/tun\<close>; the TCP handler as the list of its actions, the
    manager as a ledger of resources.
  \<^item> \<open>Tun_Routes\<close>: the defaults of the manager, the interface it binds to, and the options of the
    TUN device with the prefixes they are written in.
  \<^item> \<open>Pipe\<close>, \<open>Udp_Relay\<close>: \<open>pipe\<close> and the UDP relay of \<open>src/pkg/tun/handler.go\<close>, goroutines that
    interleave; the first is a step relation, the second a step function of the event.  The relay
    has the deadlines of both connections in its state: a waiting read ends by its peer or by
    its deadline, and progress counts only the steps that need no peer.
  \<^item> \<open>Tun_Session\<close>: a session from the dial to the two closes, with the bytes; it refines the
    actions of \<open>Tun_Handler\<close> and runs the steps of \<open>Pipe\<close>, deadlines included.
  \<^item> \<open>Dns_Server\<close>: \<open>src/pkg/dns/server.go\<close> and \<open>src/pkg/dns/doh.go\<close>; the locale \<open>keyed_fifo\<close> is the
    contract of the per-address name queues.
  \<^item> \<open>Name_Queue\<close>, \<open>Name_Labels\<close>: the accesses of concurrent queries and pops to the queues under
    the server's mutex, refined to the operations of \<open>Dns_Server\<close>; and the two readers of the
    queues, \<open>injectFake\<close> with its log label and \<open>resolveDst\<close>.
  \<^item> \<open>Helper_Args\<close>, \<open>Helper_Daemon\<close>: the start command of the macOS application, the helper's
    filter for it, and the helper's loop against the application, the engine and launchd
    (\<open>RuntimeCommandBuilder\<close>, \<open>GecitControlService\<close>, \<open>HelperDaemonScriptBuilder\<close> and
    \<open>RuntimeStore\<close> under \<open>src/apps/macos\<close>).
  \<^item> \<open>Runtime_Store\<close>, \<open>Helper_Install\<close>: the store behind the application's windows, with its timers
    and refreshes against the status file; and the installation of the helper by a script of
    root, with what the store makes of its outcome (\<open>GecitHelperInstaller\<close> and \<open>Installer\<close>).

  \<^bold>\<open>State and environment.\<close>  State is passed explicitly: the BPF maps and the helper calls made
  (\<open>kstate\<close>), the resolver file, the name queues, the set of open resources.  The kernel,
  the network and third-party packages are arguments.  Where a theorem needs them to behave,
  a named predicate says how: \<open>lru_insert_spec\<close> (an insertion into the LRU map stores the
  entry, possibly evicting others, or leaves the map alone), \<open>lru_keeps\<close> (the entry of one
  socket is not evicted), \<open>update_any_spec\<close> (a successful map update stores its value),
  \<open>hash_map_spec\<close> and \<open>array_map_spec\<close> (which updates a bounded map takes),
  \<open>write_succeeds\<close> (a file write stores its contents), \<open>networksetup_spec\<close> and \<open>netsh_spec\<close> (what
  the two programs print and set), \<open>lookups_agree\<close> (a later lookup of a name finds
  no address an earlier one did not find: asked of the lookups made when a client is built and when
  it connects, against the one for the excluded addresses), \<open>write_refused\<close> (a file write fails and
  leaves the file), \<open>lru_bytes_spec\<close> (\<open>lru_insert_spec\<close> on the bytes of the map).  Each such theorem has a witness on a
  concrete instance.

  \<^bold>\<open>Bounds.\<close>  No fuel is used: every loop of the models terminates, the carry loop of the
  checksum and the parser loops by a measure.  The step relations that a rank bounds are the
  relay (ten steps and five for each byte of finite traffic), a session (twelve steps more), the UDP relay (nine and three
  for each datagram), \<open>Stop\<close> after it has closed
  the reader (six steps, however many samples arrive), the packet loop once \<open>done\<close> is closed (three),
  a holder of the name queues' mutex (two for each address and one), the start of the DNS server (five)
  and the start and stop of the engine on macOS (30 and four calls, ten rounds of the loop among them);
  each comes with progress, so that a run that cannot go on has returned.  For the relay, a session
  and \<open>Stop\<close>, progress is a step that waits for no peer and no sample; the two writes of the code
  that have no deadline are named as the exceptions.  The exactly-once
  theorem on the MSS assumes that the limit plus one segment stays below \<open>2 ^ 32\<close> (the counter is 32 bits wide); the
  packet theorems assume that the packet fits its 16-bit length field.

  \<^bold>\<open>Not modelled.\<close>  The rest of the kernel headers and of libbpf's headers (macros no file of
  the program expands), flag parsing, logging, URLs beyond plain characters, what the TUN
  library makes of its options, the embedded objects, and of the macOS application its views
  and windows, the owners and modes of the helper's files and the rotation of its log.  They
  are generated or vendored text the program does not use, libraries, or user interface.

  \<^bold>\<open>Possible extensions.\<close>  The helper's files with owners, modes and links; the TUN engine of
  one run, from its manager's start to the sessions it carries, as one state machine.
\<close>

end
